(* ===== verification/Prelude.thy ===== *)
theory Prelude
  imports Main "HOL-Library.Word" "HOL-Library.Sublist" "HOL-Library.Product_Lexorder"
    "HOL-Library.Code_Target_Nat"
begin

section \<open>Shared types, collections and list lemmas\<close>

text \<open>
  This theory holds what every component of the development shares: the names of the model's
  basic types, the list operations that stand for the SQL statements the Go code issues
  (\<open>UPDATE .. WHERE\<close>, \<open>COUNT\<close>, \<open>ORDER BY .. LIMIT\<close>), their lemmas, and the
  \<open>named_theorems\<close> collections the component proofs feed to the simplifier.

  A Go \<open>string\<close> and a Go \<open>[]byte\<close> are both sequences of bytes and both become
  \<^typ>\<open>string\<close> (a \<^typ>\<open>char\<close> is one byte). A \<open>time.Time\<close> and a
  \<open>time.Duration\<close> are \<^typ>\<open>int\<close> nanoseconds. A Go \<open>int\<close> that only counts or
  compares is \<^typ>\<open>int\<close> or \<^typ>\<open>nat\<close>; where the width matters a
  \<^typ>\<open>64 word\<close> is used.
\<close>

named_theorems str_defs "definitions of the Go string functions"
named_theorems sql_simps "simplification of the SQL-like list operations"
named_theorems db_defs "definitions of the database operations"
named_theorems api_defs "definitions of the HTTP layer"

type_synonym bytes = string
type_synonym time = int
type_synonym duration = int

abbreviation Second :: duration where "Second \<equiv> 1000000000"
abbreviation Minute :: duration where "Minute \<equiv> 60000000000"
abbreviation Hour :: duration where "Hour \<equiv> 3600000000000"
abbreviation Day :: duration where "Day \<equiv> 86400000000000"

subsection \<open>SQL statements as list operations\<close>

text \<open>
  A table is the list of its rows. \<open>update_where P f t\<close> is
  \<open>UPDATE t SET f WHERE P\<close>, \<open>count_where P t\<close> is
  \<open>SELECT COUNT(*) FROM t WHERE P\<close>, \<open>exists_where P t\<close> is
  \<open>EXISTS (SELECT 1 FROM t WHERE P)\<close>, \<open>delete_where P t\<close> is
  \<open>DELETE FROM t WHERE P\<close> and \<open>first_where P t\<close> is a single-row \<open>SELECT\<close>.
\<close>

definition update_where :: "('a \<Rightarrow> bool) \<Rightarrow> ('a \<Rightarrow> 'a) \<Rightarrow> 'a list \<Rightarrow> 'a list" where
  "update_where P f t = map (\<lambda>r. if P r then f r else r) t"

definition count_where :: "('a \<Rightarrow> bool) \<Rightarrow> 'a list \<Rightarrow> nat" where
  "count_where P t = length (filter P t)"

definition exists_where :: "('a \<Rightarrow> bool) \<Rightarrow> 'a list \<Rightarrow> bool" where
  "exists_where P t = list_ex P t"

definition delete_where :: "('a \<Rightarrow> bool) \<Rightarrow> 'a list \<Rightarrow> 'a list" where
  "delete_where P t = filter (\<lambda>r. \<not> P r) t"

definition first_where :: "('a \<Rightarrow> bool) \<Rightarrow> 'a list \<Rightarrow> 'a option" where
  "first_where P t = List.find P t"

definition order_limit :: "('a \<Rightarrow> 'k::linorder) \<Rightarrow> nat \<Rightarrow> 'a list \<Rightarrow> 'a list" where
  "order_limit k n t = take n (sort_key k t)"

lemma update_where_Nil [simp]: "update_where P f [] = []"
  by (simp add: update_where_def)

lemma update_where_Cons [simp]:
  "update_where P f (r # t) = (if P r then f r else r) # update_where P f t"
  by (simp add: update_where_def)

lemma length_update_where [simp, sql_simps]: "length (update_where P f t) = length t"
  by (simp add: update_where_def)

lemma in_update_where [sql_simps]:
  "x \<in> set (update_where P f t) \<longleftrightarrow> (\<exists>r \<in> set t. x = (if P r then f r else r))"
  by (auto simp: update_where_def)

lemma in_update_where_cases:
  "x \<in> set (update_where P f t) \<longleftrightarrow> (\<exists>r \<in> set t. P r \<and> x = f r) \<or> (x \<in> set t \<and> \<not> P x)"
  by (auto simp: update_where_def)

lemma in_update_whereI: "r \<in> set t \<Longrightarrow> P r \<Longrightarrow> f r \<in> set (update_where P f t)"
  by (auto simp: in_update_where_cases)

lemma update_where_sets:
  assumes "x \<in> set (update_where P f t)" and "\<And>r. r \<in> set t \<Longrightarrow> P r \<Longrightarrow> R (f r)"
    and "\<And>r. r \<in> set t \<Longrightarrow> \<not> P r \<Longrightarrow> R r"
  shows "R x"
  using assms by (auto simp: update_where_def)

lemma map_update_where:
  "(\<And>r. g (f r) = g r) \<Longrightarrow> map g (update_where P f t) = map g t"
  by (simp add: update_where_def)

lemma ex_update_where:
  assumes "\<And>r. g (f r) = g r"
  shows "(\<exists>r \<in> set (update_where P f t). g r = k) \<longleftrightarrow> (\<exists>r \<in> set t. g r = k)"
proof -
  have "k \<in> set (map g (update_where P f t)) \<longleftrightarrow> k \<in> set (map g t)" using map_update_where [of g f] assms by simp
  then show ?thesis by (auto simp: image_iff)
qed

lemma update_where_all:
  "(\<And>r. r \<in> set t \<Longrightarrow> Q r) \<Longrightarrow> (\<And>r. Q r \<Longrightarrow> P r \<Longrightarrow> Q (f r)) \<Longrightarrow>
    x \<in> set (update_where P f t) \<Longrightarrow> Q x"
  by (auto simp: in_update_where split: if_splits)

lemma update_where_none: "count_where P t = 0 \<Longrightarrow> update_where P f t = t"
  by (induction t) (auto simp: count_where_def split: if_splits)

lemma count_where_simps [simp]:
  "count_where P [] = 0"
  "count_where P (r # t) = (if P r then Suc (count_where P t) else count_where P t)"
  "count_where P (t @ t') = count_where P t + count_where P t'"
  by (simp_all add: count_where_def)

lemma count_where_0_iff [sql_simps]: "count_where P t = 0 \<longleftrightarrow> (\<forall>r \<in> set t. \<not> P r)"
  by (induction t) auto

lemma count_where_pos_iff: "0 < count_where P t \<longleftrightarrow> (\<exists>r \<in> set t. P r)"
  by (induction t) auto

lemma count_where_mono:
  "(\<And>r. r \<in> set t \<Longrightarrow> P r \<Longrightarrow> Q r) \<Longrightarrow> count_where P t \<le> count_where Q t"
  by (induction t) (auto intro: le_SucI)

lemma count_where_update_le:
  "(\<And>r. P r \<Longrightarrow> Q (f r) \<Longrightarrow> Q r) \<Longrightarrow>
    count_where Q (update_where P f t) \<le> count_where Q t"
  by (induction t) (auto intro: le_SucI)

lemma count_where_cong:
  "(\<And>r. r \<in> set t \<Longrightarrow> P r = Q r) \<Longrightarrow> count_where P t = count_where Q t"
  by (induction t) auto

lemma exists_where_iff [simp, sql_simps]: "exists_where P t \<longleftrightarrow> (\<exists>r \<in> set t. P r)"
  by (auto simp: exists_where_def list_ex_iff)

lemma set_delete_where [simp, sql_simps]: "set (delete_where P t) = {x \<in> set t. \<not> P x}"
  by (auto simp: delete_where_def)

lemma count_where_delete:
  "count_where Q (delete_where P t) \<le> count_where Q t"
  by (induction t) (auto simp: delete_where_def intro: le_SucI)

lemma first_where_Some [dest]: "first_where P t = Some r \<Longrightarrow> r \<in> set t \<and> P r"
  by (auto simp: first_where_def find_Some_iff)

lemma first_where_None_iff [sql_simps]: "first_where P t = None \<longleftrightarrow> (\<forall>r \<in> set t. \<not> P r)"
  by (auto simp: first_where_def find_None_iff)

lemma first_where_exists: "r \<in> set t \<Longrightarrow> P r \<Longrightarrow> \<exists>r'. first_where P t = Some r'"
  by (cases "first_where P t") (auto simp: first_where_None_iff)

lemma first_where_unique:
  assumes "r \<in> set t" and "P r" and "\<And>r'. r' \<in> set t \<Longrightarrow> P r' \<Longrightarrow> r' = r"
  shows "first_where P t = Some r"
proof -
  obtain r' where "first_where P t = Some r'"
    using first_where_exists assms(1,2) by metis
  with assms(3) show ?thesis by auto
qed

lemma first_where_append: "first_where P t = Some r \<Longrightarrow> first_where P (t @ t') = Some r"
  by (induction t) (auto simp: first_where_def split: if_splits)

lemma set_order_limit: "set (order_limit k n t) \<subseteq> set t"
  unfolding order_limit_def by (metis set_sort set_take_subset)

lemma length_order_limit [simp]: "length (order_limit k n t) = min n (length t)"
  by (simp add: order_limit_def)

lemma order_limit_0 [simp]: "order_limit k 0 t = []"
  by (simp add: order_limit_def)

lemma order_limit_1_min:
  assumes "order_limit k 1 t = [r]"
  shows "r \<in> set t \<and> (\<forall>r' \<in> set t. k r \<le> k r')"
proof -
  obtain xs where s: "sort_key k t = r # xs"
    using assms by (cases "sort_key k t") (auto simp: order_limit_def)
  have "sorted (map k (r # xs))" by (metis s sorted_sort_key)
  moreover have "set t = insert r (set xs)" by (metis s set_sort list.simps(15))
  ultimately show ?thesis by auto
qed

lemma order_limit_1_cases:
  "(t = [] \<and> order_limit k 1 t = []) \<or> (\<exists>r. order_limit k 1 t = [r])"
proof (cases "sort_key k t")
  case Nil
  then have "t = []" by (metis length_0_conv length_sort)
  with Nil show ?thesis by (simp add: order_limit_def)
next
  case (Cons r xs)
  then show ?thesis by (simp add: order_limit_def)
qed

subsection \<open>Lists and options\<close>

lemma distinct_map_update_where:
  "(\<And>r. g (f r) = g r) \<Longrightarrow> distinct (map g (update_where P f t)) = distinct (map g t)"
  by (simp add: map_update_where)

lemma distinct_map_delete_where:
  "distinct (map g t) \<Longrightarrow> distinct (map g (delete_where P t))"
  unfolding delete_where_def by (induction t) auto

lemma distinct_map_eqD:
  "distinct (map g t) \<Longrightarrow> x \<in> set t \<Longrightarrow> y \<in> set t \<Longrightarrow> g x = g y \<Longrightarrow> x = y"
  by (meson distinct_map inj_onD)

lemma takeWhile_notin [simp]: "c \<notin> set (takeWhile (\<lambda>x. x \<noteq> c) s)"
  by (auto dest: set_takeWhileD)

lemma takeWhile_id: "c \<notin> set s \<Longrightarrow> takeWhile (\<lambda>x. x \<noteq> c) s = s"
  by (induction s) auto

lemma dropWhile_id: "c \<notin> set s \<Longrightarrow> dropWhile (\<lambda>x. x \<noteq> c) s = []"
  by (induction s) auto

text \<open>Rows affected by a statement, as \<open>RowsAffected\<close> reports them.\<close>

definition rows_affected :: "('a \<Rightarrow> bool) \<Rightarrow> 'a list \<Rightarrow> nat" where
  "rows_affected P t = count_where P t"

lemma rows_affected_0_iff [sql_simps]: "rows_affected P t = 0 \<longleftrightarrow> (\<forall>r \<in> set t. \<not> P r)"
  by (simp add: rows_affected_def count_where_0_iff)

subsection \<open>Positional digits\<close>

text \<open>The base-\<open>B\<close> digits of a number, most significant first, and back.\<close>

fun to_digits :: "nat \<Rightarrow> nat \<Rightarrow> nat \<Rightarrow> nat list" where
  "to_digits B 0 n = []"
| "to_digits B (Suc k) n = to_digits B k (n div B) @ [n mod B]"

definition of_digits :: "nat \<Rightarrow> nat list \<Rightarrow> nat" where
  "of_digits B ds = foldl (\<lambda>a d. a * B + d) 0 ds"

lemma of_digits_simps [simp]:
  "of_digits B [] = 0" "of_digits B (ds @ [d]) = of_digits B ds * B + d"
  by (simp_all add: of_digits_def)

lemma length_to_digits [simp]: "length (to_digits B k n) = k"
  by (induction k arbitrary: n) auto

lemma to_digits_less: "0 < B \<Longrightarrow> d \<in> set (to_digits B k n) \<Longrightarrow> d < B"
  by (induction k arbitrary: n) auto

lemma of_to_digits: "n < B ^ k \<Longrightarrow> of_digits B (to_digits B k n) = n"
proof (induction k arbitrary: n)
  case (Suc k)
  have "n div B < B ^ k" using Suc.prems by (simp add: less_mult_imp_div_less mult.commute)
  with Suc.IH show ?case by simp
qed simp

lemma of_digits_less: "(\<And>d. d \<in> set ds \<Longrightarrow> d < B) \<Longrightarrow> of_digits B ds < B ^ length ds"
proof (induction ds rule: rev_induct)
  case (snoc d ds)
  have "of_digits B ds + 1 \<le> B ^ length ds" using snoc by (simp add: Suc_leI)
  then have "(of_digits B ds + 1) * B \<le> B ^ length ds * B" by (rule mult_le_mono1)
  moreover have "d < B" using snoc by simp
  ultimately show ?case by (simp add: algebra_simps)
qed simp

lemma to_of_digits:
  "length ds = k \<Longrightarrow> (\<And>d. d \<in> set ds \<Longrightarrow> d < B) \<Longrightarrow> to_digits B k (of_digits B ds) = ds"
proof (induction k arbitrary: ds)
  case (Suc k)
  then obtain es d where ds: "ds = es @ [d]" by (metis length_Suc_conv_rev)
  with Suc have "d < B" "to_digits B k (of_digits B es) = es" by auto
  with ds show ?case by simp
qed simp

lemma of_digits_inj:
  "length ds = length es \<Longrightarrow> (\<And>d. d \<in> set ds \<Longrightarrow> d < B) \<Longrightarrow> (\<And>d. d \<in> set es \<Longrightarrow> d < B) \<Longrightarrow>
    of_digits B ds = of_digits B es \<Longrightarrow> ds = es"
  by (metis to_of_digits)

lemma to_digits_5:
  "to_digits B 5 n =
     [n div B div B div B div B mod B, n div B div B div B mod B, n div B div B mod B,
      n div B mod B, n mod B]"
  by (simp add: numeral_eq_Suc)

end
