(* ===== verification/Go_Strings.thy ===== *)
theory Go_Strings
  imports Prelude
begin

section \<open>The Go string library, as the program uses it\<close>

text \<open>
  The functions of \<open>strings\<close>, \<open>strconv\<close>, \<open>unicode/utf8\<close> and \<open>encoding/hex\<close> that the
  sources call, over byte strings. Unicode white space is recognised by its UTF-8 encoding, so
  \<open>TrimSpace\<close> and \<open>Fields\<close> treat every string, ASCII or not. \<open>strings.ToLower\<close> and
  \<open>strings.ToUpper\<close> are the ASCII tables on ASCII strings; what the Unicode tables do to a
  string with a byte above 127 is an argument of the model (the first argument of \<open>ToLower\<close>).
\<close>

subsection \<open>Bytes\<close>

definition byte :: "char \<Rightarrow> nat" where
  "byte c = of_char c"

definition chr :: "nat \<Rightarrow> char" where
  "chr n = char_of n"

definition is_ascii :: "char \<Rightarrow> bool" where
  "is_ascii c = (byte c < 128)"

definition lower_char :: "char \<Rightarrow> char" where
  "lower_char c = (if 65 \<le> byte c \<and> byte c \<le> 90 then chr (byte c + 32) else c)"

definition upper_char :: "char \<Rightarrow> char" where
  "upper_char c = (if 97 \<le> byte c \<and> byte c \<le> 122 then chr (byte c - 32) else c)"

definition is_digit :: "char \<Rightarrow> bool" where
  "is_digit c = (48 \<le> byte c \<and> byte c \<le> 57)"

definition is_lower :: "char \<Rightarrow> bool" where
  "is_lower c = (97 \<le> byte c \<and> byte c \<le> 122)"

definition is_upper :: "char \<Rightarrow> bool" where
  "is_upper c = (65 \<le> byte c \<and> byte c \<le> 90)"

definition is_alpha :: "char \<Rightarrow> bool" where
  "is_alpha c = (is_lower c \<or> is_upper c)"

definition is_alnum :: "char \<Rightarrow> bool" where
  "is_alnum c = (is_alpha c \<or> is_digit c)"

lemma byte_less [simp]: "byte c < 256"
  using of_char_mod_256 [of c, where 'a = nat] unfolding byte_def
  by (metis mod_less_divisor zero_less_numeral)

lemma byte_chr: "byte (chr n) = n mod 256"
  by (simp add: byte_def chr_def)

lemma byte_chr_small [simp]: "n < 256 \<Longrightarrow> byte (chr n) = n"
  by (simp add: byte_chr)

lemma chr_byte [simp]: "chr (byte c) = c"
  by (simp add: byte_def chr_def)

lemma byte_inject: "byte a = byte b \<longleftrightarrow> a = b"
  by (metis chr_byte)

lemma chr_inject: "m < 256 \<Longrightarrow> n < 256 \<Longrightarrow> chr m = chr n \<longleftrightarrow> m = n"
  by (metis byte_chr_small)

lemma byte_lower_char:
  "byte (lower_char c) = (if 65 \<le> byte c \<and> byte c \<le> 90 then byte c + 32 else byte c)"
  by (simp add: lower_char_def)

lemma lower_char_idem [simp]: "lower_char (lower_char c) = lower_char c"
  by (auto simp: lower_char_def)

lemma is_ascii_lower_char [simp]: "is_ascii (lower_char c) = is_ascii c"
  by (auto simp: is_ascii_def byte_lower_char)

lemma lower_char_not_upper: "\<not> is_upper c \<Longrightarrow> lower_char c = c"
  by (auto simp: lower_char_def is_upper_def)

subsection \<open>Case mapping\<close>

definition ascii :: "string \<Rightarrow> bool" where
  "ascii s = list_all is_ascii s"

definition ToLower :: "(string \<Rightarrow> string) \<Rightarrow> string \<Rightarrow> string" where
  "ToLower uni s = (if ascii s then map lower_char s else uni s)"

definition ToUpper :: "(string \<Rightarrow> string) \<Rightarrow> string \<Rightarrow> string" where
  "ToUpper uni s = (if ascii s then map upper_char s else uni s)"

text \<open>
  \<open>strings.EqualFold(s, t)\<close> for an ASCII \<open>t\<close>: besides the two cases of a letter, simple
  folding identifies \<open>s\<close> with U+017F (C5 BF) and \<open>k\<close> with U+212A (E2 84 AA).
\<close>

fun EqualFold :: "string \<Rightarrow> string \<Rightarrow> bool" where
  "EqualFold [] [] = True"
| "EqualFold (a # s) (b # t) =
     (if is_ascii a then lower_char a = lower_char b \<and> EqualFold s t
      else if byte a = 197 then
        (case s of x # s' \<Rightarrow> byte x = 191 \<and> lower_char b = CHR ''s'' \<and> EqualFold s' t
         | [] \<Rightarrow> False)
      else if byte a = 226 then
        (case s of x # y # s' \<Rightarrow>
           byte x = 132 \<and> byte y = 170 \<and> lower_char b = CHR ''k'' \<and> EqualFold s' t
         | _ \<Rightarrow> False)
      else False)"
| "EqualFold _ _ = False"

lemma ascii_simps [simp]:
  "ascii []" "ascii (c # s) \<longleftrightarrow> is_ascii c \<and> ascii s" "ascii (s @ t) \<longleftrightarrow> ascii s \<and> ascii t"
  by (auto simp: ascii_def)

lemma ascii_iff: "ascii s \<longleftrightarrow> (\<forall>c \<in> set s. is_ascii c)"
  by (simp add: ascii_def list_all_iff)

lemma ToLower_ascii: "ascii s \<Longrightarrow> ToLower u s = map lower_char s"
  by (simp add: ToLower_def)

lemma ascii_map_lower [simp]: "ascii (map lower_char s) = ascii s"
  by (induction s) auto

lemma ToLower_idem_ascii: "ascii s \<Longrightarrow> ToLower u (ToLower u s) = ToLower u s"
  by (simp add: ToLower_def comp_def)

lemma length_ToLower_ascii: "ascii s \<Longrightarrow> length (ToLower u s) = length s"
  by (simp add: ToLower_def)

subsection \<open>Searching and cutting\<close>

abbreviation HasPrefix :: "string \<Rightarrow> string \<Rightarrow> bool" where
  "HasPrefix s p \<equiv> prefix p s"

abbreviation HasSuffix :: "string \<Rightarrow> string \<Rightarrow> bool" where
  "HasSuffix s p \<equiv> suffix p s"

fun Contains :: "string \<Rightarrow> string \<Rightarrow> bool" where
  "Contains [] p = (p = [])"
| "Contains (c # s) p = (prefix p (c # s) \<or> Contains s p)"

definition TrimPrefix :: "string \<Rightarrow> string \<Rightarrow> string" where
  "TrimPrefix s p = (if prefix p s then drop (length p) s else s)"

definition TrimSuffix :: "string \<Rightarrow> string \<Rightarrow> string" where
  "TrimSuffix s p = (if suffix p s then take (length s - length p) s else s)"

text \<open>\<open>strings.Cut\<close> with a one-byte separator; the Boolean says whether it was found.\<close>

definition Cut :: "char \<Rightarrow> string \<Rightarrow> string \<times> string \<times> bool" where
  "Cut c s = (takeWhile (\<lambda>x. x \<noteq> c) s, tl (dropWhile (\<lambda>x. x \<noteq> c) s), c \<in> set s)"

text \<open>\<open>strings.LastIndex\<close> with a one-byte separator: what is before and after the last one.\<close>

definition CutLast :: "char \<Rightarrow> string \<Rightarrow> (string \<times> string) option" where
  "CutLast c s =
     (if c \<in> set s
      then Some (rev (tl (dropWhile (\<lambda>x. x \<noteq> c) (rev s))), rev (takeWhile (\<lambda>x. x \<noteq> c) (rev s)))
      else None)"

text \<open>\<open>strings.Split\<close> with a one-byte separator: always at least one part.\<close>

fun Split :: "char \<Rightarrow> string \<Rightarrow> string list" where
  "Split c [] = [[]]"
| "Split c (x # s) =
     (if x = c then [] # Split c s
      else (case Split c s of p # ps \<Rightarrow> (x # p) # ps | [] \<Rightarrow> [[x]]))"

definition RemoveAll :: "char \<Rightarrow> string \<Rightarrow> string" where
  "RemoveAll c s = filter (\<lambda>x. x \<noteq> c) s"

definition TrimRight :: "char \<Rightarrow> string \<Rightarrow> string" where
  "TrimRight c s = rev (dropWhile (\<lambda>x. x = c) (rev s))"

fun Join :: "string list \<Rightarrow> string \<Rightarrow> string" where
  "Join [] sep = []"
| "Join [p] sep = p"
| "Join (p # ps) sep = p @ sep @ Join ps sep"

lemma TrimRight_notin: "c \<notin> set s \<Longrightarrow> TrimRight c s = s"
  by (cases s rule: rev_cases) (auto simp: TrimRight_def)

lemma RemoveAll_notin: "c \<notin> set s \<Longrightarrow> RemoveAll c s = s"
  unfolding RemoveAll_def by (induction s) auto

lemma Contains_append [simp]: "Contains (s @ p @ t) p"
  by (induction s) (cases p; cases t; auto)+

lemma Contains_iff: "Contains s p \<longleftrightarrow> (\<exists>u v. s = u @ p @ v)"
proof
  assume "Contains s p"
  then show "\<exists>u v. s = u @ p @ v"
  proof (induction s p rule: Contains.induct)
    case (2 c s p)
    then show ?case by (auto simp: prefix_def) (metis append.left_neutral, metis append_Cons)
  qed auto
qed auto

lemma Split_neq_Nil [simp]: "Split c s \<noteq> []"
  by (cases s) (auto split: list.splits)

lemma Split_notin: "c \<notin> set s \<Longrightarrow> Split c s = [s]"
  by (induction s) auto

lemma Split_append: "c \<notin> set p \<Longrightarrow> Split c (p @ c # s) = p # Split c s"
  by (induction p) auto

lemma Split_parts_notin: "p \<in> set (Split c s) \<Longrightarrow> c \<notin> set p"
proof (induction s arbitrary: p)
  case (Cons x s)
  then show ?case by (cases "Split c s") (auto split: if_splits)
qed auto

lemma CutLast_Some:
  "CutLast c s = Some (a, b) \<Longrightarrow> s = a @ c # b \<and> c \<notin> set b"
proof -
  assume a: "CutLast c s = Some (a, b)"
  then have c: "c \<in> set (rev s)" by (auto simp: CutLast_def split: if_splits)
  have ab: "a = rev (tl (dropWhile (\<lambda>x. x \<noteq> c) (rev s)))" "b = rev (takeWhile (\<lambda>x. x \<noteq> c) (rev s))"
    using a by (auto simp: CutLast_def split: if_splits)
  have ne: "dropWhile (\<lambda>x. x \<noteq> c) (rev s) \<noteq> []"
    using c by (simp add: dropWhile_eq_Nil_conv) 
  have hd: "hd (dropWhile (\<lambda>x. x \<noteq> c) (rev s)) = c"
    using hd_dropWhile [OF ne] by simp
  have "rev s = takeWhile (\<lambda>x. x \<noteq> c) (rev s) @ c # tl (dropWhile (\<lambda>x. x \<noteq> c) (rev s))"
    using ne hd by (metis list.collapse takeWhile_dropWhile_id)
  then have "s = rev (takeWhile (\<lambda>x. x \<noteq> c) (rev s) @ c # tl (dropWhile (\<lambda>x. x \<noteq> c) (rev s)))"
    by (metis rev_rev_ident)
  with ab show ?thesis by simp
qed

lemma takeWhile_cut: "c \<notin> set b \<Longrightarrow> takeWhile (\<lambda>x. x \<noteq> c) (b @ c # a) = b"
  by (induction b) auto

lemma dropWhile_cut: "c \<notin> set b \<Longrightarrow> dropWhile (\<lambda>x. x \<noteq> c) (b @ c # a) = c # a"
  by (induction b) auto

lemma CutLast_append: "c \<notin> set b \<Longrightarrow> CutLast c (a @ c # b) = Some (a, b)"
  by (simp add: CutLast_def takeWhile_cut dropWhile_cut)

lemma CutLast_None: "CutLast c s = None \<longleftrightarrow> c \<notin> set s"
  by (simp add: CutLast_def)

lemma Cut_append: "c \<notin> set a \<Longrightarrow> Cut c (a @ c # b) = (a, b, True)"
  by (simp add: Cut_def takeWhile_cut dropWhile_cut)

lemma Cut_notin: "c \<notin> set s \<Longrightarrow> Cut c s = (s, [], False)"
  by (simp add: Cut_def takeWhile_id dropWhile_id)

subsection \<open>White space\<close>

text \<open>The UTF-8 encodings of the runes for which \<open>unicode.IsSpace\<close> holds.\<close>

definition ascii_space_bytes :: "nat list" where
  "ascii_space_bytes = [9, 10, 11, 12, 13, 32]"

definition wide_space_bytes :: "nat list list" where
  "wide_space_bytes =
     [[194, 133], [194, 160], [225, 154, 128],
      [226, 128, 128], [226, 128, 129], [226, 128, 130], [226, 128, 131], [226, 128, 132],
      [226, 128, 133], [226, 128, 134], [226, 128, 135], [226, 128, 136], [226, 128, 137],
      [226, 128, 138], [226, 128, 168], [226, 128, 169], [226, 128, 175], [226, 129, 159],
      [227, 128, 128]]"

definition space_runes :: "string list" where
  "space_runes = map (\<lambda>n. [chr n]) ascii_space_bytes @ map (map chr) wide_space_bytes"

definition leading_space :: "string \<Rightarrow> nat" where
  "leading_space s =
     (case List.find (\<lambda>w. prefix w s) space_runes of None \<Rightarrow> 0 | Some w \<Rightarrow> length w)"

definition trailing_space :: "string \<Rightarrow> nat" where
  "trailing_space s =
     (case List.find (\<lambda>w. suffix w s) space_runes of None \<Rightarrow> 0 | Some w \<Rightarrow> length w)"

lemma wide_space_bytes_wf:
  "ns \<in> set wide_space_bytes \<Longrightarrow> ns \<noteq> [] \<and> list_all (\<lambda>n. 128 \<le> n \<and> n < 256) ns"
proof -
  have "list_all (\<lambda>ns. ns \<noteq> [] \<and> list_all (\<lambda>n. 128 \<le> n \<and> n < 256) ns) wide_space_bytes"
    by (simp add: wide_space_bytes_def)
  then show "ns \<in> set wide_space_bytes \<Longrightarrow> ?thesis" by (simp add: list_all_iff)
qed

lemma space_runes_length: "w \<in> set space_runes \<Longrightarrow> 0 < length w"
  by (auto simp: space_runes_def dest: wide_space_bytes_wf)

lemma leading_space_le: "leading_space s \<le> length s"
  by (auto simp: leading_space_def find_Some_iff prefix_length_le split: option.splits)

lemma trailing_space_le: "trailing_space s \<le> length s"
  by (auto simp: trailing_space_def find_Some_iff suffix_length_le split: option.splits)

function TrimLeftSpace :: "string \<Rightarrow> string" where
  "TrimLeftSpace s =
     (if leading_space s = 0 then s else TrimLeftSpace (drop (leading_space s) s))"
  by pat_completeness auto
termination
proof (relation "measure length")
  fix s :: string
  assume "leading_space s \<noteq> 0"
  moreover from this have "s \<noteq> []" using leading_space_le [of s] by auto
  ultimately show "(drop (leading_space s) s, s) \<in> measure length" by simp
qed simp

function TrimRightSpace :: "string \<Rightarrow> string" where
  "TrimRightSpace s =
     (if trailing_space s = 0 then s
      else TrimRightSpace (take (length s - trailing_space s) s))"
  by pat_completeness auto
termination
proof (relation "measure length")
  fix s :: string
  assume "trailing_space s \<noteq> 0"
  moreover from this have "s \<noteq> []" using trailing_space_le [of s] by auto
  ultimately show "(take (length s - trailing_space s) s, s) \<in> measure length" by simp
qed simp

declare TrimLeftSpace.simps [simp del] TrimRightSpace.simps [simp del]

definition TrimSpace :: "string \<Rightarrow> string" where
  "TrimSpace s = TrimRightSpace (TrimLeftSpace s)"

text \<open>\<open>strings.Fields\<close>: the maximal runs of non-space runes.\<close>

function fields_acc :: "string \<Rightarrow> string \<Rightarrow> string list" where
  "fields_acc cur s =
     (if s = [] then (if cur = [] then [] else [cur])
      else if leading_space s = 0 then fields_acc (cur @ [hd s]) (tl s)
      else (if cur = [] then [] else [cur]) @ fields_acc [] (drop (leading_space s) s))"
  by pat_completeness auto
termination
  by (relation "measure (\<lambda>(cur, s). length s)") auto

declare fields_acc.simps [simp del]

definition Fields :: "string \<Rightarrow> string list" where
  "Fields s = fields_acc [] s"

abbreviation ascii_spaces :: "nat set" where
  "ascii_spaces \<equiv> {9, 10, 11, 12, 13, 32}"

lemma space_runes_cases:
  assumes "w \<in> set space_runes"
  shows "(\<exists>n \<in> ascii_spaces. w = [chr n]) \<or> (w \<noteq> [] \<and> list_all (\<lambda>b. 128 \<le> byte b) w)"
proof -
  consider (ascii) n where "n \<in> set ascii_space_bytes" "w = [chr n]"
    | (wide) ns where "ns \<in> set wide_space_bytes" "w = map chr ns"
    using assms by (auto simp: space_runes_def)
  then show ?thesis
  proof cases
    case ascii
    then show ?thesis by (auto simp: ascii_space_bytes_def)
  next
    case wide
    with wide_space_bytes_wf [of ns] show ?thesis
      by (auto simp: list_all_iff)
  qed
qed

lemma ascii_space_rune: "byte c \<in> ascii_spaces \<Longrightarrow> [c] \<in> set space_runes"
proof -
  assume "byte c \<in> ascii_spaces"
  then have "byte c \<in> set ascii_space_bytes" by (simp add: ascii_space_bytes_def)
  then have "[chr (byte c)] \<in> (\<lambda>n. [chr n]) ` set ascii_space_bytes" by (rule imageI)
  then show ?thesis by (simp add: space_runes_def)
qed

lemma leading_space_0_iff: "leading_space s = 0 \<longleftrightarrow> (\<forall>w \<in> set space_runes. \<not> prefix w s)"
proof (cases "List.find (\<lambda>w. prefix w s) space_runes")
  case None
  then have "\<forall>w \<in> set space_runes. \<not> prefix w s" by (auto simp: find_None_iff)
  with None show ?thesis by (simp add: leading_space_def)
next
  case (Some w)
  then have "w \<in> set space_runes" and "prefix w s" by (auto simp: find_Some_iff)
  with Some show ?thesis
    using space_runes_length [of w] by (auto simp: leading_space_def)
qed

lemma trailing_space_0_iff: "trailing_space s = 0 \<longleftrightarrow> (\<forall>w \<in> set space_runes. \<not> suffix w s)"
proof (cases "List.find (\<lambda>w. suffix w s) space_runes")
  case None
  then have "\<forall>w \<in> set space_runes. \<not> suffix w s" by (auto simp: find_None_iff)
  with None show ?thesis by (simp add: trailing_space_def)
next
  case (Some w)
  then have "w \<in> set space_runes" and "suffix w s" by (auto simp: find_Some_iff)
  with Some show ?thesis
    using space_runes_length [of w] by (auto simp: trailing_space_def)
qed

lemma leading_space_ascii_0:
  "is_ascii c \<Longrightarrow> byte c \<notin> ascii_spaces \<Longrightarrow> leading_space (c # s) = 0"
  unfolding leading_space_0_iff
  by (auto dest!: space_runes_cases simp: is_ascii_def prefix_Cons split: if_splits)

lemma trailing_space_ascii_0:
  assumes "is_ascii c" and "byte c \<notin> ascii_spaces"
  shows "trailing_space (s @ [c]) = 0"
  unfolding trailing_space_0_iff
proof (intro ballI notI)
  fix w
  assume w: "w \<in> set space_runes" and "suffix w (s @ [c])"
  then obtain w' where w': "w = w' @ [c]"
    using space_runes_length [OF w] by (auto simp: suffix_snoc)
  from space_runes_cases [OF w] show False
  proof
    assume "\<exists>n \<in> ascii_spaces. w = [chr n]"
    with w' have "\<exists>n \<in> ascii_spaces. c = chr n" by auto
    with assms(2) show False by auto
  next
    assume "w \<noteq> [] \<and> list_all (\<lambda>b. 128 \<le> byte b) w"
    with w' assms(1) show False by (auto simp: is_ascii_def)
  qed
qed

lemma leading_space_Nil [simp]: "leading_space [] = 0"
  using leading_space_le [of "[]"] by simp

lemma trailing_space_Nil [simp]: "trailing_space [] = 0"
  using trailing_space_le [of "[]"] by simp

lemma TrimLeftSpace_id: "leading_space s = 0 \<Longrightarrow> TrimLeftSpace s = s"
  by (simp add: TrimLeftSpace.simps)

lemma TrimRightSpace_id: "trailing_space s = 0 \<Longrightarrow> TrimRightSpace s = s"
  by (simp add: TrimRightSpace.simps)

lemma leading_TrimLeftSpace: "leading_space (TrimLeftSpace s) = 0"
proof (induction s rule: TrimLeftSpace.induct)
  case (1 s)
  then show ?case by (subst TrimLeftSpace.simps) simp
qed

lemma trailing_TrimRightSpace: "trailing_space (TrimRightSpace s) = 0"
proof (induction s rule: TrimRightSpace.induct)
  case (1 s)
  then show ?case by (subst TrimRightSpace.simps) simp
qed

lemma prefix_TrimRightSpace: "prefix (TrimRightSpace s) s"
proof (induction s rule: TrimRightSpace.induct)
  case (1 s)
  show ?case
  proof (cases "trailing_space s = 0")
    case True
    then show ?thesis by (simp add: TrimRightSpace_id)
  next
    case False
    with 1 show ?thesis
      by (subst TrimRightSpace.simps) (simp, meson prefix_order.trans take_is_prefix)
  qed
qed

lemma suffix_TrimLeftSpace: "suffix (TrimLeftSpace s) s"
proof (induction s rule: TrimLeftSpace.induct)
  case (1 s)
  show ?case
  proof (cases "leading_space s = 0")
    case True
    then show ?thesis by (simp add: TrimLeftSpace_id)
  next
    case False
    with 1 show ?thesis
      by (subst TrimLeftSpace.simps) (simp, meson suffix_order.trans suffix_drop)
  qed
qed

lemma leading_space_prefix: "leading_space s = 0 \<Longrightarrow> prefix t s \<Longrightarrow> leading_space t = 0"
  unfolding leading_space_0_iff by (meson prefix_order.trans)

lemma leading_TrimSpace: "leading_space (TrimSpace s) = 0"
  unfolding TrimSpace_def
  by (rule leading_space_prefix [OF leading_TrimLeftSpace prefix_TrimRightSpace])

lemma trailing_TrimSpace: "trailing_space (TrimSpace s) = 0"
  unfolding TrimSpace_def by (rule trailing_TrimRightSpace)

lemma TrimSpace_id: "leading_space s = 0 \<Longrightarrow> trailing_space s = 0 \<Longrightarrow> TrimSpace s = s"
  by (simp add: TrimSpace_def TrimLeftSpace_id TrimRightSpace_id)

lemma TrimSpace_idem [simp]: "TrimSpace (TrimSpace s) = TrimSpace s"
  by (simp add: TrimSpace_id leading_TrimSpace trailing_TrimSpace)

lemma TrimSpace_Nil [simp]: "TrimSpace [] = []"
  by (simp add: TrimSpace_id)

lemma set_TrimSpace: "set (TrimSpace s) \<subseteq> set s"
  unfolding TrimSpace_def
  by (meson order_trans prefix_TrimRightSpace set_mono_prefix set_mono_suffix suffix_TrimLeftSpace)

lemma length_TrimSpace_le: "length (TrimSpace s) \<le> length s"
  unfolding TrimSpace_def
  by (meson order_trans prefix_TrimRightSpace prefix_length_le suffix_TrimLeftSpace suffix_length_le)

lemma ascii_TrimSpace: "ascii s \<Longrightarrow> ascii (TrimSpace s)"
  using set_TrimSpace by (auto simp: ascii_iff)

text \<open>A string of ASCII bytes without white space is its own trimmed form.\<close>

definition solid :: "string \<Rightarrow> bool" where
  "solid s = list_all (\<lambda>c. is_ascii c \<and> byte c \<notin> ascii_spaces) s"

lemma solid_TrimSpace:
  assumes "solid s"
  shows "TrimSpace s = s"
proof (cases "s = []")
  case False
  then have "s = hd s # tl s" and "s = butlast s @ [last s]" by simp_all
  moreover have "is_ascii c \<and> byte c \<notin> ascii_spaces" if "c \<in> set s" for c
    using assms that by (auto simp: solid_def list_all_iff simp del: insert_iff)
  ultimately have "leading_space s = 0" and "trailing_space s = 0"
    using False leading_space_ascii_0 [of "hd s" "tl s"] trailing_space_ascii_0 [of "last s" "butlast s"]
    by (metis hd_in_set last_in_set)+
  then show ?thesis by (rule TrimSpace_id)
qed simp

lemma solid_ascii: "solid s \<Longrightarrow> ascii s"
  by (auto simp: solid_def ascii_iff list_all_iff)

lemma solid_append [simp]: "solid (s @ t) \<longleftrightarrow> solid s \<and> solid t"
  by (simp add: solid_def)

subsection \<open>Numbers\<close>

fun nat_str :: "nat \<Rightarrow> string" where
  "nat_str n = (if n < 10 then [chr (48 + n)] else nat_str (n div 10) @ [chr (48 + n mod 10)])"

declare nat_str.simps [simp del]

definition Itoa :: "int \<Rightarrow> string" where
  "Itoa i = (if i < 0 then CHR ''-'' # nat_str (nat (- i)) else nat_str (nat i))"

definition digits_val :: "string \<Rightarrow> nat" where
  "digits_val s = foldl (\<lambda>a c. a * 10 + (byte c - 48)) 0 s"

text \<open>\<open>strconv.Atoi\<close>: an optional sign, decimal digits, a value that fits 64 bits.\<close>

definition Atoi :: "string \<Rightarrow> int option" where
  "Atoi s =
     (let (neg, ds) =
        (case s of [] \<Rightarrow> (False, [])
         | c # r \<Rightarrow> if c = CHR ''-'' then (True, r) else if c = CHR ''+'' then (False, r)
                    else (False, s))
      in if ds = [] \<or> \<not> list_all is_digit ds then None
         else let v = (if neg then - int (digits_val ds) else int (digits_val ds))
              in if - (2 ^ 63) \<le> v \<and> v < 2 ^ 63 then Some v else None)"

lemma digits_val_snoc: "digits_val (s @ [c]) = digits_val s * 10 + (byte c - 48)"
  by (simp add: digits_val_def)

lemma nat_str_digits: "list_all is_digit (nat_str n) \<and> nat_str n \<noteq> []"
proof (induction n rule: nat_str.induct)
  case (1 n)
  have "is_digit (chr (48 + k))" if "k < 10" for k
    using that by (simp add: is_digit_def)
  with 1 show ?case by (subst (1 2) nat_str.simps) auto
qed

lemma digits_val_nat_str: "digits_val (nat_str n) = n"
proof (induction n rule: nat_str.induct)
  case (1 n)
  then show ?case
    by (subst nat_str.simps) (auto simp: digits_val_snoc, simp add: digits_val_def)
qed

lemma Atoi_Itoa: "- (2 ^ 63) \<le> i \<Longrightarrow> i < 2 ^ 63 \<Longrightarrow> Atoi (Itoa i) = Some i"
proof -
  assume b: "- (2 ^ 63) \<le> i" "i < 2 ^ 63"
  have ne: "nat_str n \<noteq> []" and dg: "list_all is_digit (nat_str n)" for n
    using nat_str_digits by auto
  show ?thesis
  proof (cases "i < 0")
    case True
    with b show ?thesis by (simp add: Atoi_def Itoa_def digits_val_nat_str ne dg)
  next
    case False
    obtain c r where cr: "nat_str (nat i) = c # r" using ne by (cases "nat_str (nat i)") auto
    then have "is_digit c" using dg [of "nat i"] by simp
    then have "c \<noteq> CHR ''-''" "c \<noteq> CHR ''+''" by (auto simp: is_digit_def byte_def)
    with False b cr dg [of "nat i"] digits_val_nat_str [of "nat i"] show ?thesis
      by (simp add: Atoi_def Itoa_def)
  qed
qed

definition hex_digit :: "nat \<Rightarrow> char" where
  "hex_digit n = (if n < 10 then chr (48 + n) else chr (87 + n))"

text \<open>\<open>hex.EncodeToString\<close> and \<open>fmt\<close>'s \<open>%x\<close>.\<close>

definition hex_encode :: "bytes \<Rightarrow> string" where
  "hex_encode s = concat (map (\<lambda>c. [hex_digit (byte c div 16), hex_digit (byte c mod 16)]) s)"

lemma length_hex_encode [simp]: "length (hex_encode s) = 2 * length s"
  by (induction s) (auto simp: hex_encode_def)

subsection \<open>UTF-8\<close>

definition is_cont :: "char \<Rightarrow> bool" where
  "is_cont c = (128 \<le> byte c \<and> byte c < 192)"

definition RuneStart :: "char \<Rightarrow> bool" where
  "RuneStart c = (\<not> is_cont c)"

text \<open>Well-formed UTF-8, the encoding PostgreSQL requires of a text value.\<close>

fun valid_utf8 :: "string \<Rightarrow> bool" where
  "valid_utf8 [] = True"
| "valid_utf8 (a # s) =
     (if byte a < 128 then valid_utf8 s
      else if 194 \<le> byte a \<and> byte a < 224 then
        (case s of b # s' \<Rightarrow> is_cont b \<and> valid_utf8 s' | _ \<Rightarrow> False)
      else if 224 \<le> byte a \<and> byte a < 240 then
        (case s of b # c # s' \<Rightarrow>
           is_cont b \<and> is_cont c \<and> (byte a = 224 \<longrightarrow> 160 \<le> byte b) \<and>
           (byte a = 237 \<longrightarrow> byte b < 160) \<and> valid_utf8 s' | _ \<Rightarrow> False)
      else if 240 \<le> byte a \<and> byte a < 245 then
        (case s of b # c # d # s' \<Rightarrow>
           is_cont b \<and> is_cont c \<and> is_cont d \<and> (byte a = 240 \<longrightarrow> 144 \<le> byte b) \<and>
           (byte a = 244 \<longrightarrow> byte b < 144) \<and> valid_utf8 s' | _ \<Rightarrow> False)
      else False)"

text \<open>PostgreSQL accepts a text parameter only when it is valid UTF-8 without a NUL byte.\<close>

definition pg_text_ok :: "string \<Rightarrow> bool" where
  "pg_text_ok s = (valid_utf8 s \<and> list_all (\<lambda>c. byte c \<noteq> 0) s)"

lemma ascii_valid_utf8: "ascii s \<Longrightarrow> valid_utf8 s"
  by (induction s) (auto simp: is_ascii_def)

end
