(* ===== verification/Platform.thy ===== *)
theory Platform
  imports Go_Strings
begin

section \<open>Code outside the repository\<close>

text \<open>
  The functions the program calls and whose source is not part of the repository, or whose
  internals do not matter to it: the Unicode case tables, the parser of bracketed IPv6
  literals, and the cryptographic primitives. They are fields of one record, which every
  definition that needs one of them takes as its argument \<open>P\<close>; what a property relies on
  is a hypothesis of that property.

  \<^item> \<open>uni_lower\<close>: \<open>strings.ToLower\<close> on a string with a byte above 127;
  \<^item> \<open>uni_upper\<close>: \<open>strings.ToUpper\<close> on such a string;
  \<^item> \<open>bracket_host\<close>: \<open>net/url\<close>'s \<open>parseHost\<close> on an authority that holds a \<open>[\<close>;
  \<^item> \<open>sha3_256\<close>, \<open>sha256\<close>: the digests, as byte strings;
  \<^item> \<open>hmac_sha1 key msg\<close>, \<open>hmac_sha256 key msg\<close>: the keyed digests;
  \<^item> \<open>argon2_key password salt time memory threads length\<close>: \<open>argon2.IDKey\<close>;
  \<^item> \<open>secs_ns v\<close>: the floating-point step of the \<open>Crawl-delay\<close> directive,
    \<open>strconv.ParseFloat(v, 64)\<close> with \<open>secs > 0\<close> and the conversion of
    \<open>secs * float64(time.Second)\<close> to a \<open>time.Duration\<close>; None is an error or a
    value that is not positive;
  \<^item> \<open>bcrypt_ok hash password\<close>: \<open>bcrypt.CompareHashAndPassword\<close> returned nil;
  \<^item> \<open>uni_fold s t\<close>: \<open>strings.EqualFold\<close> when \<open>t\<close> has a byte above 127.
\<close>

record platform =
  uni_lower :: "string \<Rightarrow> string"
  uni_upper :: "string \<Rightarrow> string"
  bracket_host :: "string \<Rightarrow> string option"
  sha3_256 :: "bytes \<Rightarrow> bytes"
  sha256 :: "bytes \<Rightarrow> bytes"
  hmac_sha1 :: "bytes \<Rightarrow> bytes \<Rightarrow> bytes"
  hmac_sha256 :: "bytes \<Rightarrow> bytes \<Rightarrow> bytes"
  argon2_key :: "bytes \<Rightarrow> bytes \<Rightarrow> nat \<Rightarrow> nat \<Rightarrow> nat \<Rightarrow> nat \<Rightarrow> bytes"
  secs_ns :: "string \<Rightarrow> duration option"
  bcrypt_ok :: "string \<Rightarrow> bytes \<Rightarrow> bool"
  uni_fold :: "string \<Rightarrow> string \<Rightarrow> bool"

abbreviation lower :: "platform \<Rightarrow> string \<Rightarrow> string" where
  "lower P \<equiv> ToLower (uni_lower P)"

abbreviation upper :: "platform \<Rightarrow> string \<Rightarrow> string" where
  "upper P \<equiv> ToUpper (uni_upper P)"

definition fold_eq :: "platform \<Rightarrow> string \<Rightarrow> string \<Rightarrow> bool" where
  "fold_eq P s t = (if ascii t then EqualFold s t else uni_fold P s t)"

text \<open>
  A concrete platform on which the witnesses evaluate. Its digests are not cryptographic; the
  SHA-3 field returns the checksum of the example onion address of Tor's specification.
\<close>

definition demo_platform :: platform where
  "demo_platform =
     \<lparr>uni_lower = (\<lambda>s. s), uni_upper = (\<lambda>s. s), bracket_host = (\<lambda>_. None),
      sha3_256 = (\<lambda>_. map chr [33, 71] @ replicate 30 (chr 0)),
      sha256 = (\<lambda>s. s),
      hmac_sha1 = (\<lambda>k m. replicate 20 (chr 0)),
      hmac_sha256 = (\<lambda>k m. k @ m),
      argon2_key = (\<lambda>pw salt t m p len. take len (pw @ salt @ replicate len (chr 0))),
      secs_ns = (\<lambda>v. case Atoi v of Some n \<Rightarrow> if n > 0 then Some (n * Second) else None | None \<Rightarrow> None),
      bcrypt_ok = (\<lambda>h p. h = p), uni_fold = (\<lambda>s t. s = t)\<rparr>"

lemmas demo_platform_simps =
  demo_platform_def platform.simps

end
