(* ===== verification/Go_Url.thy ===== *)
theory Go_Url
  imports Platform
begin

section \<open>net/url and net, as the program uses them\<close>

text \<open>
  \<open>url.Parse\<close>, \<open>URL.String\<close>, \<open>URL.Hostname\<close> and \<open>net.SplitHostPort\<close> of the Go
  standard library: the whole of \<open>parse\<close>, \<open>parseAuthority\<close>, \<open>parseHost\<close>, \<open>setPath\<close>,
  \<open>escape\<close>, \<open>unescape\<close> and \<open>EscapedPath\<close>, except that a host with a \<open>[\<close> (an IPv6
  literal) is parsed by the argument \<open>bracket_host\<close>.
\<close>

datatype encoding = EncPath | EncHost | EncUserPassword | EncFragment

record url =
  u_scheme :: string
  u_opaque :: string
  u_user :: "(string \<times> string option) option"
  u_host :: string
  u_path :: string
  u_rawpath :: string
  u_omit_host :: bool
  u_force_query :: bool
  u_query :: string
  u_fragment :: string

definition empty_url :: url where
  "empty_url = \<lparr>u_scheme = [], u_opaque = [], u_user = None, u_host = [], u_path = [],
     u_rawpath = [], u_omit_host = False, u_force_query = False, u_query = [], u_fragment = []\<rparr>"

subsection \<open>Percent encoding\<close>

definition ishex :: "char \<Rightarrow> bool" where
  "ishex c = (is_digit c \<or> (97 \<le> byte c \<and> byte c \<le> 102) \<or> (65 \<le> byte c \<and> byte c \<le> 70))"

definition unhex :: "char \<Rightarrow> nat" where
  "unhex c = (if is_digit c then byte c - 48
     else if 97 \<le> byte c \<and> byte c \<le> 102 then byte c - 87
     else if 65 \<le> byte c \<and> byte c \<le> 70 then byte c - 55 else 0)"

definition upper_hex :: "nat \<Rightarrow> char" where
  "upper_hex n = (if n < 10 then chr (48 + n) else chr (55 + n))"

fun shouldEscape :: "encoding \<Rightarrow> char \<Rightarrow> bool" where
  "shouldEscape m c =
     (if is_alnum c then False
      else if m = EncHost \<and> c \<in> set ''!$&'' then False
      else if m = EncHost \<and> byte c = 39 then False
      else if m = EncHost \<and> c \<in> set ''()*+,;=:[]<>'' then False
      else if m = EncHost \<and> byte c = 34 then False
      else if c \<in> set ''-_.~'' then False
      else if c \<in> set ''$&+,/:;=?@'' then
        (case m of EncPath \<Rightarrow> c = CHR ''?''
         | EncUserPassword \<Rightarrow> c \<in> set ''@/?:''
         | EncFragment \<Rightarrow> False
         | EncHost \<Rightarrow> True)
      else if m = EncFragment \<and> c \<in> set ''!()*'' then False
      else True)"

declare shouldEscape.simps [simp del]

definition escape :: "encoding \<Rightarrow> string \<Rightarrow> string" where
  "escape m s =
     concat (map (\<lambda>c. if shouldEscape m c
       then [CHR ''%'', upper_hex (byte c div 16), upper_hex (byte c mod 16)] else [c]) s)"

fun unescape :: "encoding \<Rightarrow> string \<Rightarrow> string option" where
  "unescape m [] = Some []"
| "unescape m (c # s) =
     (if c = CHR ''%'' then
        (case s of a # b # r \<Rightarrow>
           if ishex a \<and> ishex b \<and>
              \<not> (m = EncHost \<and> unhex a < 8 \<and> \<not> (a = CHR ''2'' \<and> b = CHR ''5''))
           then map_option (Cons (chr (16 * unhex a + unhex b))) (unescape m r)
           else None
         | _ \<Rightarrow> None)
      else if m = EncHost \<and> is_ascii c \<and> shouldEscape m c then None
      else map_option (Cons c) (unescape m s))"

definition validEncoded :: "encoding \<Rightarrow> string \<Rightarrow> bool" where
  "validEncoded m s =
     list_all (\<lambda>c. c \<in> set ''!$&()*+,;=:@[]%'' \<or> byte c = 39 \<or> \<not> shouldEscape m c) s"

subsection \<open>Parse\<close>

definition scheme_char :: "char \<Rightarrow> bool" where
  "scheme_char c = (is_alnum c \<or> c \<in> set ''+-.'')"

text \<open>\<open>getScheme\<close>: None is the error "missing protocol scheme".\<close>

definition getScheme :: "string \<Rightarrow> (string \<times> string) option" where
  "getScheme raw =
     (let sc = takeWhile scheme_char raw; rest = dropWhile scheme_char raw in
      case rest of
        c # path \<Rightarrow>
          if c = CHR '':'' then
            (if sc = [] then None
             else if is_alpha (hd sc) then Some (sc, path) else Some ([], raw))
          else Some ([], raw)
      | [] \<Rightarrow> Some ([], raw))"

definition validOptionalPort :: "string \<Rightarrow> bool" where
  "validOptionalPort p =
     (case p of [] \<Rightarrow> True | c # ds \<Rightarrow> c = CHR '':'' \<and> list_all is_digit ds)"

definition parseHost :: "platform \<Rightarrow> string \<Rightarrow> string option" where
  "parseHost P host =
     (if CHR ''['' \<in> set host then bracket_host P host
      else case CutLast (CHR '':'') host of
        Some (_, port) \<Rightarrow>
          if validOptionalPort (CHR '':'' # port) then unescape EncHost host else None
      | None \<Rightarrow> unescape EncHost host)"

definition validUserinfo :: "string \<Rightarrow> bool" where
  "validUserinfo s =
     list_all (\<lambda>c. is_alnum c \<or> c \<in> set ''-._:~!$&()*+,;=%@'' \<or> byte c = 39) s"

definition parseAuthority ::
    "platform \<Rightarrow> string \<Rightarrow> ((string \<times> string option) option \<times> string) option" where
  "parseAuthority P a =
     (case CutLast (CHR ''@'') a of
        None \<Rightarrow> map_option (Pair None) (parseHost P a)
      | Some (userinfo, h) \<Rightarrow>
         (case parseHost P h of None \<Rightarrow> None
          | Some host \<Rightarrow>
             if \<not> validUserinfo userinfo then None
             else let (name, pw, has_pw) = Cut (CHR '':'') userinfo in
               (case unescape EncUserPassword name of None \<Rightarrow> None
                | Some name' \<Rightarrow>
                   if \<not> has_pw then Some (Some (name', None), host)
                   else map_option (\<lambda>pw'. (Some (name', Some pw'), host))
                          (unescape EncUserPassword pw))))"

definition setPath :: "string \<Rightarrow> url \<Rightarrow> url option" where
  "setPath p u =
     (case unescape EncPath p of None \<Rightarrow> None
      | Some path \<Rightarrow>
         Some (u\<lparr>u_path := path, u_rawpath := (if escape EncPath path = p then [] else p)\<rparr>))"

definition has_ctl :: "string \<Rightarrow> bool" where
  "has_ctl s = list_ex (\<lambda>c. byte c < 32 \<or> byte c = 127) s"

text \<open>The query part: a lone trailing \<open>?\<close> sets \<open>ForceQuery\<close>.\<close>

definition split_query :: "string \<Rightarrow> string \<times> string \<times> bool" where
  "split_query rest =
     (if suffix ''?'' rest \<and> CHR ''?'' \<notin> set (butlast rest) then (butlast rest, [], True)
      else let (a, b, _) = Cut (CHR ''?'') rest in (a, b, False))"

definition parse_nofrag :: "platform \<Rightarrow> string \<Rightarrow> url option" where
  "parse_nofrag P raw =
     (if has_ctl raw then None
      else if raw = ''*'' then Some (empty_url\<lparr>u_path := ''*''\<rparr>)
      else case getScheme raw of None \<Rightarrow> None
      | Some (sc, rest0) \<Rightarrow>
        let scheme = map lower_char sc;
            (rest, query, force) = split_query rest0;
            u = empty_url\<lparr>u_scheme := scheme, u_query := query, u_force_query := force\<rparr>
        in if \<not> prefix ''/'' rest \<and> scheme \<noteq> [] then Some (u\<lparr>u_opaque := rest\<rparr>)
           else if \<not> prefix ''/'' rest \<and> CHR '':'' \<in> set (takeWhile (\<lambda>c. c \<noteq> CHR ''/'') rest)
             then None
           else if (scheme \<noteq> [] \<or> \<not> prefix ''///'' rest) \<and> prefix ''//'' rest then
             (let a = takeWhile (\<lambda>c. c \<noteq> CHR ''/'') (drop 2 rest);
                  path = dropWhile (\<lambda>c. c \<noteq> CHR ''/'') (drop 2 rest)
              in case parseAuthority P a of None \<Rightarrow> None
                 | Some (user, host) \<Rightarrow> setPath path (u\<lparr>u_user := user, u_host := host\<rparr>))
           else setPath rest (u\<lparr>u_omit_host := (scheme \<noteq> [] \<and> prefix ''/'' rest)\<rparr>))"

definition url_Parse :: "platform \<Rightarrow> string \<Rightarrow> url option" where
  "url_Parse P raw =
     (let (r, frag, _) = Cut (CHR ''#'') raw in
      case parse_nofrag P r of None \<Rightarrow> None
      | Some u \<Rightarrow>
         if frag = [] then Some u
         else map_option (\<lambda>f. u\<lparr>u_fragment := f\<rparr>) (unescape EncFragment frag))"

subsection \<open>String, Hostname, SplitHostPort\<close>

definition EscapedPath :: "url \<Rightarrow> string" where
  "EscapedPath u =
     (if u_rawpath u \<noteq> [] \<and> validEncoded EncPath (u_rawpath u) \<and>
         unescape EncPath (u_rawpath u) = Some (u_path u)
      then u_rawpath u
      else if u_path u = ''*'' then ''*''
      else escape EncPath (u_path u))"

definition user_String :: "string \<times> string option \<Rightarrow> string" where
  "user_String ui =
     (escape EncUserPassword (fst ui) @
      (case snd ui of None \<Rightarrow> [] | Some pw \<Rightarrow> CHR '':'' # escape EncUserPassword pw))"

definition url_authority :: "url \<Rightarrow> string" where
  "url_authority u =
     (if u_scheme u \<noteq> [] \<or> u_host u \<noteq> [] \<or> u_user u \<noteq> None then
        (if u_omit_host u \<and> u_host u = [] \<and> u_user u = None then []
         else (if u_host u \<noteq> [] \<or> u_path u \<noteq> [] \<or> u_user u \<noteq> None then ''//'' else []) @
              (case u_user u of None \<Rightarrow> [] | Some ui \<Rightarrow> user_String ui @ ''@'') @
              escape EncHost (u_host u))
      else [])"

definition url_String :: "url \<Rightarrow> string" where
  "url_String u =
     (let sc = (if u_scheme u \<noteq> [] then u_scheme u @ '':'' else []);
          body =
            (if u_opaque u \<noteq> [] then u_opaque u
             else let au = url_authority u; path = EscapedPath u in
               au @
               (if path \<noteq> [] \<and> hd path \<noteq> CHR ''/'' \<and> u_host u \<noteq> [] then ''/'' else []) @
               (if sc = [] \<and> au = [] \<and>
                   CHR '':'' \<in> set (takeWhile (\<lambda>c. c \<noteq> CHR ''/'') path) then ''./'' else []) @
               path)
      in sc @ body @
         (if u_force_query u \<or> u_query u \<noteq> [] then CHR ''?'' # u_query u else []) @
         (if u_fragment u \<noteq> [] then CHR ''#'' # escape EncFragment (u_fragment u) else []))"

definition url_Hostname :: "url \<Rightarrow> string" where
  "url_Hostname u =
     (let host = (case CutLast (CHR '':'') (u_host u) of
                    Some (h, p) \<Rightarrow> if validOptionalPort (CHR '':'' # p) then h else u_host u
                  | None \<Rightarrow> u_host u)
      in if prefix ''['' host \<and> suffix '']'' host then butlast (tl host) else host)"

text \<open>\<open>net.SplitHostPort\<close>; None is an error.\<close>

definition SplitHostPort :: "string \<Rightarrow> (string \<times> string) option" where
  "SplitHostPort hp =
     (case CutLast (CHR '':'') hp of None \<Rightarrow> None
      | Some (pre, port) \<Rightarrow>
         if prefix ''['' hp then
           (if CHR '']'' \<notin> set hp then None
            else let inner = takeWhile (\<lambda>c. c \<noteq> CHR '']'') (tl hp) in
              if pre = CHR ''['' # inner @ '']'' \<and> CHR ''['' \<notin> set (tl hp) \<and>
                 CHR '']'' \<notin> set port
              then Some (inner, port) else None)
         else if CHR '':'' \<in> set pre \<or> CHR ''['' \<in> set hp \<or> CHR '']'' \<in> set hp then None
         else Some (pre, port))"

subsection \<open>Percent encoding: round trips\<close>

lemma unhex_upper_hex: "n < 16 \<Longrightarrow> unhex (upper_hex n) = n"
  by (auto simp: unhex_def upper_hex_def is_digit_def)

lemma ishex_upper_hex: "n < 16 \<Longrightarrow> ishex (upper_hex n)"
  by (auto simp: ishex_def upper_hex_def is_digit_def)

lemma byte_div_mod: "16 * (byte c div 16) + byte c mod 16 = byte c" "byte c div 16 < 16"
  using less_mult_imp_div_less [of "byte c" 16 16] by simp_all

lemma escape_Nil [simp]: "escape m [] = []"
  by (simp add: escape_def)

lemma escape_Cons:
  "escape m (c # s) =
     (if shouldEscape m c
      then CHR ''%'' # upper_hex (byte c div 16) # upper_hex (byte c mod 16) # escape m s
      else c # escape m s)"
  by (simp add: escape_def)

lemma shouldEscape_percent [simp]: "shouldEscape m CHR ''%''"
  by (cases m) (simp_all add: shouldEscape.simps is_alnum_def is_alpha_def is_lower_def is_upper_def
      is_digit_def byte_def)

lemma unescape_escape:
  assumes "m \<noteq> EncHost"
  shows "unescape m (escape m s) = Some s"
proof (induction s)
  case (Cons c s)
  show ?case
  proof (cases "shouldEscape m c")
    case True
    then show ?thesis
      using Cons byte_div_mod [of c] assms
      by (simp add: escape_Cons unhex_upper_hex ishex_upper_hex)
  next
    case False
    then have "c \<noteq> CHR ''%''" by (metis shouldEscape_percent)
    with False Cons assms show ?thesis by (simp add: escape_Cons)
  qed
qed simp

text \<open>In a host only non-ASCII bytes and the percent sign may be escaped.\<close>

lemma unescape_escape_host: "unescape EncHost (escape EncHost s) = Some r \<Longrightarrow> r = s"
proof (induction s arbitrary: r)
  case (Cons c s)
  show ?case
  proof (cases "shouldEscape EncHost c")
    case True
    with Cons.prems obtain r' where "unescape EncHost (escape EncHost s) = Some r'" "r = c # r'"
      using byte_div_mod [of c]
      by (auto simp: escape_Cons unhex_upper_hex ishex_upper_hex split: if_splits)
    with Cons.IH show ?thesis by simp
  next
    case False
    then have "c \<noteq> CHR ''%''" by (metis shouldEscape_percent)
    with False Cons show ?thesis by (auto simp: escape_Cons split: if_splits)
  qed
qed simp

lemma unhex_less: "unhex c < 16"
  by (auto simp: unhex_def is_digit_def)

lemma chr_percent: "chr (16 * unhex (CHR ''2'') + unhex (CHR ''5'')) = CHR ''%''"
  by code_simp

lemma unescape_host_Cons:
  assumes "unescape EncHost (d # s) = Some r"
  shows "\<exists>x t r'. r = x # r' \<and> unescape EncHost t = Some r' \<and> length t \<le> length s \<and>
     set t \<subseteq> set s \<and> (is_ascii x \<longrightarrow> x = CHR ''%'' \<or> x = d) \<and>
     (is_ascii x \<longrightarrow> x = CHR ''%'' \<or> \<not> shouldEscape EncHost x)"
proof (cases "d = CHR ''%''")
  case False
  with assms show ?thesis by (auto split: if_splits)
next
  case True
  with assms obtain a b t r' where s: "s = a # b # t" 
    and esc: "unhex a < 8 \<longrightarrow> a = CHR ''2'' \<and> b = CHR ''5''"
    and r': "unescape EncHost t = Some r'" and r: "r = chr (16 * unhex a + unhex b) # r'"
    by (auto split: list.splits if_splits)
  have n: "16 * unhex a + unhex b < 256" using unhex_less [of a] unhex_less [of b] by simp
  have "chr (16 * unhex a + unhex b) = CHR ''%''" if "is_ascii (chr (16 * unhex a + unhex b))"
  proof -
    have "unhex a < 8" using that n by (simp add: is_ascii_def)
    with esc show ?thesis using chr_percent by auto
  qed
  with s r r' show ?thesis by auto
qed

lemma unescape_host_chars:
  assumes "unescape EncHost s = Some r" and "c \<in> set r" and "is_ascii c"
  shows "c = CHR ''%'' \<or> \<not> shouldEscape EncHost c"
  using assms
proof (induction s arbitrary: r rule: length_induct)
  case (1 s0)
  show ?case
  proof (cases s0)
    case Nil
    with 1 show ?thesis by simp
  next
    case (Cons d s)
    with 1(2) obtain x t r' where "r = x # r'" "unescape EncHost t = Some r'" "length t \<le> length s"
      "is_ascii x \<longrightarrow> x = CHR ''%'' \<or> \<not> shouldEscape EncHost x"
      using unescape_host_Cons by blast
    with 1(1,3,4) Cons show ?thesis by (auto dest: spec [of _ t])
  qed
qed

lemma low_bytes_escaped: "list_all (\<lambda>n. shouldEscape EncHost (chr n)) [0..<33]"
  by code_simp

lemma host_char_byte: "\<not> shouldEscape EncHost c \<Longrightarrow> 32 < byte c"
proof (rule ccontr)
  assume e: "\<not> shouldEscape EncHost c" "\<not> 32 < byte c"
  then have "byte c \<in> set [0..<33]" by auto
  with low_bytes_escaped have "shouldEscape EncHost (chr (byte c))" unfolding list_all_iff by blast
  with e show False by simp
qed

lemma unescape_host_solid:
  assumes "unescape EncHost s = Some r" and "ascii r"
  shows "solid r"
proof -
  have "is_ascii c \<and> byte c \<notin> ascii_spaces" if c: "c \<in> set r" for c
  proof -
    have a: "is_ascii c" using assms(2) c by (auto simp: ascii_iff)
    have "32 < byte c"
      using unescape_host_chars [OF assms(1) c a] host_char_byte [of c] by (auto simp: byte_def)
    with a show ?thesis by auto
  qed
  then show ?thesis by (simp add: solid_def list_all_iff)
qed

text \<open>Characters that must be escaped never appear in an escaped string.\<close>

lemma escape_notin:
  assumes "shouldEscape m c" and "c \<noteq> CHR ''%''" and "\<not> ishex c"
  shows "c \<notin> set (escape m s)"
proof (induction s)
  case (Cons d s)
  have "upper_hex (byte d div 16) \<noteq> c" "upper_hex (byte d mod 16) \<noteq> c"
    using assms(3) ishex_upper_hex byte_div_mod(2) [of d]
    by (metis, metis mod_less_divisor zero_less_numeral)
  with Cons assms show ?case by (auto simp: escape_Cons)
qed simp

lemma validEncoded_notin:
  "validEncoded m s \<Longrightarrow> shouldEscape m c \<Longrightarrow> c \<notin> set ''!$&()*+,;=:@[]%'' \<Longrightarrow> byte c \<noteq> 39 \<Longrightarrow>
    c \<notin> set s"
  unfolding validEncoded_def list_all_iff by blast

lemma unescape_slash: "unescape EncPath (CHR ''/'' # s) = map_option (Cons CHR ''/'') (unescape EncPath s)"
  by simp

lemma shouldEscape_facts:
  "shouldEscape EncPath CHR ''#''" "shouldEscape EncHost CHR ''#''"
  "shouldEscape EncPath CHR ''?''" "shouldEscape EncHost CHR ''?''"
  "shouldEscape EncHost CHR ''/''" "shouldEscape EncHost CHR ''@''"
  "\<not> shouldEscape EncPath CHR ''/''"
  "\<not> ishex CHR ''#''" "\<not> ishex CHR ''?''" "\<not> ishex CHR ''/''" "\<not> ishex CHR ''@''"
  by (simp_all add: shouldEscape.simps is_alnum_def is_alpha_def is_lower_def is_upper_def
      is_digit_def ishex_def byte_def)

lemma unescape_host_origin:
  assumes "unescape EncHost s = Some r" and "c \<in> set r" and "is_ascii c" and "c \<noteq> CHR ''%''"
  shows "c \<in> set s"
  using assms
proof (induction s arbitrary: r rule: length_induct)
  case (1 s0)
  show ?case
  proof (cases s0)
    case Nil
    with 1 show ?thesis by simp
  next
    case (Cons d s)
    with 1(2) obtain x t r' where x: "r = x # r'" "unescape EncHost t = Some r'" "length t \<le> length s"
      "set t \<subseteq> set s" "is_ascii x \<longrightarrow> x = CHR ''%'' \<or> x = d"
      using unescape_host_Cons by blast
    from 1(1) Cons x(2,3) have "c \<in> set r' \<Longrightarrow> c \<in> set t"
      using 1(4,5) by (auto dest: spec [of _ t])
    with 1(3,4,5) Cons x show ?thesis by auto
  qed
qed

lemma unescape_append_plain:
  assumes "unescape m (s @ d # t) = Some r" and "d \<noteq> CHR ''%''" and "\<not> ishex d"
  shows "\<exists>s' t'. unescape m s = Some s' \<and> unescape m t = Some t' \<and> r = s' @ d # t'"
  using assms(1)
proof (induction s arbitrary: r rule: length_induct)
  case (1 s)
  show ?case
  proof (cases s)
    case Nil
    with 1(2) assms(2) show ?thesis by (auto split: if_splits)
  next
    case (Cons c s2)
    show ?thesis
    proof (cases "c = CHR ''%''")
      case False
      with 1(2) Cons obtain r' where r': "unescape m (s2 @ d # t) = Some r'" "r = c # r'"
        by (auto split: if_splits)
      have "length s2 < length s" using Cons by simp
      then obtain s' t' where "unescape m s2 = Some s'" "unescape m t = Some t'"
        "r' = s' @ d # t'" using 1(1) r'(1) by blast
      with r' 1(2) Cons False show ?thesis by (auto split: if_splits)
    next
      case True
      have none: "unescape m (CHR ''%'' # d # t) = None"
        "\<And>a. unescape m (CHR ''%'' # a # d # t) = None"
        using assms(3) by (simp_all split: list.split)
      have "s2 \<noteq> []" using none(1) 1(2) Cons True by (metis append_Cons append_Nil option.distinct(1))
      moreover have "s2 \<noteq> [a]" for a
      proof
        assume "s2 = [a]"
        with 1(2) Cons True have "unescape m (CHR ''%'' # a # d # t) = Some r" by simp
        with none(2) show False by simp
      qed
      ultimately obtain a b s3 where s3: "s2 = a # b # s3" by (metis list.exhaust)
      with 1(2) Cons True obtain r' where r': "unescape m (s3 @ d # t) = Some r'"
        "r = chr (16 * unhex a + unhex b) # r'" by (auto split: if_splits)
      have "length s3 < length s" using Cons s3 by simp
      then obtain s' t' where "unescape m s3 = Some s'" "unescape m t = Some t'"
        "r' = s' @ d # t'" using 1(1) r'(1) by blast
      with r' s3 1(2) Cons True show ?thesis by (auto split: if_splits)
    qed
  qed
qed

lemma unescape_digits: "list_all is_digit s \<Longrightarrow> unescape m s = Some s"
  by (induction s) (auto simp: is_digit_def shouldEscape.simps is_alnum_def byte_def)

lemma list_digit_colon: "list_all is_digit s \<Longrightarrow> CHR '':'' \<notin> set s"
  by (auto simp: list_all_iff is_digit_def byte_def)

lemma parseHost_plain:
  assumes "parseHost P a = Some h" and "CHR ''['' \<notin> set a"
  shows "unescape EncHost a = Some h" and "CHR ''['' \<notin> set h"
    and "case CutLast (CHR '':'') h of None \<Rightarrow> True | Some (_, port) \<Rightarrow> list_all is_digit port"
proof -
  show u: "unescape EncHost a = Some h"
    using assms by (auto simp: parseHost_def split: option.splits if_splits)
  show "CHR ''['' \<notin> set h"
    using unescape_host_origin [OF u, of "CHR ''[''"] assms(2) by (auto simp: is_ascii_def byte_def)
  show "case CutLast (CHR '':'') h of None \<Rightarrow> True | Some (_, port) \<Rightarrow> list_all is_digit port"
  proof (cases "CutLast (CHR '':'') a")
    case None
    then have "CHR '':'' \<notin> set a" by (simp add: CutLast_None)
    then have "CHR '':'' \<notin> set h"
      using unescape_host_origin [OF u, of "CHR '':''"] by (auto simp: is_ascii_def byte_def)
    then show ?thesis by (simp add: CutLast_None [THEN iffD2])
  next
    case (Some ap)
    obtain pre port where ap: "ap = (pre, port)" by force
    then have a: "a = pre @ CHR '':'' # port" using Some CutLast_Some by force
    have d: "list_all is_digit port"
      using assms Some ap by (auto simp: parseHost_def validOptionalPort_def split: if_splits)
    obtain p' where "h = p' @ CHR '':'' # port"
      using unescape_append_plain [of EncHost pre "CHR '':''" port h] u a unescape_digits [OF d]
      by (auto simp: ishex_def is_digit_def byte_def)
    then show ?thesis using d list_digit_colon [OF d] by (simp add: CutLast_append)
  qed
qed

subsection \<open>Parse inverts String\<close>

lemma escape_origin: "c \<in> set (escape m s) \<Longrightarrow> c \<in> set s \<or> c = CHR ''%'' \<or> ishex c"
proof (induction s)
  case (Cons d s)
  have "ishex (upper_hex (byte d div 16))" "ishex (upper_hex (byte d mod 16))"
    using ishex_upper_hex byte_div_mod(2) by simp_all
  with Cons show ?case by (auto simp: escape_Cons split: if_splits)
qed simp

definition slashed :: "string \<Rightarrow> bool" where
  "slashed p = (p = [] \<or> hd p = CHR ''/'')"

lemma slashed_dropWhile: "slashed (dropWhile (\<lambda>c. c \<noteq> CHR ''/'') s)"
  unfolding slashed_def using hd_dropWhile by blast

lemma slashed_unescape: "unescape EncPath p = Some q \<Longrightarrow> slashed p \<Longrightarrow> slashed q"
  by (cases p) (auto simp: slashed_def)

lemma slashed_escape: "slashed p \<Longrightarrow> slashed (escape EncPath p)"
  by (cases p) (auto simp: slashed_def escape_Cons shouldEscape_facts)

lemma slashed_EscapedPath: "slashed (u_path u) \<Longrightarrow> slashed (u_rawpath u) \<Longrightarrow> slashed (EscapedPath u)"
  by (auto simp: EscapedPath_def slashed_escape)

text \<open>What \<open>Parse\<close> guarantees of a URL with a host.\<close>

definition scheme_ok :: "string \<Rightarrow> bool" where
  "scheme_ok sc = (sc = [] \<or> (list_all scheme_char sc \<and> is_alpha (hd sc) \<and> map lower_char sc = sc))"

definition web_url :: "url \<Rightarrow> bool" where
  "web_url u =
     (scheme_ok (u_scheme u) \<and> slashed (u_path u) \<and> slashed (u_rawpath u) \<and> CHR ''#'' \<notin> set (u_query u) \<and>
      (u_force_query u \<longrightarrow> u_query u = []) \<and> \<not> u_omit_host u)"

lemma setPath_fields:
  assumes "setPath p u = Some v"
  shows "unescape EncPath p = Some (u_path v)" "u_rawpath v = (if escape EncPath (u_path v) = p then [] else p)"
    "u_scheme v = u_scheme u" "u_opaque v = u_opaque u" "u_user v = u_user u" "u_host v = u_host u"
    "u_omit_host v = u_omit_host u" "u_force_query v = u_force_query u" "u_query v = u_query u"
    "u_fragment v = u_fragment u"
  using assms by (auto simp: setPath_def split: option.splits)

lemma set_tl_dropWhile: "set (tl (dropWhile Q s)) \<subseteq> set s"
proof (cases "dropWhile Q s")
  case (Cons y ys)
  then have "x \<in> set (dropWhile Q s)" if "x \<in> set ys" for x using that by simp
  with Cons show ?thesis by (metis list.sel(3) set_dropWhileD subsetI)
next
  case Nil
  then show ?thesis by (simp only: list.sel(2) list.set empty_subsetI)
qed

lemma Cut_fst: "Cut c s = (a, b, f) \<Longrightarrow> set a \<subseteq> set s \<and> set b \<subseteq> set s \<and> c \<notin> set a"
  using set_tl_dropWhile [of "\<lambda>x. x \<noteq> c" s]
  by (auto simp: Cut_def split: if_splits dest: set_takeWhileD)

lemma split_query_fields:
  assumes "split_query rest = (p, q, f)"
  shows "set q \<subseteq> set rest" "f \<longrightarrow> q = []" "CHR ''?'' \<notin> set p"
  using assms Cut_fst [of "CHR ''?''" rest]
  by (auto simp: split_query_def Let_def split: if_splits prod.splits)

lemma lower_char_scheme: "scheme_char c \<Longrightarrow> scheme_char (lower_char c)"
  "is_alpha c \<Longrightarrow> is_alpha (lower_char c)"
  by (auto simp: scheme_char_def is_alnum_def is_alpha_def lower_char_def is_upper_def is_lower_def)

lemma getScheme_ok: "getScheme raw = Some (sc, rest) \<Longrightarrow> scheme_ok (map lower_char sc)"
  by (auto simp: getScheme_def Let_def scheme_ok_def list_all_iff lower_char_scheme hd_map
      split: list.splits if_splits dest: set_takeWhileD)

lemma getScheme_rest: "getScheme raw = Some (sc, rest) \<Longrightarrow> set rest \<subseteq> set raw"
  by (auto simp: getScheme_def Let_def split: list.splits if_splits)
    (metis list.set_intros(2) set_dropWhileD)

lemma parse_nofrag_web:
  assumes "parse_nofrag P raw = Some u" and "CHR ''#'' \<notin> set raw" and "u_host u \<noteq> []"
  shows "web_url u \<and> u_fragment u = []"
proof -
  obtain sc rest0 where s: "getScheme raw = Some (sc, rest0)"
    using assms(1,3) by (auto simp: parse_nofrag_def empty_url_def split: if_splits option.splits)
  obtain rest q f where q: "split_query rest0 = (rest, q, f)" by (metis prod_cases3)
  let ?a = "takeWhile (\<lambda>c. c \<noteq> CHR ''/'') (drop 2 rest)"
  let ?p = "dropWhile (\<lambda>c. c \<noteq> CHR ''/'') (drop 2 rest)"
  obtain u0 where u: "setPath ?p u0 = Some u"
    and u0: "u_query u0 = q" "u_force_query u0 = f" "\<not> u_omit_host u0" "u_fragment u0 = []" "u_scheme u0 = map lower_char sc"
    using assms(1,3) s q
    by (auto simp: parse_nofrag_def empty_url_def Let_def setPath_fields split: if_splits option.splits)
  have "CHR ''#'' \<notin> set q"
    using getScheme_rest [OF s] split_query_fields(1) [OF q] assms(2) by auto
  moreover have "slashed (u_path u)"
    using setPath_fields(1) [OF u] slashed_dropWhile slashed_unescape by blast
  moreover have "slashed (u_rawpath u)"
    using setPath_fields(2) [OF u] slashed_dropWhile by (simp add: slashed_def)
  ultimately show ?thesis
    using u0 split_query_fields(2) [OF q] setPath_fields [OF u] getScheme_ok [OF s] by (auto simp: web_url_def)
qed

lemma url_Parse_web:
  assumes "url_Parse P raw = Some u" and "u_host u \<noteq> []"
  shows "web_url u"
proof -
  obtain r frag f where c: "Cut (CHR ''#'') raw = (r, frag, f)" by (metis prod_cases3)
  then have h: "CHR ''#'' \<notin> set r" using Cut_fst by force
  obtain u' where u': "parse_nofrag P r = Some u'" and uu: "u = u' \<or> (\<exists>g. u = u'\<lparr>u_fragment := g\<rparr>)"
    using assms(1) c by (auto simp: url_Parse_def split: option.splits if_splits)
  then have "u_host u' \<noteq> []" using assms(2) by auto
  with parse_nofrag_web [OF u' h] uu show ?thesis by (auto simp: web_url_def)
qed

definition query_part :: "url \<Rightarrow> string" where
  "query_part u = (if u_force_query u \<or> u_query u \<noteq> [] then CHR ''?'' # u_query u else [])"

definition scheme_part :: "url \<Rightarrow> string" where
  "scheme_part u = (if u_scheme u \<noteq> [] then u_scheme u @ '':'' else [])"

lemma url_String_web:
  assumes "web_url u" "u_host u \<noteq> []" "u_user u = None" "u_opaque u = []" "u_fragment u = []"
  shows "url_String u = scheme_part u @ ''//'' @ escape EncHost (u_host u) @ EscapedPath u @ query_part u"
  using assms slashed_EscapedPath [of u]
  by (auto simp: url_String_def url_authority_def web_url_def slashed_def query_part_def scheme_part_def Let_def)

lemma getScheme_print:
  assumes "scheme_ok (u_scheme u)"
  shows "getScheme (scheme_part u @ CHR ''/'' # s) = Some (u_scheme u, CHR ''/'' # s)"
proof (cases "u_scheme u")
  case Nil
  then show ?thesis
    by (simp add: scheme_part_def getScheme_def scheme_char_def is_alnum_def is_alpha_def is_lower_def
        is_upper_def is_digit_def byte_def)
next
  case (Cons c cs)
  have "\<not> scheme_char (CHR '':'')"
    by (simp add: scheme_char_def is_alnum_def is_alpha_def is_lower_def is_upper_def is_digit_def byte_def)
  moreover have "\<forall>x \<in> set (u_scheme u). scheme_char x"
    using assms Cons by (simp add: scheme_ok_def list_all_iff)
  ultimately have "takeWhile scheme_char (u_scheme u @ CHR '':'' # CHR ''/'' # s) = u_scheme u"
      "dropWhile scheme_char (u_scheme u @ CHR '':'' # CHR ''/'' # s) = CHR '':'' # CHR ''/'' # s"
    by (auto simp: takeWhile_append2 dropWhile_append2)
  with assms Cons show ?thesis by (simp add: scheme_part_def getScheme_def scheme_ok_def)
qed

lemma EscapedPath_notin:
  assumes "c = CHR ''#'' \<or> c = CHR ''?''"
  shows "c \<notin> set (EscapedPath u)"
proof -
  have c: "shouldEscape EncPath c" "c \<notin> set ''!$&()*+,;=:@[]%''" "byte c \<noteq> 39" "c \<noteq> CHR ''%''" "\<not> ishex c" "c \<noteq> CHR ''*''"
    using assms shouldEscape_facts by (auto simp: byte_def)
  then show ?thesis
    using escape_notin [of EncPath c] validEncoded_notin [of EncPath _ c]
    by (auto simp: EscapedPath_def)
qed

lemma split_query_print:
  assumes "CHR ''?'' \<notin> set p" and "u_force_query u \<longrightarrow> u_query u = []"
  shows "split_query (p @ query_part u) = (p, u_query u, u_force_query u)"
proof (cases "u_query u = []")
  case True
  show ?thesis
  proof (cases "u_force_query u")
    case False
    have "\<not> suffix ''?'' p" using assms(1) by (auto simp: suffix_def)
    with True False assms(1) show ?thesis
      by (simp add: query_part_def split_query_def Cut_notin)
  qed (use True assms(1) in \<open>simp add: query_part_def split_query_def butlast_append suffix_def\<close>)
next
  case False
  then have "CHR ''?'' \<in> set (butlast (p @ CHR ''?'' # u_query u))"
    by (simp add: butlast_append)
  with False assms show ?thesis
    by (simp add: query_part_def split_query_def Cut_append)
qed

lemma EscapedPath_reparse:
  assumes "unescape EncPath (EscapedPath u) = Some p" and "slashed (u_path u)"
    and "v = u\<lparr>u_path := p, u_rawpath := (if escape EncPath p = EscapedPath u then [] else EscapedPath u)\<rparr>"
  shows "p = u_path u \<and> EscapedPath v = EscapedPath u"
proof -
  have p: "p = u_path u"
    using assms(1) unescape_escape [of EncPath "u_path u"]
    by (auto simp: EscapedPath_def split: if_splits)
  then show ?thesis
    using assms by (auto simp: EscapedPath_def slashed_def)
qed

lemma url_String_hash:
  assumes u: "web_url u" "u_host u \<noteq> []" "u_user u = None" "u_opaque u = []" "u_fragment u = []"
  shows "CHR ''#'' \<notin> set (url_String u)"
proof -
  have "scheme_ok (u_scheme u)" using u(1) by (simp add: web_url_def)
  then have "CHR ''#'' \<notin> set (scheme_part u)"
    by (auto simp: scheme_part_def scheme_ok_def list_all_iff scheme_char_def is_alnum_def
        is_alpha_def is_lower_def is_upper_def is_digit_def byte_def)
  moreover have "CHR ''#'' \<notin> set (escape EncHost (u_host u))"
    by (rule escape_notin; simp add: shouldEscape_facts)
  moreover have "CHR ''#'' \<notin> set (EscapedPath u)" using EscapedPath_notin by blast
  ultimately show ?thesis
    unfolding url_String_web [OF u] using u(1) by (auto simp: query_part_def web_url_def)
qed

lemma reparse:
  assumes u: "web_url u" "u_host u \<noteq> []"
      "u_user u = None" "u_opaque u = []" "u_fragment u = []" "CHR ''['' \<notin> set (u_host u)"
    and v: "url_Parse P (url_String u) = Some v"
  shows "v = u\<lparr>u_path := u_path v, u_rawpath := u_rawpath v\<rparr>" "url_String v = url_String u"
    "parseHost P (escape EncHost (u_host u)) = Some (u_host u)"
proof -
  let ?eh = "escape EncHost (u_host u)" and ?p = "EscapedPath u"
  note str = url_String_web [OF u(1-5)]
  have so: "scheme_ok (u_scheme u)" using u(1) by (simp add: web_url_def)
  have eh: "CHR ''?'' \<notin> set ?eh" "CHR ''/'' \<notin> set ?eh" "CHR ''@'' \<notin> set ?eh"
    by (rule escape_notin; simp add: shouldEscape_facts)+
  have eb: "CHR ''['' \<notin> set ?eh"
    using u(6) escape_origin [of "CHR ''[''" EncHost "u_host u"] by (auto simp: ishex_def is_digit_def byte_def)
  have p: "CHR ''?'' \<notin> set ?p" "slashed ?p"
    using EscapedPath_notin slashed_EscapedPath u(1) by (auto simp: web_url_def)
  have pn: "parse_nofrag P (url_String u) = Some v"
    using v url_String_hash [OF u(1-5)] by (simp add: url_Parse_def Cut_notin split: option.splits)
  have g: "getScheme (url_String u) = Some (u_scheme u, ''//'' @ ?eh @ ?p @ query_part u)"
    unfolding str using getScheme_print [OF so, of "CHR ''/'' # ?eh @ ?p @ query_part u"] by simp
  have l: "map lower_char (u_scheme u) = u_scheme u" using so by (auto simp: scheme_ok_def)
  have star: "url_String u \<noteq> ''*''" unfolding str by (auto simp: scheme_part_def Cons_eq_append_conv)
  have ehn: "?eh \<noteq> []" using u(2) by (cases "u_host u") (auto simp: escape_Cons)
  then have np: "\<not> prefix ''///'' (''//'' @ ?eh @ ?p)" using eh(2) by (cases ?eh) auto
  have q: "split_query (''//'' @ ?eh @ ?p @ query_part u) = (''//'' @ ?eh @ ?p, u_query u, u_force_query u)"
    using split_query_print [of "''//'' @ ?eh @ ?p" u] eh(1) p(1) u(1) by (auto simp: web_url_def)
  have t: "takeWhile (\<lambda>c. c \<noteq> CHR ''/'') (?eh @ ?p) = ?eh" "dropWhile (\<lambda>c. c \<noteq> CHR ''/'') (?eh @ ?p) = ?p"
    using eh(2) p(2) by (cases ?p, auto simp: slashed_def takeWhile_id dropWhile_id takeWhile_cut dropWhile_cut)+
  have a: "parseAuthority P ?eh = map_option (Pair None) (parseHost P ?eh)"
    using eh(3) by (simp add: parseAuthority_def CutLast_None [THEN iffD2])
  obtain h where h: "parseHost P ?eh = Some h" and
    sp: "setPath ?p (empty_url\<lparr>u_scheme := u_scheme u, u_query := u_query u,
          u_force_query := u_force_query u, u_user := None, u_host := h\<rparr>) = Some v"
    using pn g q l t a star np
    by (auto simp: parse_nofrag_def split: if_splits option.splits)
  have hh: "h = u_host u" using parseHost_plain(1) [OF h eb] unescape_escape_host by simp
  with h show "parseHost P ?eh = Some (u_host u)" by simp
  note f = setPath_fields [OF sp]
  have vf: "u_scheme v = u_scheme u" "u_opaque v = []" "u_user v = None" "u_host v = u_host u"
    "\<not> u_omit_host v" "u_force_query v = u_force_query u" "u_query v = u_query u" "u_fragment v = []"
    using f hh by (simp_all add: empty_url_def)
  show v_eq: "v = u\<lparr>u_path := u_path v, u_rawpath := u_rawpath v\<rparr>"
    using f hh u(1,3,4,5) by (intro url.equality) (auto simp: empty_url_def web_url_def)
  have ep: "EscapedPath v = ?p" and vp: "u_path v = u_path u"
    using EscapedPath_reparse [OF f(1) _ v_eq [unfolded f(2)]] u(1) by (auto simp: web_url_def)
  have "slashed (u_rawpath v)" using f(2) p(2) by (simp add: slashed_def)
  then have "web_url v" using u(1) vp vf by (simp add: web_url_def)
  then have "url_String v = scheme_part v @ ''//'' @ escape EncHost (u_host v) @ EscapedPath v @ query_part v"
    by (rule url_String_web) (use u vf in simp_all)
  then show "url_String v = url_String u"
    unfolding str ep using vf by (simp add: query_part_def scheme_part_def)
qed

end
