(* ===== verification/Onion.thy ===== *)
theory Onion
  imports Go_Url
begin

section \<open>Onion addresses: internal/onion/url.go\<close>

text \<open>
  Validation and canonicalisation of Tor v3 addresses and URLs. The regular expression
  \<open>^[a-z2-7]{56}\.onion$\<close> is a Boolean function on bytes, the base32 decoder is the one of
  \<open>encoding/base32\<close> without padding, SHA3-256 is the argument \<open>sha3_256\<close>.
\<close>

subsection \<open>Base32\<close>

definition b32_val :: "char \<Rightarrow> nat option" where
  "b32_val c = (if is_upper c then Some (byte c - 65)
     else if 50 \<le> byte c \<and> byte c \<le> 55 then Some (byte c - 24) else None)"

fun b32_vals :: "string \<Rightarrow> nat list option" where
  "b32_vals [] = Some []"
| "b32_vals (c # s) =
     (case b32_val c of None \<Rightarrow> None | Some v \<Rightarrow> map_option (Cons v) (b32_vals s))"

text \<open>One group of up to eight 5-bit values gives up to five bytes.\<close>

definition b32_quantum :: "nat list \<Rightarrow> bytes" where
  "b32_quantum vs =
     (let n = foldl (\<lambda>a d. a * 32 + d) 0 (vs @ replicate (8 - length vs) 0);
          k = (if length vs = 8 then 5 else if length vs = 7 then 4 else if length vs = 5 then 3
               else if length vs = 4 then 2 else if length vs = 2 then 1 else 0)
      in take k [chr (n div 4294967296 mod 256), chr (n div 16777216 mod 256),
                 chr (n div 65536 mod 256), chr (n div 256 mod 256), chr (n mod 256)])"

fun b32_pack :: "nat list \<Rightarrow> bytes" where
  "b32_pack (a # b # c # d # e # f # g # h # vs) =
     b32_quantum [a, b, c, d, e, f, g, h] @ b32_pack vs"
| "b32_pack vs = b32_quantum vs"

definition base32_Decode :: "string \<Rightarrow> bytes option" where
  "base32_Decode s =
     map_option b32_pack (b32_vals (filter (\<lambda>c. byte c \<noteq> 10 \<and> byte c \<noteq> 13) s))"

subsection \<open>The operations of url.go\<close>

definition v3AddressBytes :: nat where "v3AddressBytes = 35"

definition v3Version :: char where "v3Version = chr 3"

definition v3HostnameRE :: "string \<Rightarrow> bool" where
  "v3HostnameRE s =
     (length s = 62 \<and> list_all (\<lambda>c. is_lower c \<or> (50 \<le> byte c \<and> byte c \<le> 55)) (take 56 s) \<and>
      drop 56 s = ''.onion'')"

definition IsV3Hostname :: "platform \<Rightarrow> string \<Rightarrow> bool" where
  "IsV3Hostname P hostname0 =
     (let hostname = lower P (TrimSpace hostname0) in
      if \<not> v3HostnameRE hostname then False
      else let encoded = TrimSuffix hostname ''.onion'' in
        case base32_Decode (upper P encoded) of
          None \<Rightarrow> False
        | Some decoded \<Rightarrow>
            if length decoded \<noteq> v3AddressBytes \<or> decoded ! 34 \<noteq> v3Version then False
            else let payload = ''.onion checksum'' @ take 32 decoded @ [v3Version];
                     checksum = sha3_256 P payload
                 in take 2 (drop 32 decoded) = take 2 checksum)"

definition validWebPort :: "string \<Rightarrow> bool" where
  "validWebPort port = (case Atoi port of None \<Rightarrow> False | Some n \<Rightarrow> n = 80 \<or> n = 443)"

definition NormalizeHostname :: "platform \<Rightarrow> string \<Rightarrow> string" where
  "NormalizeHostname P host0 =
     (let host = lower P (TrimSpace host0) in
      if host = [] then []
      else case (if CHR '':'' \<in> set host
                 then (case SplitHostPort host of
                         None \<Rightarrow> None
                       | Some (h, port) \<Rightarrow> if validWebPort port then Some h else None)
                 else Some host) of
             None \<Rightarrow> []
           | Some hostname \<Rightarrow> if IsV3Hostname P hostname then hostname else [])"

definition IsV3Host :: "platform \<Rightarrow> string \<Rightarrow> bool" where
  "IsV3Host P host = (NormalizeHostname P host \<noteq> [])"

definition IsV3URL :: "platform \<Rightarrow> string \<Rightarrow> bool" where
  "IsV3URL P rawURL =
     (if rawURL = [] \<or> length rawURL > 2048 then False
      else case url_Parse P rawURL of
        None \<Rightarrow> False
      | Some parsed \<Rightarrow>
          if u_scheme parsed \<noteq> ''http'' \<and> u_scheme parsed \<noteq> ''https'' then False
          else if u_user parsed \<noteq> None \<or> u_opaque parsed \<noteq> [] \<or> u_host parsed = [] then False
          else IsV3Host P (u_host parsed))"

definition NormalizeURL :: "platform \<Rightarrow> string \<Rightarrow> string" where
  "NormalizeURL P rawURL =
     (if rawURL = [] \<or> length rawURL > 2048 then []
      else case url_Parse P (TrimSpace rawURL) of
        None \<Rightarrow> []
      | Some parsed \<Rightarrow>
          if u_host parsed = [] \<or> u_user parsed \<noteq> None \<or> u_opaque parsed \<noteq> [] then []
          else let u = parsed\<lparr>u_scheme := lower P (u_scheme parsed),
                              u_host := lower P (u_host parsed), u_fragment := []\<rparr>
               in if \<not> IsV3URL P (url_String u) then [] else url_String u)"

definition demo_host :: string where
  "demo_host = ''pg6mmjiyjmcrsslvykfwnntlaru7p5svn6y2ymmju6nubxndf4pscryd.onion''"

subsection \<open>The address of a key\<close>

text \<open>
  The reference definition: the address of a 32-byte public key is the base32 encoding of the
  key, the two checksum bytes and the version byte (rend-spec-v3, section 6), followed by
  \<open>.onion\<close>.
\<close>

definition b32_lower :: "nat \<Rightarrow> char" where
  "b32_lower v = (if v < 26 then chr (97 + v) else chr (24 + v))"

fun b32_encode :: "bytes \<Rightarrow> string" where
  "b32_encode (a # b # c # d # e # s) =
     map b32_lower (to_digits 32 8 (of_digits 256 (map byte [a, b, c, d, e]))) @ b32_encode s"
| "b32_encode _ = []"

definition onion_address :: "platform \<Rightarrow> bytes \<Rightarrow> string" where
  "onion_address P pk =
     b32_encode (pk @ take 2 (sha3_256 P (''.onion checksum'' @ pk @ [v3Version])) @ [v3Version]) @
     ''.onion''"

lemma b32_quantum_8:
  assumes "length vs = 8"
  shows "b32_quantum vs = map chr (to_digits 256 5 (of_digits 32 vs))"
proof -
  have "n div 4294967296 = n div 256 div 256 div 256 div 256" "n div 16777216 = n div 256 div 256 div 256"
    "n div 65536 = n div 256 div 256" for n :: nat
    by (simp_all add: div_mult2_eq [symmetric])
  then show ?thesis
    using assms by (simp add: b32_quantum_def of_digits_def Let_def to_digits_5)
qed

definition b32_char :: "char \<Rightarrow> bool" where
  "b32_char c = (is_lower c \<or> (50 \<le> byte c \<and> byte c \<le> 55))"

definition b32_dec :: "char \<Rightarrow> nat" where
  "b32_dec c = (if is_lower c then byte c - 97 else byte c - 24)"

lemma b32_dec: "b32_char c \<Longrightarrow> b32_val (upper_char c) = Some (b32_dec c) \<and> b32_dec c < 32
   \<and> b32_lower (b32_dec c) = c"
  by (auto simp: b32_char_def b32_dec_def b32_val_def upper_char_def is_lower_def is_upper_def b32_lower_def)

lemma b32_lower: "v < 32 \<Longrightarrow> b32_char (b32_lower v) \<and> b32_dec (b32_lower v) = v"
  by (auto simp: b32_char_def b32_dec_def is_lower_def b32_lower_def)

lemma b32_char_plain: "b32_char c \<Longrightarrow> is_ascii c \<and> lower_char c = c \<and> byte c \<noteq> 58 \<and> 32 < byte c \<and> byte (upper_char c) \<noteq> 10 \<and> byte (upper_char c) \<noteq> 13"
  by (auto simp: b32_char_def is_lower_def lower_char_def is_ascii_def is_upper_def upper_char_def)

lemma b32_vals_upper:
  "list_all b32_char s \<Longrightarrow> b32_vals (map upper_char s) = Some (map b32_dec s)"
  by (induction s) (auto simp: b32_dec)

lemma base32_Decode_upper:
  assumes "list_all b32_char s"
  shows "base32_Decode (map upper_char s) = Some (b32_pack (map b32_dec s))"
proof -
  have "filter (\<lambda>c. byte c \<noteq> 10 \<and> byte c \<noteq> 13) (map upper_char s) = map upper_char s"
    using assms b32_char_plain by (auto simp: filter_id_conv list_all_iff)
  with assms show ?thesis by (simp add: base32_Decode_def b32_vals_upper)
qed

lemma map_byte_chr: "(\<And>n. n \<in> set ns \<Longrightarrow> n < 256) \<Longrightarrow> map byte (map chr ns) = ns"
  by (induction ns) auto

lemma b32_encode_pack:
  assumes "8 dvd length vs" and "\<And>v. v \<in> set vs \<Longrightarrow> v < 32"
  shows "b32_encode (b32_pack vs) = map b32_lower vs"
  using assms
proof (induction vs rule: b32_pack.induct)
  case (1 a b c d e f g h vs)
  let ?vs = "[a,b,c,d,e,f,g,h]"
  have small: "\<And>v. v \<in> set ?vs \<Longrightarrow> v < 32" using 1(3) by auto
  have less: "of_digits 32 ?vs < 256 ^ 5"
    using of_digits_less [of ?vs 32] 1(3) by force
  obtain x1 x2 x3 x4 x5 where q: "b32_quantum ?vs = [x1,x2,x3,x4,x5]"
    by (simp add: b32_quantum_def Let_def)
  have "map byte (b32_quantum ?vs) = to_digits 256 5 (of_digits 32 ?vs)"
    unfolding b32_quantum_8 [of ?vs, simplified] by (rule map_byte_chr) (rule to_digits_less, simp_all)
  then have "map byte [x1,x2,x3,x4,x5] = to_digits 256 5 (of_digits 32 ?vs)"
    unfolding q .
  then have "b32_encode (b32_quantum ?vs @ b32_pack vs) = map b32_lower ?vs @ b32_encode (b32_pack vs)"
    using of_to_digits [OF less] to_of_digits [of ?vs 8 32, OF _ small] q by simp
  moreover have "8 dvd length vs" using 1(2) by simp presburger
  ultimately show ?case using 1 by simp
qed (simp_all add: b32_quantum_def Let_def nat_dvd_not_less)

lemma b32_pack_append:
  assumes "length q = 8"
  shows "b32_pack (q @ vs) = b32_quantum q @ b32_pack vs"
proof -
  obtain a b c d e f g h where "q = [a, b, c, d, e, f, g, h]"
    using assms by (auto simp: numeral_eq_Suc length_Suc_conv)
  then show ?thesis by simp
qed

lemma b32_pack_encode:
  assumes "5 dvd length s"
  shows "\<exists>vs. b32_encode s = map b32_lower vs \<and> (\<forall>v \<in> set vs. v < 32) \<and>
     5 * length vs = 8 * length s \<and> b32_pack vs = s"
  using assms
proof (induction s rule: b32_encode.induct)
  case (1 a b c d e s)
  have "5 dvd length s" using 1(2) by simp presburger
  with 1(1) obtain vs where vs: "b32_encode s = map b32_lower vs" "\<forall>v \<in> set vs. v < 32"
     "5 * length vs = 8 * length s" "b32_pack vs = s" by blast
  let ?n = "of_digits 256 (map byte [a, b, c, d, e])"
  let ?q = "to_digits 32 8 ?n"
  have less: "?n < 32 ^ 8"
    using of_digits_less [of "map byte [a,b,c,d,e]" 256] by force
  have "b32_quantum ?q = map chr (to_digits 256 5 (of_digits 32 ?q))"
    by (rule b32_quantum_8) simp
  also have "\<dots> = [a,b,c,d,e]"
    unfolding of_to_digits [OF less] by (subst to_of_digits) auto
  finally have "b32_pack (?q @ vs) = [a,b,c,d,e] @ s"
    using vs(4) by (simp add: b32_pack_append)
  with vs to_digits_less [of 32 _ 8 ?n] show ?case
    by (intro exI [of _ "?q @ vs"]) auto
qed (simp_all add: b32_quantum_def Let_def, presburger+)

lemma length_b32_encode: "5 dvd length s \<Longrightarrow> 5 * length (b32_encode s) = 8 * length s"
  using b32_pack_encode [of s] by auto

lemma b32_encode_chars: "5 dvd length s \<Longrightarrow> list_all b32_char (b32_encode s)"
  using b32_pack_encode [of s] b32_lower by (auto simp: list_all_iff)

lemma base32_Decode_encode:
  assumes "5 dvd length s"
  shows "base32_Decode (map upper_char (b32_encode s)) = Some s"
proof -
  obtain vs where vs: "b32_encode s = map b32_lower vs" "\<forall>v \<in> set vs. v < 32" "b32_pack vs = s"
    using b32_pack_encode [OF assms] by blast
  have "map b32_dec (map b32_lower vs) = vs" using vs(2) b32_lower by (simp add: map_idI)
  with vs base32_Decode_upper [OF b32_encode_chars [OF assms]] show ?thesis by simp
qed

lemma length_b32_pack: "8 dvd length vs \<Longrightarrow> 8 * length (b32_pack vs) = 5 * length vs"
proof (induction vs rule: b32_pack.induct)
  case (1 a b c d e f g h vs)
  have "8 dvd length vs" using 1(2) by simp presburger
  with 1 b32_quantum_8 [of "[a,b,c,d,e,f,g,h]"] show ?case by simp
qed (simp_all add: b32_quantum_def, presburger+)

lemma TrimSuffix_append: "TrimSuffix (s @ p) p = s"
  by (simp add: TrimSuffix_def suffix_def)

lemma v3HostnameRE_iff:
  "v3HostnameRE s \<longleftrightarrow> (\<exists>e. s = e @ ''.onion'' \<and> length e = 56 \<and> list_all b32_char e)"
proof
  assume "v3HostnameRE s"
  then show "\<exists>e. s = e @ ''.onion'' \<and> length e = 56 \<and> list_all b32_char e"
    using append_take_drop_id [of 56 s]
    by (intro exI [of _ "take 56 s"]) (auto simp: v3HostnameRE_def b32_char_def [abs_def])
qed (auto simp: v3HostnameRE_def b32_char_def [abs_def])

lemma IsV3Hostname_address:
  assumes "length pk = 32" and "\<And>m. length (sha3_256 P m) = 32"
    and "lower P (TrimSpace h) = onion_address P pk"
  shows "IsV3Hostname P h"
proof -
  define ck where "ck = take 2 (sha3_256 P (''.onion checksum'' @ pk @ [v3Version]))"
  define s where "s = pk @ ck @ [v3Version]"
  have ck: "length ck = 2" using assms(2) by (simp add: ck_def)
  then have l: "length s = 35" using assms(1) by (simp add: s_def)
  then have e: "length (b32_encode s) = 56" "list_all b32_char (b32_encode s)"
    using length_b32_encode [of s] b32_encode_chars [of s] by auto
  then have "ascii (b32_encode s)" using b32_char_plain by (auto simp: ascii_iff list_all_iff)
  then have u: "upper P (b32_encode s) = map upper_char (b32_encode s)"
    by (simp add: ToUpper_def)
  have a: "lower P (TrimSpace h) = b32_encode s @ ''.onion''"
    unfolding assms(3) onion_address_def s_def ck_def ..
  have "v3HostnameRE (b32_encode s @ ''.onion'')" using e v3HostnameRE_iff by blast
  moreover have "TrimSuffix (b32_encode s @ ''.onion'') ''.onion'' = b32_encode s"
    by (rule TrimSuffix_append)
  moreover have "base32_Decode (upper P (b32_encode s)) = Some s"
    unfolding u using l by (intro base32_Decode_encode) simp
  moreover have "s ! 34 = v3Version" "take 32 s = pk" "take 2 (drop 32 s) = ck"
    using assms(1) ck by (simp_all add: s_def nth_append)
  ultimately show ?thesis
    unfolding IsV3Hostname_def a Let_def using l by (simp add: v3AddressBytes_def ck_def)
qed

lemma IsV3Hostname_decode:
  assumes "IsV3Hostname P h"
  shows "\<exists>pk. length pk = 32 \<and> lower P (TrimSpace h) = onion_address P pk"
proof -
  obtain e where e: "lower P (TrimSpace h) = e @ ''.onion''" "length e = 56" "list_all b32_char e"
    using assms v3HostnameRE_iff by (auto simp: IsV3Hostname_def Let_def split: if_splits)
  define s where "s = b32_pack (map b32_dec e)"
  have l: "length s = 35" using length_b32_pack [of "map b32_dec e"] e(2) by (simp add: s_def)
  have "b32_encode s = map b32_lower (map b32_dec e)"
    unfolding s_def using e b32_dec by (intro b32_encode_pack) (auto simp: list_all_iff)
  also have "\<dots> = e" using e(3) b32_dec by (simp add: list_all_iff map_idI)
  finally have es: "b32_encode s = e" .
  have "ascii e" using e b32_char_plain by (auto simp: ascii_iff list_all_iff)
  then have "base32_Decode (upper P e) = Some s"
    using base32_Decode_upper [OF e(3)] by (simp add: ToUpper_def s_def)
  with assms e have v: "s ! 34 = v3Version"
    and c: "take 2 (drop 32 s) = take 2 (sha3_256 P (''.onion checksum'' @ take 32 s @ [v3Version]))"
    by (auto simp: IsV3Hostname_def Let_def TrimSuffix_append split: if_splits)
  have "drop 32 s = take 2 (drop 32 s) @ drop 34 s"
    using append_take_drop_id [of 2 "drop 32 s"] by simp
  then have "s = take 32 s @ take 2 (drop 32 s) @ drop 34 s"
    using append_take_drop_id [of 32 s] by simp
  moreover have "drop 34 s = [v3Version]"
    using l v Cons_nth_drop_Suc [of 34 s] by simp
  ultimately have "onion_address P (take 32 s) = e @ ''.onion''"
    unfolding onion_address_def c [symmetric] using es by simp
  with e(1) l show ?thesis by (intro exI [of _ "take 32 s"]) simp
qed

subsection \<open>Canonical URLs\<close>

definition canon :: "platform \<Rightarrow> url \<Rightarrow> url" where
  "canon P u = u\<lparr>u_scheme := lower P (u_scheme u), u_host := lower P (u_host u), u_fragment := []\<rparr>"

lemma NormalizeURL_Some:
  assumes "NormalizeURL P s = r" and "r \<noteq> []"
  obtains u where "url_Parse P (TrimSpace s) = Some u" "u_host u \<noteq> []" "u_user u = None"
    "u_opaque u = []" "r = url_String (canon P u)" "IsV3URL P r"
  using assms
  by (auto simp: NormalizeURL_def canon_def Let_def simp del: split_paired_All split_paired_Ex
      split: if_splits option.splits)

lemma IsV3URL_Some:
  assumes "IsV3URL P r"
  obtains v where "url_Parse P r = Some v" "u_scheme v = ''http'' \<or> u_scheme v = ''https''"
    "u_user v = None" "u_opaque v = []" "u_host v \<noteq> []" "IsV3Host P (u_host v)" "r \<noteq> []" "length r \<le> 2048"
  using assms
  by (auto simp: IsV3URL_def simp del: split_paired_All split_paired_Ex split: if_splits option.splits)

lemma scheme_char_ascii: "scheme_char c \<Longrightarrow> is_ascii c"
  by (auto simp: scheme_char_def is_alnum_def is_alpha_def is_lower_def is_upper_def is_digit_def
      is_ascii_def) (simp_all add: byte_def)

lemma scheme_ok_lower: "scheme_ok sc \<Longrightarrow> lower P sc = sc"
  using scheme_char_ascii
  by (auto simp: scheme_ok_def list_all_iff ascii_iff ToLower_ascii)

lemma web_url_canon:
  assumes "web_url u"
  shows "web_url (canon P u)"
  using assms by (simp add: web_url_def canon_def scheme_ok_lower)

text \<open>The canonical form reparses to the canonical URL, for a host with no bracket.\<close>

lemma lower_char_bracket: "lower_char c = CHR ''['' \<Longrightarrow> c = CHR ''[''"
proof -
  assume a: "lower_char c = CHR ''[''"
  then have "byte (lower_char c) = 91" by (simp add: byte_def)
  then have "\<not> is_upper c" by (auto simp: byte_lower_char is_upper_def split: if_splits)
  with a show ?thesis by (simp add: lower_char_not_upper)
qed

lemma ascii_lower_host:
  assumes "ascii h"
  shows "lower P (lower P h) = lower P h" "ascii (lower P h)"
    "CHR ''['' \<notin> set h \<Longrightarrow> CHR ''['' \<notin> set (lower P h)" "h \<noteq> [] \<Longrightarrow> lower P h \<noteq> []"
  using assms ToLower_idem_ascii [OF assms] lower_char_bracket by (auto simp: ToLower_ascii) metis

lemma NormalizeURL_reparse:
  assumes "url_Parse P (TrimSpace s) = Some u" "ascii (u_host u)" "CHR ''['' \<notin> set (u_host u)"
    and "NormalizeURL P s = r" "r \<noteq> []"
  obtains v where "url_Parse P r = Some v" "IsV3URL P r" "r = url_String v" "canon P v = v"
    "u_host v = lower P (u_host u)" "u_user v = None" "u_opaque v = []" "u_host v \<noteq> []"
    "unescape EncHost (escape EncHost (u_host v)) = Some (u_host v)"
    "case CutLast (CHR '':'') (u_host v) of None \<Rightarrow> True | Some (_, port) \<Rightarrow> list_all is_digit port"
    "CHR ''#'' \<notin> set r"
proof -
  obtain u' where u': "url_Parse P (TrimSpace s) = Some u'" "u_host u' \<noteq> []" "u_user u' = None"
    "u_opaque u' = []" "r = url_String (canon P u')" "IsV3URL P r"
    using NormalizeURL_Some [OF assms(4,5)] by blast
  with assms(1) have [simp]: "u' = u" by simp
  let ?c = "canon P u"
  have web: "web_url u" using url_Parse_web assms(1) u'(2) by simp
  have c: "web_url ?c" "u_host ?c = lower P (u_host u)" "u_host ?c \<noteq> []" "u_user ?c = None" "u_opaque ?c = []"
    "u_fragment ?c = []" "CHR ''['' \<notin> set (u_host ?c)"
    using web_url_canon [OF web] u' ascii_lower_host [OF assms(2)] assms(3) by (simp_all add: canon_def)
  obtain v where v: "url_Parse P (url_String ?c) = Some v" using IsV3URL_Some [OF u'(6)] u'(5) by auto
  note rp = reparse [OF c(1,3-7) v]
  have eb: "CHR ''['' \<notin> set (escape EncHost (u_host ?c))"
    using c(7) escape_origin [of "CHR ''[''"] by (auto simp: ishex_def is_digit_def byte_def)
  note ph = parseHost_plain [OF rp(3) eb]
  have vf: "u_scheme v = u_scheme ?c" "u_host v = u_host ?c" "u_user v = None" "u_opaque v = []" "u_fragment v = []"
    using c rp(1) by (metis url.select_convs url.ext_inject url.surjective url.update_convs)+
  have "canon P v = v"
    using vf c(2) ascii_lower_host(1) [OF assms(2)] web scheme_ok_lower [of "u_scheme u"]
    by (intro url.equality) (simp_all add: canon_def web_url_def)
  then show ?thesis
    using that [of v] v vf rp(2) u' c ph url_String_hash [OF c(1,3-6)] by simp
qed

lemma NormalizeURL_stable:
  assumes "url_Parse P (TrimSpace s) = Some u" "ascii (u_host u)" "CHR ''['' \<notin> set (u_host u)"
    and "NormalizeURL P s = r" "r \<noteq> []" "TrimSpace r = r"
  shows "NormalizeURL P r = r"
proof -
  obtain v where v: "url_Parse P r = Some v" "IsV3URL P r" "r = url_String v" "canon P v = v"
    "u_user v = None" "u_opaque v = []" "u_host v \<noteq> []"
    using NormalizeURL_reparse [OF assms(1-5)] by metis
  have "length r \<le> 2048" using IsV3URL_Some [OF v(2)] by blast
  then show ?thesis
    using v(1,2,5,6,7) assms(5,6) v(4) v(3) [symmetric] by (simp add: NormalizeURL_def canon_def Let_def)
qed

lemma v3HostnameRE_solid: "v3HostnameRE h \<Longrightarrow> solid h"
proof -
  assume "v3HostnameRE h"
  then obtain e where e: "h = e @ ''.onion''" "list_all b32_char e" using v3HostnameRE_iff by blast
  have "solid e" using e(2) b32_char_plain by (fastforce simp: solid_def list_all_iff)
  moreover have "solid ''.onion''" by code_simp
  ultimately show ?thesis using e(1) by simp
qed

lemma solid_lower: "solid h \<Longrightarrow> solid (lower P h)"
  by (simp add: solid_ascii ToLower_ascii)
   (auto simp: solid_def list_all_iff lower_char_def is_upper_def is_ascii_def split: if_splits)

lemma solid_unlower: "ascii h \<Longrightarrow> solid (lower P h) \<Longrightarrow> solid h"
  by (auto simp: ToLower_ascii solid_def list_all_iff ascii_iff lower_char_def is_upper_def
      split: if_splits dest!: bspec)

lemma v3HostnameRE_lower: "v3HostnameRE h \<Longrightarrow> lower P h = h"
proof -
  assume h: "v3HostnameRE h"
  then obtain e where e: "h = e @ ''.onion''" "list_all b32_char e" using v3HostnameRE_iff by blast
  have "map lower_char e = e" using e(2) b32_char_plain by (auto simp: list_all_iff intro: map_idI)
  moreover have "map lower_char ''.onion'' = ''.onion''" by code_simp
  ultimately show ?thesis
    using e(1) solid_ascii [OF v3HostnameRE_solid [OF h]] by (simp add: ToLower_ascii)
qed

lemma SplitHostPort_sub: "SplitHostPort hp = Some (h, port) \<Longrightarrow> set h \<subseteq> set hp"
  by (auto simp: SplitHostPort_def Let_def split: option.splits if_splits
      dest!: CutLast_Some set_takeWhileD)

lemma SplitHostPort_plain:
  "SplitHostPort hp = Some (h, port) \<Longrightarrow> CHR ''['' \<notin> set hp \<Longrightarrow> CutLast (CHR '':'') hp = Some (h, port)"
  by (cases hp) (auto simp: SplitHostPort_def Let_def split: option.splits if_splits)

lemma NormalizeHostname_cases:
  assumes "NormalizeHostname P h \<noteq> []"
  shows "IsV3Hostname P (NormalizeHostname P h) \<and>
     (NormalizeHostname P h = lower P (TrimSpace h) \<or>
      (\<exists>port. SplitHostPort (lower P (TrimSpace h)) = Some (NormalizeHostname P h, port)))"
  using assms
  by (simp add: NormalizeHostname_def Let_def split: if_split_asm option.split_asm prod.split_asm)

lemma NormalizeHostname_solid:
  assumes "solid h" and "NormalizeHostname P h \<noteq> []"
  shows "v3HostnameRE (NormalizeHostname P h)"
proof -
  have id: "lower P (TrimSpace (lower P h')) = lower P h'" "TrimSpace h' = h'" if "solid h'" for h'
    using that solid_lower [OF that, of P] by (simp_all add: solid_TrimSpace solid_ascii ToLower_idem_ascii)
  have sub: "solid hn \<and> lower P hn = hn" if "SplitHostPort (lower P h) = Some (hn, port)" for hn port
  proof -
    have sub: "set hn \<subseteq> set (lower P h)" using SplitHostPort_sub [OF that] .
    then have sol: "solid hn" using solid_lower [OF assms(1), of P] by (auto simp: solid_def list_all_iff)
    have "lower_char c = c" if "c \<in> set hn" for c
      using sub that assms(1) by (auto simp: ToLower_ascii solid_ascii)
    then show ?thesis using sol by (simp add: ToLower_ascii solid_ascii map_idI)
  qed
  obtain hn where hn: "NormalizeHostname P h = hn" "IsV3Hostname P hn"
    "hn = lower P h \<or> (\<exists>port. SplitHostPort (lower P h) = Some (hn, port))"
    using NormalizeHostname_cases [OF assms(2)] id(2) [OF assms(1)] by auto
  have "solid hn \<and> lower P hn = hn"
    using hn(3) sub solid_lower [OF assms(1)] ToLower_idem_ascii [OF solid_ascii [OF assms(1)]] by auto
  then have "lower P (TrimSpace hn) = hn" by (simp add: solid_TrimSpace)
  then show ?thesis
    using hn(1,2) by (auto simp: IsV3Hostname_def Let_def split: if_splits)
qed

lemma url_host_agrees:
  assumes "url_Parse P (TrimSpace s) = Some u" "ascii (u_host u)" "CHR ''['' \<notin> set (u_host u)"
    and "NormalizeURL P s = r" "r \<noteq> []" 
  shows "\<exists>v. url_Parse P r = Some v \<and> url_Hostname v = NormalizeHostname P (u_host u) \<and>
    v3HostnameRE (url_Hostname v) \<and> lower P (url_Hostname v) = url_Hostname v"
proof -
  obtain v where v: "url_Parse P r = Some v" "IsV3URL P r" "u_host v = lower P (u_host u)"
    "unescape EncHost (escape EncHost (u_host v)) = Some (u_host v)"
    "case CutLast (CHR '':'') (u_host v) of None \<Rightarrow> True | Some (_, port) \<Rightarrow> list_all is_digit port"
    using NormalizeURL_reparse [OF assms] by metis
  let ?h = "u_host v"
  have a: "ascii ?h" "lower P ?h = ?h" "CHR ''['' \<notin> set ?h"
    using ascii_lower_host [OF assms(2)] assms(3) v(3) by simp_all
  have sol: "solid ?h" using unescape_host_solid [OF v(4) a(1)] .
  have n: "NormalizeHostname P ?h \<noteq> []"
    using IsV3URL_Some [OF v(2)] v(1) by (auto simp: IsV3Host_def)
  have re: "v3HostnameRE (NormalizeHostname P ?h)" using NormalizeHostname_solid [OF sol n] .
  have eq: "url_Hostname v = NormalizeHostname P ?h"
  proof (cases "CHR '':'' \<in> set ?h")
    case False
    with a(3) n show ?thesis
      using a(2) solid_TrimSpace [OF sol]
      by (cases ?h) (auto simp: url_Hostname_def CutLast_None [THEN iffD2] NormalizeHostname_def Let_def split: if_splits)
  next
    case True
    then obtain hn port where sp: "SplitHostPort ?h = Some (hn, port)" "NormalizeHostname P ?h = hn"
      using n a(2) solid_TrimSpace [OF sol]
      by (auto simp: NormalizeHostname_def Let_def split: if_splits option.splits)
    have c: "CutLast (CHR '':'') ?h = Some (hn, port)" using SplitHostPort_plain [OF sp(1) a(3)] .
    then have "set hn \<subseteq> set ?h" using CutLast_Some by fastforce
    with a(3) have "CHR ''['' \<notin> set hn" by auto
    then have "\<not> prefix ''['' hn" by (cases hn) auto
    with c v(5) sp(2) show ?thesis by (simp add: url_Hostname_def validOptionalPort_def)
  qed
  have "lower P (url_Hostname v) = url_Hostname v"
    unfolding eq by (rule v3HostnameRE_lower [OF re])
  moreover have "solid (u_host u)" using solid_unlower [of "u_host u" P] assms(2) sol v(3) by simp
  then have "NormalizeHostname P ?h = NormalizeHostname P (u_host u)"
    unfolding NormalizeHostname_def using sol a(2) v(3) by (simp add: solid_TrimSpace)
  ultimately show ?thesis using v(1) eq re by auto
qed

subsection \<open>Properties\<close>

text \<open>
  C7. \<open>IsV3Hostname\<close> accepts exactly the addresses of 32-byte keys: a name passes if and only
  if, trimmed and in lower case, it is the base32 encoding of some key, the two checksum bytes
  of that key and version 3, followed by \<open>.onion\<close>. The only fact used of SHA3-256 is that
  its digest has 32 bytes.
\<close>

theorem IsV3Hostname_iff:
  assumes "\<And>m. length (sha3_256 P m) = 32"
  shows "IsV3Hostname P h \<longleftrightarrow> (\<exists>pk. length pk = 32 \<and> lower P (TrimSpace h) = onion_address P pk)"
  using IsV3Hostname_address [where P = P and h = h] IsV3Hostname_decode [where P = P and h = h] assms by blast

theorem IsV3Hostname_iff_witness:
  "(\<exists>pk. length pk = 32 \<and> lower demo_platform (TrimSpace demo_host) = onion_address demo_platform pk) \<and>
   \<not> (\<exists>pk. length pk = 32 \<and> lower demo_platform (TrimSpace ''example.com'') = onion_address demo_platform pk)"
proof -
  have len: "\<And>m. length (sha3_256 demo_platform m) = 32" by (simp add: demo_platform_def)
  have "IsV3Hostname demo_platform demo_host" "\<not> IsV3Hostname demo_platform ''example.com''"
    by code_simp+
  then show ?thesis using IsV3Hostname_iff [OF len] by blast
qed



subsection \<open>Deviations\<close>

text \<open>
  \<open>NormalizeHostname\<close> validates the trimmed host but returns it untrimmed: a space before the
  port survives, so a blacklist entry made from it matches no host.
\<close>

theorem NormalizeHostname_untrimmed:
  "NormalizeHostname demo_platform (demo_host @ '' :80'') = demo_host @ '' ''"
  by code_simp

text \<open>\<open>NormalizeURL\<close> is not idempotent when the query ends in a space before a fragment.\<close>

theorem NormalizeURL_not_idempotent:
  "let r = NormalizeURL demo_platform (''http://'' @ demo_host @ ''/?q=a #f'') in
   r = ''http://'' @ demo_host @ ''/?q=a '' \<and>
   NormalizeURL demo_platform r = ''http://'' @ demo_host @ ''/?q=a''"
  by code_simp

end
