(* ===== verification/Tor_Client.thy ===== *)
theory Tor_Client
  imports Onion
begin

section \<open>The client that speaks to Tor: internal/proxy\<close>

text \<open>
  \<open>client.go\<close> and \<open>tor_controller.go\<close>: the credential that isolates circuits, the redirect policy,
  and the rotation of circuits. The network is the argument \<open>wire\<close>: what one exchange with a URL
  returned, None for an error. \<open>client_Do\<close> is \<open>http.Client.Do\<close> for a GET request with the
  redirect loop of \<open>net/http\<close>; besides the response it returns the URLs that were contacted, in order.
  \<open>ResolveReference\<close> is that of \<open>net/url\<close>.
\<close>

subsection \<open>URL.ResolveReference\<close>

text \<open>The loop over the elements of a path: what is written so far without its first slash, and \<open>first\<close>.\<close>

definition path_elem :: "string \<times> bool \<Rightarrow> string \<Rightarrow> string \<times> bool" where
  "path_elem st el =
     (let (dst, first) = st in
      if el = ''.'' then (dst, False)
      else if el = ''..'' then
        (case CutLast CHR ''/'' dst of None \<Rightarrow> ([], True) | Some (before, _) \<Rightarrow> (before, first))
      else (dst @ (if first then [] else ''/'') @ el, False))"

definition resolvePath :: "string \<Rightarrow> string \<Rightarrow> string" where
  "resolvePath base ref =
     (let full = (if ref = [] then base
                  else if hd ref \<noteq> CHR ''/'' then
                    (case CutLast CHR ''/'' base of None \<Rightarrow> ref | Some (dir, _) \<Rightarrow> dir @ ''/'' @ ref)
                  else ref)
      in if full = [] then []
         else let elems = Split CHR ''/'' full;
                  dst = fst (foldl path_elem ([], True) elems);
                  r = CHR ''/'' # dst @ (if last elems = ''.'' \<or> last elems = ''..'' then ''/'' else [])
           in if length r > 1 \<and> r ! 1 = CHR ''/'' then tl r else r)"

text \<open>\<open>setPath\<close> with its error dropped.\<close>

definition set_path :: "string \<Rightarrow> url \<Rightarrow> url" where
  "set_path p u = (case setPath p u of None \<Rightarrow> u | Some u' \<Rightarrow> u')"

definition ResolveReference :: "url \<Rightarrow> url \<Rightarrow> url" where
  "ResolveReference u ref =
     (let url = (if u_scheme ref = [] then ref\<lparr>u_scheme := u_scheme u\<rparr> else ref) in
      if u_scheme ref \<noteq> [] \<or> u_host ref \<noteq> [] \<or> u_user ref \<noteq> None
      then set_path (resolvePath (EscapedPath ref) []) url
      else if u_opaque ref \<noteq> [] then url\<lparr>u_user := None, u_host := [], u_path := []\<rparr>
      else let url1 = (if u_path ref = [] \<and> \<not> u_force_query ref \<and> u_query ref = []
                       then (if u_fragment ref = [] then url\<lparr>u_query := u_query u, u_fragment := u_fragment u\<rparr>
                             else url\<lparr>u_query := u_query u\<rparr>)
                       else url)
        in if u_path ref = [] \<and> u_opaque u \<noteq> []
           then url1\<lparr>u_opaque := u_opaque u, u_user := None, u_host := [], u_path := []\<rparr>
           else set_path (resolvePath (EscapedPath u) (EscapedPath ref))
                  (url1\<lparr>u_host := u_host u, u_user := u_user u\<rparr>))"

subsection \<open>client.go\<close>

definition isolationCredential :: "platform \<Rightarrow> string \<Rightarrow> string" where
  "isolationCredential P host = hex_encode (take 16 (sha256 P (lower P host)))"

text \<open>The credential of a dialled address, which is user name and password alike.\<close>

definition dial_credential :: "platform \<Rightarrow> string \<Rightarrow> string" where
  "dial_credential P address =
     isolationCredential P (case SplitHostPort address of None \<Rightarrow> address | Some (host, _) \<Rightarrow> host)"

record http_reply =
  hr_status :: int
  hr_header :: "string \<Rightarrow> string"
  hr_body :: string

type_synonym wire = "url \<Rightarrow> http_reply option"

text \<open>\<open>CheckRedirect\<close>; True is nil. \<open>via\<close> holds the requests made so far, oldest first.\<close>

definition CheckRedirect :: "platform \<Rightarrow> url \<Rightarrow> url list \<Rightarrow> bool" where
  "CheckRedirect P req via =
     (if length via \<ge> 3 then False
      else if \<not> IsV3URL P (url_String req) then False
      else fold_eq P (url_Hostname req) (url_Hostname (hd via)))"

definition redirects :: "http_reply \<Rightarrow> bool" where
  "redirects resp = (hr_status resp \<in> {301, 302, 303, 307, 308})"

text \<open>
  The loop of \<open>Do\<close>: every round sends a request that was not refused. The policy refuses from the third
  redirect on, so that the recursion ends; the second component is the list of all requests sent.
\<close>

function client_loop :: "platform \<Rightarrow> wire \<Rightarrow> url list \<Rightarrow> url \<Rightarrow> http_reply option \<times> url list" where
  "client_loop P wire via req =
     (let via' = via @ [req] in
      case wire req of
        None \<Rightarrow> (None, via')
      | Some resp \<Rightarrow>
          if \<not> redirects resp then (Some resp, via')
          else if hr_header resp ''Location'' = [] then (Some resp, via')
          else (case url_Parse P (hr_header resp ''Location'') of
              None \<Rightarrow> (None, via')
            | Some ref \<Rightarrow>
                let next_req = ResolveReference req ref in
                if \<not> CheckRedirect P next_req via' then (None, via')
                else client_loop P wire via' next_req))"
  by pat_completeness auto

termination
  by (relation "measure (\<lambda>(P, wire, via, req). 3 - length via)") (auto simp: CheckRedirect_def split: if_splits)

declare client_loop.simps [simp del]

text \<open>\<open>http.NewRequest\<close> fails when the URL does not parse.\<close>

definition client_Do :: "platform \<Rightarrow> wire \<Rightarrow> string \<Rightarrow> http_reply option \<times> url list" where
  "client_Do P wire target =
     (case url_Parse P target of None \<Rightarrow> (None, []) | Some u \<Rightarrow> client_loop P wire [] u)"

subsection \<open>tor_controller.go\<close>

record TorController =
  tc_password :: string
  tc_cookiePath :: string
  tc_lastRenewal :: time
  tc_cooldown :: duration

text \<open>\<open>cookie\<close> is the result of reading the cookie file, None for an error.\<close>

definition buildAuthCommand :: "string option \<Rightarrow> TorController \<Rightarrow> string" where
  "buildAuthCommand cookie c =
     (case (if tc_cookiePath c \<noteq> [] then cookie else None) of
        Some data \<Rightarrow> ''AUTHENTICATE '' @ hex_encode data
      | None \<Rightarrow>
          if tc_password c \<noteq> [] then ''AUTHENTICATE '' @ hex_encode (tc_password c)
          else ''AUTHENTICATE '' @ [chr 34, chr 34])"

text \<open>
  The control connection is the argument \<open>talk\<close>: the replies to the lines sent, None when connecting,
  sending or reading failed. \<open>Inl\<close> is an error; \<open>now'\<close> is the clock after the exchange.
\<close>

definition RenewCircuit ::
    "(string list \<Rightarrow> string option) \<Rightarrow> string option \<Rightarrow> time \<Rightarrow> time \<Rightarrow> TorController \<Rightarrow> (unit + bool) \<times> TorController" where
  "RenewCircuit talk cookie now now' c =
     (if now - tc_lastRenewal c < tc_cooldown c then (Inr False, c)
      else let auth = buildAuthCommand cookie c in
        case talk [auth] of
          None \<Rightarrow> (Inl (), c)
        | Some line \<Rightarrow>
            if \<not> prefix ''250'' line then (Inl (), c)
            else (case talk [auth, ''SIGNAL NEWNYM''] of
                None \<Rightarrow> (Inl (), c)
              | Some line2 \<Rightarrow>
                  if \<not> prefix ''250'' line2 then (Inl (), c)
                  else (Inr True, c\<lparr>tc_lastRenewal := now'\<rparr>)))"

subsection \<open>What is contacted\<close>

lemma client_loop_contacts:
  assumes "client_loop P wire via req = (res, us)" and "length via \<le> 2" and "hd (via @ [req]) = first"
    and "\<forall>u \<in> set via \<union> {req}. Q u"
    and "\<And>u. IsV3URL P (url_String u) \<Longrightarrow> fold_eq P (url_Hostname u) (url_Hostname first) \<Longrightarrow> Q u"
  shows "length us \<le> 3 \<and> (\<forall>u \<in> set us. Q u)"
  using assms
proof (induction P wire via req arbitrary: res us rule: client_loop.induct)
  case (1 P wire via req)
  let ?via = "via @ [req]"
  have stop: ?case if "us = ?via" using that 1(3,5) by auto
  show ?case
  proof (cases "wire req")
    case None
    then show ?thesis using 1(2) stop by (simp add: client_loop.simps)
  next
    case (Some resp)
    note w = this
    show ?thesis
    proof (cases "redirects resp \<and> hr_header resp ''Location'' \<noteq> []")
      case False
      then have "us = ?via" using 1(2) w by (cases "redirects resp") (simp_all add: client_loop.simps Let_def)
      then show ?thesis by (rule stop)
    next
      case loc: True
      show ?thesis
      proof (cases "url_Parse P (hr_header resp ''Location'')")
        case None
        then show ?thesis using 1(2) stop w loc by (simp add: client_loop.simps)
      next
        case (Some ref)
        let ?next = "ResolveReference req ref"
        show ?thesis
        proof (cases "CheckRedirect P ?next ?via")
          case False
          then show ?thesis using 1(2) stop w loc Some by (simp add: client_loop.simps Let_def)
        next
          case True
          have rec: "client_loop P wire ?via ?next = (res, us)"
            using 1(2) w loc Some True by (simp add: client_loop.simps Let_def)
          have hd: "hd (?via @ [?next]) = first" using 1(4) by (cases via) simp_all
          have len: "length ?via \<le> 2" using True by (simp add: CheckRedirect_def split: if_splits)
          have Q: "Q ?next" using True 1(4,6) by (auto simp: CheckRedirect_def split: if_splits)
          show ?thesis
            by (rule 1(1) [OF refl w _ _ Some refl _ rec len hd]) (use loc True 1(5,6) Q in auto)
        qed
      qed
    qed
  qed
qed

text \<open>Rotation is limited by the cooldown, and only a confirmed signal counts as one.\<close>

lemma RenewCircuit_cases:
  assumes "RenewCircuit talk cookie now now' c = (res, c')"
  obtains (renewed) "res = Inr True" "tc_cooldown c \<le> now - tc_lastRenewal c" "c' = c\<lparr>tc_lastRenewal := now'\<rparr>"
      "\<exists>line. talk [buildAuthCommand cookie c, ''SIGNAL NEWNYM''] = Some line \<and> prefix ''250'' line"
    | (kept) "res \<noteq> Inr True" "c' = c"
  using assms by (auto simp: RenewCircuit_def Let_def split: if_splits option.splits)

end
