(* ===== verification/Go_Text.thy ===== *)
theory Go_Text
  imports Go_Strings
begin

section \<open>Text formats: runes, CSV and XML of Go's standard library\<close>

text \<open>
  The decoding of UTF-8 by \<open>range\<close> and \<open>[]rune\<close>, the writer of \<open>encoding/csv\<close> and
  \<open>xml.EscapeText\<close>, which the exports use.
\<close>

subsection \<open>Runes\<close>

definition RuneError :: nat where "RuneError = 65533"

text \<open>\<open>utf8.DecodeRuneInString\<close> of a string that is not empty: the rune and its width.\<close>

fun decode_rune :: "string \<Rightarrow> nat \<times> nat" where
  "decode_rune [] = (RuneError, 0)"
| "decode_rune (a # s) =
     (if byte a < 128 then (byte a, 1)
      else if 194 \<le> byte a \<and> byte a < 224 then
        (case s of b # _ \<Rightarrow> if is_cont b then (64 * (byte a - 192) + (byte b - 128), 2) else (RuneError, 1)
         | _ \<Rightarrow> (RuneError, 1))
      else if 224 \<le> byte a \<and> byte a < 240 then
        (case s of b # c # _ \<Rightarrow>
           if is_cont b \<and> is_cont c \<and> (byte a = 224 \<longrightarrow> 160 \<le> byte b) \<and> (byte a = 237 \<longrightarrow> byte b < 160)
           then (4096 * (byte a - 224) + 64 * (byte b - 128) + (byte c - 128), 3) else (RuneError, 1)
         | _ \<Rightarrow> (RuneError, 1))
      else if 240 \<le> byte a \<and> byte a < 245 then
        (case s of b # c # d # _ \<Rightarrow>
           if is_cont b \<and> is_cont c \<and> is_cont d \<and> (byte a = 240 \<longrightarrow> 144 \<le> byte b) \<and> (byte a = 244 \<longrightarrow> byte b < 144)
           then (262144 * (byte a - 240) + 4096 * (byte b - 128) + 64 * (byte c - 128) + (byte d - 128), 4)
           else (RuneError, 1)
         | _ \<Rightarrow> (RuneError, 1))
      else (RuneError, 1))"

lemma decode_rune_width: "s \<noteq> [] \<Longrightarrow> 0 < snd (decode_rune s)"
  by (cases s) (auto split: list.splits)

text \<open>The runes of a string, each with the bytes it came from.\<close>

function runes :: "string \<Rightarrow> (nat \<times> string) list" where
  "runes s = (if s = [] then [] else
     let (c, w) = decode_rune s in (c, take w s) # runes (drop w s))"
  by pat_completeness auto

termination
proof (relation "measure length")
  fix s :: string and x c w
  assume "s \<noteq> []" "x = decode_rune s" "(c, w) = x"
  then have "0 < w" using decode_rune_width [of s] by (metis snd_conv)
  then show "(drop w s, s) \<in> measure length" using \<open>s \<noteq> []\<close> by simp
qed simp

declare runes.simps [simp del]

lemma runes_Nil [simp]: "runes [] = []"
  by (simp add: runes.simps)

text \<open>\<open>string(r)\<close>: the encoding of one rune.\<close>

definition encode_rune :: "nat \<Rightarrow> string" where
  "encode_rune c =
     (if c < 128 then [chr c]
      else if c < 2048 then [chr (192 + c div 64), chr (128 + c mod 64)]
      else if c < 65536 then [chr (224 + c div 4096), chr (128 + c div 64 mod 64), chr (128 + c mod 64)]
      else [chr (240 + c div 262144), chr (128 + c div 4096 mod 64), chr (128 + c div 64 mod 64), chr (128 + c mod 64)])"

lemma runes_ascii: "ascii s \<Longrightarrow> runes s = map (\<lambda>c. (byte c, [c])) s"
proof (induction s)
  case (Cons a s)
  then show ?case by (subst runes.simps) (simp add: is_ascii_def)
qed simp

subsection \<open>encoding/csv\<close>

abbreviation dquote :: char where "dquote \<equiv> CHR 0x22"
abbreviation newline :: char where "newline \<equiv> CHR 0x0A"
abbreviation creturn :: char where "creturn \<equiv> CHR 0x0D"

definition csv_special :: "char \<Rightarrow> bool" where
  "csv_special c = (c = newline \<or> c = creturn \<or> c = dquote \<or> c = CHR '','')"

definition fieldNeedsQuotes :: "string \<Rightarrow> bool" where
  "fieldNeedsQuotes f =
     (if f = [] then False
      else if f = [chr 92, CHR ''.''] then True
      else list_ex csv_special f \<or> leading_space f > 0)"

definition csv_field :: "string \<Rightarrow> string" where
  "csv_field f =
     (if fieldNeedsQuotes f
      then [dquote] @ concat (map (\<lambda>c. if c = dquote then [dquote, dquote] else [c]) f) @ [dquote]
      else f)"

definition csv_record :: "string list \<Rightarrow> string" where
  "csv_record fs = Join (map csv_field fs) '','' @ [newline]"

subsection \<open>A reader of CSV\<close>

text \<open>
  A reader of RFC 4180, as a consumer of the export has one: fields separated by commas, rows ended
  by newlines, a quote at the beginning of a field opens a quoted field in which two quotes are one.
  The first argument is the mode (at the start of a field, in a plain field, in a quoted field, after
  a quote in a quoted field), then the field and the row read so far, both reversed.
\<close>

datatype csv_mode = FieldStart | Plain | Quoted | QuoteSeen

fun csv_read :: "csv_mode \<Rightarrow> string \<Rightarrow> string list \<Rightarrow> string \<Rightarrow> string list list" where
  "csv_read m f row [] = (if f = [] \<and> row = [] \<and> m = FieldStart then [] else [rev (rev f # row)])"
| "csv_read Quoted f row (c # s) =
     (if c = dquote then csv_read QuoteSeen f row s else csv_read Quoted (c # f) row s)"
| "csv_read FieldStart f row (c # s) =
     (if c = dquote then csv_read Quoted [] row s
      else if c = CHR '','' then csv_read FieldStart [] (rev f # row) s
      else if c = newline then rev (rev f # row) # csv_read FieldStart [] [] s
      else csv_read Plain (c # f) row s)"
| "csv_read QuoteSeen f row (c # s) =
     (if c = dquote then csv_read Quoted (dquote # f) row s
      else if c = CHR '','' then csv_read FieldStart [] (rev f # row) s
      else if c = newline then rev (rev f # row) # csv_read FieldStart [] [] s
      else csv_read Plain (c # f) row s)"
| "csv_read Plain f row (c # s) =
     (if c = CHR '','' then csv_read FieldStart [] (rev f # row) s
      else if c = newline then rev (rev f # row) # csv_read FieldStart [] [] s
      else csv_read Plain (c # f) row s)"

definition csv_parse :: "string \<Rightarrow> string list list" where
  "csv_parse s = csv_read FieldStart [] [] s"

lemma csv_read_quoted:
  "csv_read Quoted f row (concat (map (\<lambda>c. if c = dquote then [dquote, dquote] else [c]) t) @ dquote # s) =
     csv_read QuoteSeen (rev t @ f) row s"
  by (induction t arbitrary: f) simp_all

lemma csv_read_plain:
  "list_all (\<lambda>c. \<not> csv_special c) t \<Longrightarrow> csv_read Plain f row (t @ s) = csv_read Plain (rev t @ f) row s"
  by (induction t arbitrary: f) (simp_all add: csv_special_def)

text \<open>A written field followed by a separator reads back as itself.\<close>

lemma csv_read_field:
  "csv_read FieldStart [] row (csv_field f @ CHR '','' # s) = csv_read FieldStart [] (f # row) s"
  "csv_read FieldStart [] row (csv_field f @ newline # s) = rev (f # row) # csv_read FieldStart [] [] s"
proof -
  have plain: "list_all (\<lambda>c. \<not> csv_special c) f" if "\<not> fieldNeedsQuotes f"
    using that by (auto simp: fieldNeedsQuotes_def list_ex_iff list_all_iff split: if_splits)
  have start: "csv_read FieldStart [] row (f @ CHR '','' # s) = csv_read FieldStart [] (f # row) s \<and>
      csv_read FieldStart [] row (f @ newline # s) = rev (f # row) # csv_read FieldStart [] [] s"
    if "list_all (\<lambda>c. \<not> csv_special c) f"
    using that csv_read_plain [of "tl f"] by (cases f) (auto simp: csv_special_def)
  show "csv_read FieldStart [] row (csv_field f @ CHR '','' # s) = csv_read FieldStart [] (f # row) s"
    using start plain csv_read_quoted [of "[]" row f "CHR '','' # s"] by (auto simp: csv_field_def)
  show "csv_read FieldStart [] row (csv_field f @ newline # s) = rev (f # row) # csv_read FieldStart [] [] s"
    using start plain csv_read_quoted [of "[]" row f "newline # s"] by (auto simp: csv_field_def)
qed

lemma csv_read_record:
  "fs \<noteq> [] \<Longrightarrow> csv_read FieldStart [] row (csv_record fs @ s) = (rev row @ fs) # csv_read FieldStart [] [] s"
proof (induction fs arbitrary: row)
  case (Cons f fs)
  then show ?case by (cases fs) (simp_all add: csv_record_def csv_read_field)
qed simp

lemma csv_round_trip: "(\<And>fs. fs \<in> set rows \<Longrightarrow> fs \<noteq> []) \<Longrightarrow> csv_parse (concat (map csv_record rows)) = rows"
  unfolding csv_parse_def by (induction rows) (simp_all add: csv_read_record)

subsection \<open>encoding/xml\<close>

definition xml_rune :: "nat \<times> string \<Rightarrow> string" where
  "xml_rune x =
     (let (c, bs) = x in
      if c = 34 then ''&#34;'' else if c = 39 then ''&#39;'' else if c = 38 then ''&amp;''
      else if c = 60 then ''&lt;'' else if c = 62 then ''&gt;''
      else if c = 9 then ''&#x9;'' else if c = 10 then ''&#xA;'' else if c = 13 then ''&#xD;''
      else if (c < 32 \<or> c = 65534 \<or> c = 65535) \<or> (c = RuneError \<and> length bs = 1) then encode_rune RuneError
      else bs)"

definition xml_escape :: "string \<Rightarrow> string" where
  "xml_escape s = concat (map xml_rune (runes s))"

end
