(* ===== verification/Scraper.thy ===== *)
theory Scraper
  imports Tor_Client Go_Text
begin

section \<open>Reading a page: scraper.go, extract.go, categorizer.go\<close>

text \<open>
  \<open>ScrapePage\<close> from the response to the stored fields and the links, the extraction of entities with its
  regular expressions, and the categorizer. The HTML library is the argument \<open>html\<close>: what its
  selectors yield for a body, None for a parse error. A panic of the Go runtime is a value of its own.

  All classes of the regular expressions are ASCII and so is \<open>\b\<close>, hence matching bytes is matching
  runes.
\<close>

subsection \<open>Strings\<close>

function truncate_back :: "string \<Rightarrow> string" where
  "truncate_back b = (if b \<noteq> [] \<and> \<not> RuneStart (last b) then truncate_back (butlast b) else b)"
  by pat_completeness auto

termination
  by (relation "measure length") auto

declare truncate_back.simps [simp del]

definition truncateUTF8 :: "string \<Rightarrow> nat \<Rightarrow> string" where
  "truncateUTF8 s maxBytes = (if length s \<le> maxBytes then s else truncate_back (take maxBytes s))"

fun dedup_loop :: "string list \<Rightarrow> string list \<Rightarrow> string list" where
  "dedup_loop seen [] = []"
| "dedup_loop seen (v # vs) = (if v \<in> set seen then dedup_loop seen vs else v # dedup_loop (v # seen) vs)"

definition removeDuplicates :: "string list \<Rightarrow> string list" where
  "removeDuplicates elements = dedup_loop [] elements"

definition regex_space :: "char \<Rightarrow> bool" where
  "regex_space c = (byte c \<in> {9, 10, 12, 13, 32})"

text \<open>\<open>spaceRegex.ReplaceAllString(s, " ")\<close>: one blank for every run.\<close>

fun collapse_space :: "bool \<Rightarrow> string \<Rightarrow> string" where
  "collapse_space inrun [] = []"
| "collapse_space inrun (c # s) =
     (if regex_space c then (if inrun then collapse_space True s else CHR '' '' # collapse_space True s)
      else c # collapse_space False s)"

text \<open>\<open>strings.Index\<close>.\<close>

fun index_of :: "string \<Rightarrow> string \<Rightarrow> nat option" where
  "index_of sub [] = (if sub = [] then Some 0 else None)"
| "index_of sub (c # s) = (if prefix sub (c # s) then Some 0 else map_option Suc (index_of sub s))"

subsection \<open>Regular expressions\<close>

datatype re = Bound | Rep "char \<Rightarrow> bool" nat "nat option"

definition is_word :: "char \<Rightarrow> bool" where "is_word c = (is_alnum c \<or> c = CHR ''_'')"

fun first_some :: "'a option list \<Rightarrow> 'a option" where
  "first_some [] = None"
| "first_some (x # xs) = (case x of None \<Rightarrow> first_some xs | Some y \<Rightarrow> Some y)"

text \<open>
  A match at the start of \<open>s\<close>: its length, greedy repetitions first. \<open>w\<close> tells whether the character
  before is a word character.
\<close>

fun re_match :: "re list \<Rightarrow> bool \<Rightarrow> string \<Rightarrow> nat option" where
  "re_match [] w s = Some 0"
| "re_match (Bound # rs) w s = (if w \<noteq> (s \<noteq> [] \<and> is_word (hd s)) then re_match rs w s else None)"
| "re_match (Rep p lo hi # rs) w s =
     (let run = length (takeWhile p s); top = (case hi of None \<Rightarrow> run | Some h \<Rightarrow> min h run) in
      first_some (map (\<lambda>k. map_option ((+) k) (re_match rs (if k = 0 then w else is_word (s ! (k - 1))) (drop k s)))
        (rev [lo..<Suc top])))"

text \<open>\<open>FindAllString(s, -1)\<close> of an expression that matches no empty string.\<close>

function find_all :: "re list \<Rightarrow> bool \<Rightarrow> string \<Rightarrow> string list" where
  "find_all r w s =
     (case s of [] \<Rightarrow> []
      | c # t \<Rightarrow>
         (case re_match r w s of
            None \<Rightarrow> find_all r (is_word c) t
          | Some n \<Rightarrow>
              if n = 0 then find_all r (is_word c) t
              else take n s # find_all r (is_word (s ! (n - 1))) (drop n s)))"
  by pat_completeness auto

termination
  by (relation "measure (\<lambda>(r, w, s). length s)") auto

declare find_all.simps [simp del]

definition re_one :: "(char \<Rightarrow> bool) \<Rightarrow> re" where "re_one p = Rep p 1 (Some 1)"

definition re_lit :: "string \<Rightarrow> re list" where "re_lit s = map (\<lambda>c. re_one (\<lambda>x. x = c)) s"

definition base58 :: "char \<Rightarrow> bool" where
  "base58 c = (is_alnum c \<and> c \<noteq> CHR ''0'' \<and> c \<noteq> CHR ''O'' \<and> c \<noteq> CHR ''I'' \<and> c \<noteq> CHR ''l'')"

definition bech32 :: "char \<Rightarrow> bool" where
  "bech32 c = ((is_lower c \<and> c \<noteq> CHR ''b'' \<and> c \<noteq> CHR ''i'' \<and> c \<noteq> CHR ''o'') \<or> c = CHR ''0'' \<or> (50 \<le> byte c \<and> byte c \<le> 57))"

definition reBTCLegacy :: "re list" where
  "reBTCLegacy = [Bound, re_one (\<lambda>c. c = CHR ''1'' \<or> c = CHR ''3''), Rep base58 25 (Some 34), Bound]"

definition reBTCBech32 :: "re list" where
  "reBTCBech32 = Bound # re_lit ''bc1'' @ [Rep bech32 11 (Some 71), Bound]"

definition reXMR :: "re list" where
  "reXMR = [Bound, re_one (\<lambda>c. c = CHR ''4'' \<or> c = CHR ''8''),
     re_one (\<lambda>c. is_digit c \<or> c = CHR ''A'' \<or> c = CHR ''B''), Rep base58 93 (Some 93), Bound]"

definition reETH :: "re list" where
  "reETH = Bound # re_lit ''0x'' @ [Rep ishex 40 (Some 40), Bound]"

definition reEmail :: "re list" where
  "reEmail = [Bound, Rep (\<lambda>c. is_alnum c \<or> c \<in> set ''._%+-'') 1 None, re_one (\<lambda>c. c = CHR ''@''),
     Rep (\<lambda>c. is_alnum c \<or> c \<in> set ''.-'') 1 None, re_one (\<lambda>c. c = CHR ''.''), Rep is_alpha 2 None, Bound]"

definition rePGP :: "re list" where "rePGP = re_lit ''-----BEGIN PGP PUBLIC KEY BLOCK-----''"

subsection \<open>extract.go\<close>

record Entities =
  BTC :: "string list"
  XMR :: "string list"
  ETH :: "string list"
  Emails :: "string list"
  PGPKeys :: nat

definition Entities_Empty :: "Entities \<Rightarrow> bool" where
  "Entities_Empty e = (BTC e = [] \<and> XMR e = [] \<and> ETH e = [] \<and> Emails e = [] \<and> PGPKeys e = 0)"

definition maxEntitiesPerKind :: nat where "maxEntitiesPerKind = 50"

fun cap_loop :: "string list \<Rightarrow> string list \<Rightarrow> string list" where
  "cap_loop out [] = out"
| "cap_loop out (s # ss) =
     (if s \<in> set out then cap_loop out ss
      else if length (out @ [s]) \<ge> maxEntitiesPerKind then out @ [s] else cap_loop (out @ [s]) ss)"

definition capUnique :: "string list \<Rightarrow> string list" where "capUnique xs = cap_loop [] xs"

definition ExtractEntities :: "string \<Rightarrow> Entities" where
  "ExtractEntities content =
     \<lparr>BTC = capUnique (find_all reBTCLegacy False content @ find_all reBTCBech32 False content),
      XMR = capUnique (find_all reXMR False content), ETH = capUnique (find_all reETH False content),
      Emails = capUnique (find_all reEmail False content), PGPKeys = length (find_all rePGP False content)\<rparr>"

subsection \<open>categorizer.go\<close>

definition CategoryUnknown :: string where "CategoryUnknown = ''unknown''"

definition categoryRules :: "(string \<times> string list) list" where
  "categoryRules =
    [(''marketplace'', [''marketplace'', ''market'', ''shop'', ''store'', ''buy'', ''sell'', ''vendor'', ''listing'',
        ''product'', ''cart'', ''checkout'', ''escrow'', ''bitcoin'', ''monero'', ''drugs'', ''weapons'', ''accounts'',
        ''carding'', ''cvv'']),
     (''hacking'', [''exploit'', ''malware'', ''ransomware'', ''botnet'', ''rat '', ''stealer'', ''hacking'', ''hacker'',
        ''ddos'', ''0day'', ''zero-day'', ''cracked'', ''brute force'', ''phishing'', ''keylogger'', ''rootkit'']),
     (''crypto-service'', [''mixer'', ''tumbler'', ''bitcoin mixer'', ''coin mixing'', ''exchange'', ''swap'',
        ''clean coins'', ''launder'', ''wallet'', ''mixing service'', ''anonymous bitcoin'', ''monero exchange'']),
     (''hosting'', [''hosting'', ''host your'', ''image host'', ''file host'', ''upload'', ''pastebin'', ''paste'',
        ''tor hosting'', ''onion hosting'', ''web hosting'', ''vps'', ''server rental'']),
     (''search-engine'', [''search engine'', ''search the dark'', ''find onion'', ''onion search'', ''torch'', ''ahmia'',
        ''haystack'', ''not evil'', ''dark search'']),
     (''directory'', [''directory'', ''hidden wiki'', ''link list'', ''onion links'', ''dark web links'',
        ''fresh onions'', ''index of'', ''.onion directory'', ''onion index'']),
     (''wiki'', [''wiki'', ''encyclopedia'', ''knowledge base'', ''documentation'', ''howto'', ''how to'', ''tutorial'',
        ''guide'', ''faq'']),
     (''forum'', [''forum'', ''board'', ''thread'', ''post'', ''reply'', ''member'', ''registration'', ''login'',
        ''signup'', ''community'', ''discussion'', ''subforum'', ''topic'']),
     (''news'', [''news'', ''breaking'', ''headline'', ''article'', ''report'', ''journalist'', ''press'',
        ''whistleblow'', ''leak'', ''transparency'']),
     (''blog'', [''blog'', ''post'', ''entry'', ''archive'', ''written by'', ''author'', ''subscribe'', ''newsletter'',
        ''opinion'', ''diary'']),
     (''social'', [''chat'', ''messenger'', ''social'', ''profile'', ''follow'', ''message'', ''friend'', ''contact'',
        ''anonymous chat'', ''jabber'', ''xmpp''])]"

definition category_score :: "string \<Rightarrow> string list \<Rightarrow> nat" where
  "category_score combined kws = length (filter (Contains combined) kws)"

definition category_step :: "string \<Rightarrow> string \<times> nat \<Rightarrow> string \<times> string list \<Rightarrow> string \<times> nat" where
  "category_step combined best rule =
     (let score = category_score combined (snd rule) in if score > snd best then (fst rule, score) else best)"

definition Categorize :: "platform \<Rightarrow> string \<Rightarrow> string \<Rightarrow> string" where
  "Categorize P title content =
     fst (foldl (category_step (lower P (title @ '' '' @ content))) (CategoryUnknown, 1) categoryRules)"

subsection \<open>encoding/json\<close>

definition json_hex4 :: "nat \<Rightarrow> string" where
  "json_hex4 n = [chr 92] @ ''u'' @ map hex_digit (to_digits 16 4 n)"

definition json_rune :: "nat \<times> string \<Rightarrow> string" where
  "json_rune x =
     (let c = fst x in
      if c = 34 \<or> c = 92 then [chr 92, chr c]
      else if c = 8 then [chr 92] @ ''b'' else if c = 12 then [chr 92] @ ''f''
      else if c = 10 then [chr 92] @ ''n'' else if c = 13 then [chr 92] @ ''r'' else if c = 9 then [chr 92] @ ''t''
      else if c < 32 \<or> c = 60 \<or> c = 62 \<or> c = 38 then json_hex4 c
      else if c = RuneError \<and> length (snd x) = 1 then json_hex4 RuneError
      else if c = 8232 \<or> c = 8233 then json_hex4 c
      else snd x)"

definition json_string :: "string \<Rightarrow> string" where
  "json_string s = [dquote] @ concat (map json_rune (runes s)) @ [dquote]"

definition json_strings :: "string list \<Rightarrow> string" where
  "json_strings xs = ''['' @ Join (map json_string xs) '','' @ '']''"

definition json_object :: "(string \<times> string) list \<Rightarrow> string" where
  "json_object kvs = CHR 0x7B # Join (map (\<lambda>kv. json_string (fst kv) @ '':'' @ snd kv) kvs) '','' @ [CHR 0x7D]"

text \<open>The fields tagged \<open>omitempty\<close>.\<close>

definition json_entities :: "Entities \<Rightarrow> string" where
  "json_entities e =
     json_object (concat (map (\<lambda>kv. if snd kv = [] then [] else [(fst kv, json_strings (snd kv))])
         [(''btc'', BTC e), (''xmr'', XMR e), (''eth'', ETH e), (''emails'', Emails e)]) @
       (if PGPKeys e = 0 then [] else [(''pgp_keys'', nat_str (PGPKeys e))]))"

subsection \<open>scraper.go\<close>

text \<open>
  What the selectors yield: the text of \<open>title\<close>, the text of \<open>body\<close> after the removals, name and content of
  every \<open>meta\<close>, the four kinds of reference, and the content of every refresh.
\<close>

record page =
  pg_title :: string
  pg_text :: string
  pg_metas :: "(string \<times> string) list"
  pg_hrefs :: "string list"
  pg_areas :: "string list"
  pg_links :: "string list"
  pg_actions :: "string list"
  pg_refresh :: "string list"

type_synonym html_lib = "string \<Rightarrow> page option"

record ScrapeResult =
  Title :: string
  Content :: string
  FoundOnions :: "string list"
  ServerHeader :: string
  StatusCode :: int
  Metadata :: string
  Category :: string

datatype scrape = ScrapeError | ScrapePanic | Scraped ScrapeResult

definition maxContentBytes :: nat where "maxContentBytes = 100 * 1024"
definition maxFoundOnions :: nat where "maxFoundOnions = 300"

definition refused_schemes :: "string list" where
  "refused_schemes = [''javascript:'', ''mailto:'', ''data:'', ''vbscript:'', ''file:'']"

text \<open>\<open>collectOnion\<close>: what it appends.\<close>

definition collectOnion :: "platform \<Rightarrow> url \<Rightarrow> string \<Rightarrow> string list" where
  "collectOnion P base href =
     (let low = lower P (TrimSpace href) in
      if low = [] \<or> low = ''#'' \<or> list_ex (\<lambda>p. prefix p low) refused_schemes then []
      else case url_Parse P (TrimSpace href) of
        None \<Rightarrow> []
      | Some parsed \<Rightarrow>
          let r0 = ResolveReference base parsed;
              r1 = r0\<lparr>u_fragment := [], u_scheme := lower P (u_scheme r0), u_host := lower P (u_host r0)\<rparr>;
              r2 = (if u_path r1 = [] then r1\<lparr>u_path := ''/''\<rparr> else r1)
          in if IsV3URL P (url_String r2) then [url_String r2] else [])"

text \<open>The target of a refresh: None is the panic of a slice out of range.\<close>

definition refresh_links :: "platform \<Rightarrow> url \<Rightarrow> string \<Rightarrow> string list option" where
  "refresh_links P base content =
     (case index_of ''url='' (lower P content) of
        None \<Rightarrow> Some []
      | Some idx \<Rightarrow>
          if idx + 4 > length content then None
          else Some (collectOnion P base (TrimSpace (drop (idx + 4) content))))"

fun all_refresh :: "platform \<Rightarrow> url \<Rightarrow> string list \<Rightarrow> string list option" where
  "all_refresh P base [] = Some []"
| "all_refresh P base (c # cs) =
     (case refresh_links P base c of None \<Rightarrow> None
      | Some ls \<Rightarrow> map_option ((@) ls) (all_refresh P base cs))"

definition page_links :: "platform \<Rightarrow> url \<Rightarrow> page \<Rightarrow> string list option" where
  "page_links P base pg =
     map_option (\<lambda>rs. take maxFoundOnions (removeDuplicates
         (concat (map (collectOnion P base) (pg_hrefs pg @ pg_areas pg @ pg_links pg @ pg_actions pg)) @ rs)))
       (all_refresh P base (pg_refresh pg))"

definition page_metadata :: "page \<Rightarrow> string \<Rightarrow> string" where
  "page_metadata pg content =
     (let get = (\<lambda>name. map (\<lambda>m. truncateUTF8 (TrimSpace (snd m)) 1000) (filter (\<lambda>m. fst m = name) (pg_metas pg)));
          meta = (\<lambda>name. if get name = [] then [] else [(name, json_string (last (get name)))]);
          ents = ExtractEntities content;
          kvs = meta ''description'' @ (if Entities_Empty ents then [] else [(''entities'', json_entities ents)]) @
                meta ''keywords''
      in if kvs = [] then ''{}'' else json_object kvs)"

definition html_type :: "string \<Rightarrow> bool" where
  "html_type ct = (ct = [] \<or> Contains ct ''text/html'' \<or> Contains ct ''text/plain'' \<or> Contains ct ''xml'')"

text \<open>From the response to the result.\<close>

definition scrape_reply :: "platform \<Rightarrow> html_lib \<Rightarrow> url \<Rightarrow> http_reply \<Rightarrow> scrape" where
  "scrape_reply P html base resp =
     (let r0 = \<lparr>Title = [], Content = [], FoundOnions = [], ServerHeader = truncateUTF8 (hr_header resp ''Server'') 100,
                StatusCode = hr_status resp, Metadata = ''{}'', Category = ''unknown''\<rparr> in
      if \<not> html_type (hr_header resp ''Content-Type'') then Scraped r0
      else case html (take (1024 * 1024) (hr_body resp)) of
        None \<Rightarrow> Scraped r0
      | Some pg \<Rightarrow>
          let title = truncateUTF8 (TrimSpace (pg_title pg)) 512;
              content = truncateUTF8 (TrimSpace (collapse_space False (pg_text pg))) maxContentBytes
          in (case page_links P base pg of
                None \<Rightarrow> ScrapePanic
              | Some links \<Rightarrow>
                  Scraped (r0\<lparr>Title := title, Content := content, FoundOnions := links,
                    Metadata := page_metadata pg content, Category := Categorize P title content\<rparr>)))"

text \<open>The second component lists the URLs contacted.\<close>

definition ScrapePage :: "platform \<Rightarrow> wire \<Rightarrow> html_lib \<Rightarrow> string \<Rightarrow> scrape \<times> url list" where
  "ScrapePage P wire html targetURL =
     (case url_Parse P targetURL of
        None \<Rightarrow> (ScrapeError, [])
      | Some base \<Rightarrow>
          (case client_Do P wire targetURL of
             (None, us) \<Rightarrow> (ScrapeError, us)
           | (Some resp, us) \<Rightarrow> (scrape_reply P html base resp, us)))"

subsection \<open>Cutting and collecting\<close>

lemma truncate_back_prefix: "prefix (truncate_back b) b"
proof (induction b rule: truncate_back.induct)
  case (1 b)
  show ?case
  proof (cases "b \<noteq> [] \<and> \<not> RuneStart (last b)")
    case True
    then have "prefix (truncate_back (butlast b)) (butlast b)" using 1 by blast
    moreover have "prefix (butlast b) b" using True by (metis append_butlast_last_id prefixI)
    ultimately show ?thesis using True by (simp add: truncate_back.simps [of b] prefix_order.trans)
  qed (subst truncate_back.simps, auto)
qed

lemma truncateUTF8_prefix: "prefix (truncateUTF8 s n) s" "length (truncateUTF8 s n) \<le> n"
proof -
  have p: "prefix (truncate_back (take n s)) (take n s)" by (rule truncate_back_prefix)
  show "prefix (truncateUTF8 s n) s"
    using p by (auto simp: truncateUTF8_def intro: prefix_order.trans take_is_prefix)
  show "length (truncateUTF8 s n) \<le> n"
    using prefix_length_le [OF p] by (auto simp: truncateUTF8_def)
qed

lemma dedup_loop_ok: "distinct (dedup_loop seen vs) \<and> set (dedup_loop seen vs) = set vs - set seen"
  by (induction seen vs rule: dedup_loop.induct) auto

lemma cap_loop_ok:
  "distinct out \<Longrightarrow> length out < maxEntitiesPerKind \<Longrightarrow>
     distinct (cap_loop out ss) \<and> length (cap_loop out ss) \<le> maxEntitiesPerKind \<and> set (cap_loop out ss) \<subseteq> set out \<union> set ss"
  by (induction out ss rule: cap_loop.induct) auto

lemma capUnique_ok:
  "distinct (capUnique ss) \<and> length (capUnique ss) \<le> maxEntitiesPerKind \<and> set (capUnique ss) \<subseteq> set ss"
  using cap_loop_ok [of "[]" ss] by (simp add: capUnique_def maxEntitiesPerKind_def)

text \<open>Under the cap nothing is lost.\<close>

lemma cap_loop_all: "length out + length ss < maxEntitiesPerKind \<Longrightarrow> set (cap_loop out ss) = set out \<union> set ss"
  by (induction out ss rule: cap_loop.induct) auto

lemma collectOnion_v3: "l \<in> set (collectOnion P base href) \<Longrightarrow> IsV3URL P l"
  by (auto simp: collectOnion_def Let_def split: if_splits option.splits)

lemma all_refresh_v3: "all_refresh P base cs = Some ls \<Longrightarrow> l \<in> set ls \<Longrightarrow> IsV3URL P l"
  by (induction cs arbitrary: ls)
    (auto simp: refresh_links_def collectOnion_v3 split: option.splits if_splits)

lemma page_links_ok:
  assumes "page_links P base pg = Some ls"
  shows "length ls \<le> maxFoundOnions" "distinct ls" "l \<in> set ls \<Longrightarrow> IsV3URL P l"
proof -
  obtain rs where r: "all_refresh P base (pg_refresh pg) = Some rs"
    and ls: "ls = take maxFoundOnions (removeDuplicates
      (concat (map (collectOnion P base) (pg_hrefs pg @ pg_areas pg @ pg_links pg @ pg_actions pg)) @ rs))"
    using assms by (auto simp: page_links_def)
  show "length ls \<le> maxFoundOnions" "distinct ls" using ls dedup_loop_ok by (simp_all add: removeDuplicates_def)
  show "IsV3URL P l" if "l \<in> set ls"
  proof -
    have "l \<in> set (concat (map (collectOnion P base) (pg_hrefs pg @ pg_areas pg @ pg_links pg @ pg_actions pg)) @ rs)"
      using that ls dedup_loop_ok by (auto simp: removeDuplicates_def dest!: in_set_takeD)
    then show ?thesis using collectOnion_v3 all_refresh_v3 [OF r] by auto
  qed
qed

subsection \<open>The categorizer\<close>

definition category_scores :: "string \<Rightarrow> (string \<times> nat) list" where
  "category_scores combined = map (\<lambda>r. (fst r, category_score combined (snd r))) categoryRules"

text \<open>The reference: the first category of the highest score, if that is at least two.\<close>

definition best_category :: "(string \<times> nat) list \<Rightarrow> string" where
  "best_category scores =
     (let top = Max (insert 1 (snd ` set scores)) in
      if top < 2 then CategoryUnknown else fst (hd (filter (\<lambda>s. snd s = top) scores)))"

lemma category_step_eq:
  "category_step t (c, b) r = (if category_score t (snd r) > b then (fst r, category_score t (snd r)) else (c, b))"
  by (simp add: category_step_def)

lemma category_fold:
  assumes "foldl (category_step t) (c, b) rules = (c', b')"
  shows "b \<le> b' \<and> (\<forall>r \<in> set rules. category_score t (snd r) \<le> b') \<and>
    (b' = b \<and> c' = c \<or> b < b' \<and> (\<exists>xs r ys. rules = xs @ r # ys \<and> fst r = c' \<and> category_score t (snd r) = b' \<and>
       (\<forall>x \<in> set xs. category_score t (snd x) < b')))"
  using assms
proof (induction rules arbitrary: c b)
  case (Cons r rules)
  show ?case
  proof (cases "category_score t (snd r) > b")
    case True
    then have f: "foldl (category_step t) (fst r, category_score t (snd r)) rules = (c', b')"
      using Cons.prems by (simp add: category_step_eq)
    note ih = Cons.IH [OF f]
    show ?thesis
    proof (cases "b' = category_score t (snd r) \<and> c' = fst r")
      case now: True
      have "\<exists>xs r' ys. r # rules = xs @ r' # ys \<and> fst r' = c' \<and> category_score t (snd r') = b' \<and>
          (\<forall>x \<in> set xs. category_score t (snd x) < b')"
        by (rule exI [of _ "[]"]) (use now in auto)
      then show ?thesis using ih True now by auto
    next
      case False
      then obtain xs r' ys where s: "rules = xs @ r' # ys" "fst r' = c'" "category_score t (snd r') = b'"
        "\<forall>x \<in> set xs. category_score t (snd x) < b'" "category_score t (snd r) < b'" using ih by blast
      have "\<exists>xs r' ys. r # rules = xs @ r' # ys \<and> fst r' = c' \<and> category_score t (snd r') = b' \<and>
          (\<forall>x \<in> set xs. category_score t (snd x) < b')"
        by (rule exI [of _ "r # xs"]) (use s in auto)
      then show ?thesis using ih True s(5) by auto
    qed
  next
    case False
    then have f: "foldl (category_step t) (c, b) rules = (c', b')"
      using Cons.prems by (simp add: category_step_eq)
    note ih = Cons.IH [OF f]
    show ?thesis
    proof (cases "b' = b \<and> c' = c")
      case True
      then show ?thesis using ih False by auto
    next
      case n: False
      then obtain xs r' ys where s: "rules = xs @ r' # ys" "fst r' = c'" "category_score t (snd r') = b'"
        "\<forall>x \<in> set xs. category_score t (snd x) < b'" "b < b'" using ih by blast
      have "\<exists>xs r' ys. r # rules = xs @ r' # ys \<and> fst r' = c' \<and> category_score t (snd r') = b' \<and>
          (\<forall>x \<in> set xs. category_score t (snd x) < b')"
        by (rule exI [of _ "r # xs"]) (use s False in auto)
      then show ?thesis using ih False s(5) by auto
    qed
  qed
qed simp

lemma filter_first: "\<forall>x \<in> set xs. \<not> Q x \<Longrightarrow> Q r \<Longrightarrow> hd (filter Q (xs @ r # ys)) = r"
  by (induction xs) auto

text \<open>
  C23. The categorizer returns the first category, in the order of the rules, whose number of keywords
  found in title and text is the highest, and \<open>unknown\<close> when no category has two.
\<close>

theorem Categorize_correct:
  "Categorize P title content = best_category (category_scores (lower P (title @ '' '' @ content)))"
proof -
  let ?t = "lower P (title @ '' '' @ content)"
  obtain c b where f: "foldl (category_step ?t) (CategoryUnknown, 1) categoryRules = (c, b)" by force
  note cf = category_fold [OF f]
  let ?S = "insert 1 (snd ` set (category_scores ?t))"
  have le: "\<forall>x \<in> ?S. x \<le> b" using cf by (auto simp: category_scores_def)
  have "b \<in> ?S"
  proof (cases "b = 1")
    case False
    then obtain xs r ys where "categoryRules = xs @ r # ys" "category_score ?t (snd r) = b" using cf by blast
    then have "r \<in> set categoryRules" "b = snd (fst r, category_score ?t (snd r))" by (metis in_set_conv_decomp, simp)
    then have "b \<in> snd ` set (category_scores ?t)" unfolding category_scores_def by (simp add: image_image)
    then show ?thesis by simp
  qed simp
  then have top: "Max ?S = b" using le by (intro Max_eqI) auto
  show ?thesis
  proof (cases "b < 2")
    case True
    then have "c = CategoryUnknown" using cf by auto
    with True show ?thesis unfolding Categorize_def best_category_def Let_def top f by simp
  next
    case False
    then obtain xs r ys where s: "categoryRules = xs @ r # ys" "fst r = c" "category_score ?t (snd r) = b"
      "\<forall>x \<in> set xs. category_score ?t (snd x) < b" using cf by fastforce
    let ?f = "\<lambda>r. (fst r, category_score ?t (snd r))"
    have "hd (filter (\<lambda>x. snd x = b) (map ?f xs @ ?f r # map ?f ys)) = ?f r"
      by (rule filter_first) (use s in auto)
    then have "fst (hd (filter (\<lambda>x. snd x = b) (category_scores ?t))) = c"
      unfolding category_scores_def s(1) map_append list.map using s(2) by simp
    with False show ?thesis unfolding Categorize_def best_category_def Let_def top f by simp
  qed
qed

subsection \<open>Bounds of a scrape\<close>

lemma ScrapePage_links:
  assumes "ScrapePage P wire html url = (Scraped r, us)"
  shows "length (FoundOnions r) \<le> maxFoundOnions"
  using assms
  by (auto simp: ScrapePage_def scrape_reply_def Let_def page_links_ok(1) split: option.splits prod.splits if_splits)


end
