(* ===== verification/Sitemap.thy ===== *)
theory Sitemap
  imports Tor_Client
begin

section \<open>Sitemaps: internal/crawler/sitemap.go\<close>

text \<open>
  \<open>encoding/xml\<close> is the argument \<open>xml\<close>: the \<open>loc\<close> entries of a body read as a sitemap index or as a set of
  URLs, None when the body does not unmarshal into that type. Every function also returns the URLs contacted.
\<close>

record sitemap_lib =
  sm_index :: "string \<Rightarrow> string list option"
  sm_urlset :: "string \<Rightarrow> string list option"

definition maxSitemapURLs :: nat where "maxSitemapURLs = 300"
definition maxChildSitemaps :: nat where "maxChildSitemaps = 50"

text \<open>The loop over the entries of a URL set.\<close>

fun urlset_loop :: "platform \<Rightarrow> string list \<Rightarrow> string list \<Rightarrow> string list" where
  "urlset_loop P result [] = result"
| "urlset_loop P result (loc # locs) =
     (let normalized = NormalizeURL P loc in
      if normalized = [] then urlset_loop P result locs
      else if length (result @ [normalized]) \<ge> maxSitemapURLs then result @ [normalized]
      else urlset_loop P (result @ [normalized]) locs)"

text \<open>The loop over the children of an index; \<open>i\<close> is the position of the entry.\<close>

fun index_loop ::
    "platform \<Rightarrow> (string \<Rightarrow> string list \<times> url list) \<Rightarrow> nat \<Rightarrow> string list \<Rightarrow> url list \<Rightarrow> string list \<Rightarrow> string list \<times> url list" where
  "index_loop P fetch i result us [] = (result, us)"
| "index_loop P fetch i result us (loc # locs) =
     (if i \<ge> maxChildSitemaps then (result, us)
      else let normalized = NormalizeURL P loc in
        if normalized = [] then index_loop P fetch (Suc i) result us locs
        else let (sub, us') = fetch normalized; result' = result @ sub in
          if length result' \<ge> maxSitemapURLs then (take maxSitemapURLs result', us @ us')
          else index_loop P fetch (Suc i) result' (us @ us') locs)"

text \<open>
  \<open>fetchAndParseSitemap\<close>: \<open>child\<close> is the call for the entries of an index, None when \<open>recurse\<close> is false.
\<close>

definition fetch_sitemap ::
    "platform \<Rightarrow> sitemap_lib \<Rightarrow> wire \<Rightarrow> (string \<Rightarrow> string list \<times> url list) option \<Rightarrow> string \<Rightarrow> string list \<times> url list" where
  "fetch_sitemap P xml wire child sitemapURL =
     (case client_Do P wire sitemapURL of
        (None, us) \<Rightarrow> ([], us)
      | (Some resp, us) \<Rightarrow>
          if hr_status resp \<noteq> 200 then ([], us)
          else let body = take (512 * 1024) (hr_body resp) in
            (case sm_index xml body of
               Some (l # ls) \<Rightarrow>
                 (case child of
                    None \<Rightarrow> ([], us)
                  | Some fetch \<Rightarrow> index_loop P fetch 0 [] us (l # ls))
             | _ \<Rightarrow>
                 (case sm_urlset xml body of
                    None \<Rightarrow> ([], us)
                  | Some locs \<Rightarrow> (urlset_loop P [] locs, us))))"

definition fetchAndParseSitemap ::
    "platform \<Rightarrow> sitemap_lib \<Rightarrow> wire \<Rightarrow> string \<Rightarrow> bool \<Rightarrow> string list \<times> url list" where
  "fetchAndParseSitemap P xml wire sitemapURL recurse =
     fetch_sitemap P xml wire (if recurse then Some (fetch_sitemap P xml wire None) else None) sitemapURL"

definition FetchSitemapURLs :: "platform \<Rightarrow> sitemap_lib \<Rightarrow> wire \<Rightarrow> string \<Rightarrow> string list \<times> url list" where
  "FetchSitemapURLs P xml wire siteURL =
     (case url_Parse P siteURL of
        None \<Rightarrow> ([], [])
      | Some parsed \<Rightarrow>
          fetchAndParseSitemap P xml wire (u_scheme parsed @ ''://'' @ u_host parsed @ ''/sitemap.xml'') True)"

subsection \<open>Bounds\<close>

definition canonical_link :: "platform \<Rightarrow> string \<Rightarrow> bool" where
  "canonical_link P l = (l \<noteq> [] \<and> (\<exists>raw. NormalizeURL P raw = l))"

lemma urlset_loop_ok:
  "length result < maxSitemapURLs \<Longrightarrow> list_all (canonical_link P) result \<Longrightarrow>
     length (urlset_loop P result locs) \<le> maxSitemapURLs \<and> list_all (canonical_link P) (urlset_loop P result locs)"
  by (induction P result locs rule: urlset_loop.induct) (auto simp: Let_def canonical_link_def)

lemma index_loop_ok:
  assumes "\<And>u. list_all (canonical_link P) (fst (fetch u))"
    and "length result < maxSitemapURLs" "list_all (canonical_link P) result"
  shows "length (fst (index_loop P fetch i result us locs)) \<le> maxSitemapURLs \<and>
    list_all (canonical_link P) (fst (index_loop P fetch i result us locs))"
  using assms
proof (induction P fetch i result us locs rule: index_loop.induct)
  case (2 P fetch i result us loc locs)
  obtain sub us' where f: "fetch (NormalizeURL P loc) = (sub, us')" by force
  have sub: "list_all (canonical_link P) sub" using 2(3) [of "NormalizeURL P loc"] f by simp
  show ?case
  proof (cases "i \<ge> maxChildSitemaps \<or> NormalizeURL P loc = []")
    case True
    then show ?thesis using 2(1,3-5) by auto
  next
    case ok: False
    show ?thesis
    proof (cases "length (result @ sub) \<ge> maxSitemapURLs")
      case True
      then show ?thesis using ok f sub 2(5) by (auto simp: list_all_iff dest: in_set_takeD)
    next
      case False
      then show ?thesis using 2(2) [of "NormalizeURL P loc" "(sub, us')" sub us' "result @ sub"] 2(3,5) ok f sub by auto
    qed
  qed
qed simp

lemma fetch_sitemap_alt:
  "fetch_sitemap P xml wire child u = ([], snd (client_Do P wire u)) \<or>
   (\<exists>locs. fetch_sitemap P xml wire child u = (urlset_loop P [] locs, snd (client_Do P wire u))) \<or>
   (\<exists>fetch locs. child = Some fetch \<and>
      fetch_sitemap P xml wire child u = index_loop P fetch 0 [] (snd (client_Do P wire u)) locs)"
proof -
  obtain res us where c: "client_Do P wire u = (res, us)" by force
  show ?thesis
  proof (cases res)
    case None
    then show ?thesis using c by (simp add: fetch_sitemap_def)
  next
    case (Some resp)
    let ?body = "take (512 * 1024) (hr_body resp)"
    show ?thesis
    proof (cases "hr_status resp = 200")
      case True
      then show ?thesis
        unfolding fetch_sitemap_def c Some prod.case option.case Let_def snd_conv
        by (cases "sm_index xml ?body"; cases child; cases "sm_urlset xml ?body"; cases "the (sm_index xml ?body)")
          (auto simp del: index_loop.simps urlset_loop.simps)
    qed (use c Some in \<open>simp add: fetch_sitemap_def\<close>)
  qed
qed

lemma fetch_sitemap_cases:
  obtains (none) "fetch_sitemap P xml wire child u = ([], snd (client_Do P wire u))"
  | (urls) locs where "fetch_sitemap P xml wire child u = (urlset_loop P [] locs, snd (client_Do P wire u))"
  | (index) fetch locs where "child = Some fetch"
      "fetch_sitemap P xml wire child u = index_loop P fetch 0 [] (snd (client_Do P wire u)) locs"
  using fetch_sitemap_alt [of P xml wire child u] by blast

lemma fetch_sitemap_ok:
  assumes "\<And>fetch u. child = Some fetch \<Longrightarrow> list_all (canonical_link P) (fst (fetch u))"
  shows "length (fst (fetch_sitemap P xml wire child u)) \<le> maxSitemapURLs \<and>
    list_all (canonical_link P) (fst (fetch_sitemap P xml wire child u))"
proof (cases rule: fetch_sitemap_cases [of P xml wire child u])
  case (urls locs)
  then show ?thesis using urlset_loop_ok [of "[]" P locs] by (simp add: maxSitemapURLs_def)
next
  case (index fetch locs)
  then show ?thesis using index_loop_ok [of P fetch "[]"] assms by (simp add: maxSitemapURLs_def)
qed simp

text \<open>Every URL a sitemap contributes is canonical, and there are at most three hundred of them.\<close>

lemma FetchSitemapURLs_ok:
  "length (fst (FetchSitemapURLs P xml wire site)) \<le> maxSitemapURLs \<and>
   list_all (canonical_link P) (fst (FetchSitemapURLs P xml wire site))"
  using fetch_sitemap_ok [of None P xml wire] fetch_sitemap_ok [of "Some (fetch_sitemap P xml wire None)" P xml wire]
  by (auto simp: FetchSitemapURLs_def fetchAndParseSitemap_def split: option.splits)

end
