(* ===== verification/Robots.thy ===== *)
theory Robots
  imports Go_Url "HOL-Library.AList"
begin

section \<open>robots.txt: internal/crawler/robots.go\<close>

text \<open>
  The parser, the cache with its expiry and eviction, \<open>IsAllowed\<close> and \<open>CrawlDelay\<close>. The
  HTTP client is the argument \<open>fetch\<close>: the status and the body \<open>client.Do\<close> returned for a
  URL, None for an error. The cache is an association list with distinct keys, in the order in
  which Go's \<open>range\<close> visits it; \<open>now\<close> is the clock reading of \<open>time.Since\<close>, \<open>now'\<close>
  that of \<open>fetchRobots\<close>. Each of the two critical sections of \<open>IsAllowed\<close> is a definition
  of its own (\<open>cache_lookup\<close>, \<open>cache_store\<close>), so other workers may run between them.
\<close>

record robotsEntry =
  re_disallowed :: "string list"
  re_crawlDelay :: duration
  re_fetchedAt :: time
  re_ttl :: duration

type_synonym robots_cache = "(string \<times> robotsEntry) list"

definition robots_maxSize :: nat where "robots_maxSize = 500"

definition robotsTTL :: duration where "robotsTTL = Hour"

definition robotsUA :: string where "robotsUA = ''OnionSpider''"

subsection \<open>The scanner\<close>

abbreviation nl :: char where "nl \<equiv> CHR 0x0A"

definition drop_cr :: "string \<Rightarrow> string" where
  "drop_cr s = (if s \<noteq> [] \<and> last s = CHR 0x0D then butlast s else s)"

text \<open>
  \<open>bufio.Scanner\<close> with \<open>ScanLines\<close> over at most 64 KiB: a full buffer without a newline
  is \<open>ErrTooLong\<close> and yields no line.
\<close>

definition scan_lines :: "string \<Rightarrow> string list" where
  "scan_lines body =
     (let b = take 65536 body; ls = Split nl b in
      if length b = 65536 \<and> nl \<notin> set b then []
      else map drop_cr (if last ls = [] then butlast ls else ls))"

subsection \<open>parseRobots\<close>

record robots_state =
  rs_disallowed :: "string list"
  rs_wildcardDelay :: duration
  rs_uaDelay :: duration
  rs_applies :: bool
  rs_uaSpecific :: bool

definition robots_start :: robots_state where
  "robots_start = \<lparr>rs_disallowed = [], rs_wildcardDelay = 0, rs_uaDelay = 0, rs_applies = False,
     rs_uaSpecific = False\<rparr>"

text \<open>The field and the value of a line; None for a comment, an empty line, one without a colon.\<close>

definition robots_directive :: "platform \<Rightarrow> string \<Rightarrow> (string \<times> string) option" where
  "robots_directive P raw =
     (let line = TrimSpace raw in
      if prefix ''#'' line \<or> line = [] then None
      else let (field, value, found) = Cut (CHR '':'') line in
        if \<not> found then None else Some (lower P (TrimSpace field), TrimSpace value))"

definition robots_line :: "platform \<Rightarrow> string \<Rightarrow> robots_state \<Rightarrow> string \<Rightarrow> robots_state" where
  "robots_line P ua st raw =
     (case robots_directive P raw of None \<Rightarrow> st
      | Some (field, value) \<Rightarrow>
         if field = ''user-agent'' then
           st\<lparr>rs_uaSpecific := EqualFold value ua, rs_applies := (value = ''*'' \<or> EqualFold value ua)\<rparr>
         else if field = ''disallow'' then
           (if rs_applies st \<and> value \<noteq> [] \<and> length (rs_disallowed st) < 1000
            then st\<lparr>rs_disallowed := rs_disallowed st @ [value]\<rparr> else st)
         else if field = ''crawl-delay'' then
           (if rs_applies st then
              (case secs_ns P value of None \<Rightarrow> st
               | Some d \<Rightarrow> if rs_uaSpecific st then st\<lparr>rs_uaDelay := d\<rparr>
                          else st\<lparr>rs_wildcardDelay := d\<rparr>)
            else st)
         else st)"

definition parseRobots :: "platform \<Rightarrow> string \<Rightarrow> string \<Rightarrow> string list \<times> duration" where
  "parseRobots P body ua =
     (let st = foldl (robots_line P ua) robots_start (scan_lines body) in
      (rs_disallowed st, if rs_uaDelay st > 0 then rs_uaDelay st else rs_wildcardDelay st))"

subsection \<open>The cache\<close>

type_synonym fetcher = "string \<Rightarrow> (int \<times> string) option"

definition fetchRobots :: "platform \<Rightarrow> fetcher \<Rightarrow> time \<Rightarrow> url \<Rightarrow> robotsEntry" where
  "fetchRobots P fetch now base =
     (let entry = \<lparr>re_disallowed = [], re_crawlDelay = 0, re_fetchedAt = now, re_ttl = robotsTTL\<rparr> in
      case fetch (u_scheme base @ ''://'' @ u_host base @ ''/robots.txt'') of
        None \<Rightarrow> entry
      | Some (status, body) \<Rightarrow>
          if status \<noteq> 200 then entry
          else let (dis, delay) = parseRobots P body robotsUA in
            entry\<lparr>re_disallowed := dis, re_crawlDelay := delay\<rparr>)"

text \<open>\<open>evictOldest\<close>: the scan keeps the current candidate, \<open>''''\<close> meaning none.\<close>

definition evict_scan :: "string \<times> time \<Rightarrow> string \<times> robotsEntry \<Rightarrow> string \<times> time" where
  "evict_scan cand kv =
     (if fst cand = [] \<or> re_fetchedAt (snd kv) < snd cand then (fst kv, re_fetchedAt (snd kv))
      else cand)"

definition evictOldest :: "robots_cache \<Rightarrow> robots_cache" where
  "evictOldest m =
     (let oldestKey = fst (foldl evict_scan ([], 0) m) in
      if oldestKey \<noteq> [] then AList.delete oldestKey m else m)"

definition cache_lookup :: "time \<Rightarrow> string \<Rightarrow> robots_cache \<Rightarrow> robotsEntry option \<times> robots_cache" where
  "cache_lookup now host m =
     (case map_of m host of
        Some entry \<Rightarrow>
          if now - re_fetchedAt entry > re_ttl entry then (None, AList.delete host m)
          else (Some entry, m)
      | None \<Rightarrow> (None, m))"

definition cache_store :: "string \<Rightarrow> robotsEntry \<Rightarrow> robots_cache \<Rightarrow> robots_cache" where
  "cache_store host entry m =
     AList.update host entry (if length m \<ge> robots_maxSize then evictOldest m else m)"

definition robots_entry ::
    "platform \<Rightarrow> fetcher \<Rightarrow> time \<Rightarrow> time \<Rightarrow> url \<Rightarrow> robots_cache \<Rightarrow> robotsEntry \<times> robots_cache" where
  "robots_entry P fetch now now' parsed m =
     (case cache_lookup now (u_host parsed) m of
        (Some entry, m') \<Rightarrow> (entry, m')
      | (None, m') \<Rightarrow>
          let entry = fetchRobots P fetch now' parsed in (entry, cache_store (u_host parsed) entry m'))"

definition path_allowed :: "string list \<Rightarrow> string \<Rightarrow> bool" where
  "path_allowed disallowed path0 =
     (let path = (if path0 = [] then ''/'' else path0) in
      \<not> list_ex (\<lambda>p. prefix p path) disallowed)"

definition IsAllowed ::
    "platform \<Rightarrow> fetcher \<Rightarrow> time \<Rightarrow> time \<Rightarrow> string \<Rightarrow> robots_cache \<Rightarrow> bool \<times> robots_cache" where
  "IsAllowed P fetch now now' targetURL m =
     (case url_Parse P targetURL of None \<Rightarrow> (True, m)
      | Some parsed \<Rightarrow>
         let (entry, m') = robots_entry P fetch now now' parsed m in
         (path_allowed (re_disallowed entry) (u_path parsed), m'))"

definition CrawlDelay ::
    "platform \<Rightarrow> fetcher \<Rightarrow> time \<Rightarrow> time \<Rightarrow> string \<Rightarrow> robots_cache \<Rightarrow> duration \<times> robots_cache" where
  "CrawlDelay P fetch now now' targetURL m =
     (case url_Parse P targetURL of None \<Rightarrow> (0, m)
      | Some parsed \<Rightarrow>
         let (entry, m') = robots_entry P fetch now now' parsed m in (re_crawlDelay entry, m'))"

subsection \<open>parseRobots against a reference\<close>

text \<open>
  The reference reads the directives once: a rule belongs to the last \<open>User-agent\<close> line
  above it.
\<close>

datatype group = NoGroup | Wildcard | Own

definition group_of :: "string \<Rightarrow> string \<Rightarrow> group" where
  "group_of ua value = (if EqualFold value ua then Own else if value = ''*'' then Wildcard else NoGroup)"

fun in_groups :: "string \<Rightarrow> group \<Rightarrow> (string \<times> string) list \<Rightarrow> (group \<times> string \<times> string) list" where
  "in_groups ua g [] = []"
| "in_groups ua g ((field, value) # ds) =
     (if field = ''user-agent'' then in_groups ua (group_of ua value) ds
      else (g, field, value) # in_groups ua g ds)"

definition rules_of :: "platform \<Rightarrow> string \<Rightarrow> string \<Rightarrow> (group \<times> string \<times> string) list" where
  "rules_of P body ua =
     in_groups ua NoGroup (List.map_filter (robots_directive P) (scan_lines body))"

definition disallow_rules :: "(group \<times> string \<times> string) list \<Rightarrow> string list" where
  "disallow_rules rs =
     map (\<lambda>(g, f, v). v) (filter (\<lambda>(g, f, v). g \<noteq> NoGroup \<and> f = ''disallow'' \<and> v \<noteq> []) rs)"

definition last_delay :: "platform \<Rightarrow> group \<Rightarrow> (group \<times> string \<times> string) list \<Rightarrow> duration \<Rightarrow> duration" where
  "last_delay P g rs d =
     foldl (\<lambda>d (g', f, v). if g' = g \<and> f = ''crawl-delay''
       then (case secs_ns P v of None \<Rightarrow> d | Some x \<Rightarrow> x) else d) d rs"

definition state_group :: "robots_state \<Rightarrow> group" where
  "state_group st = (if \<not> rs_applies st then NoGroup else if rs_uaSpecific st then Own else Wildcard)"

definition state_ok :: "robots_state \<Rightarrow> bool" where
  "state_ok st = ((rs_uaSpecific st \<longrightarrow> rs_applies st) \<and> length (rs_disallowed st) \<le> 1000)"

lemma robots_fold:
  assumes "state_ok st"
  shows "let st' = foldl (robots_line P ua) st ls;
             rs = in_groups ua (state_group st) (List.map_filter (robots_directive P) ls) in
         rs_disallowed st' = take 1000 (rs_disallowed st @ disallow_rules rs) \<and>
         rs_uaDelay st' = last_delay P Own rs (rs_uaDelay st) \<and>
         rs_wildcardDelay st' = last_delay P Wildcard rs (rs_wildcardDelay st)"
  using assms
proof (induction ls arbitrary: st)
  case Nil
  then show ?case by (simp add: disallow_rules_def last_delay_def state_ok_def)
next
  case (Cons l ls)
  have ok: "state_ok (robots_line P ua st l)"
    using Cons.prems by (auto simp: robots_line_def state_ok_def split: option.splits)
  note ih = Cons.IH [OF ok]
  show ?case
  proof (cases "robots_directive P l")
    case None
    with ih show ?thesis by (simp add: robots_line_def map_filter_simps)
  next
    case (Some fv)
    then obtain f v where fv: "robots_directive P l = Some (f, v)" by force
    let ?st = "robots_line P ua st l"
    consider "f = ''user-agent''" | "f = ''disallow''" | "f = ''crawl-delay''"
      | "f \<noteq> ''user-agent''" "f \<noteq> ''disallow''" "f \<noteq> ''crawl-delay''" by blast
    then show ?thesis
    proof cases
      case 1
      then have "state_group ?st = group_of ua v" "rs_disallowed ?st = rs_disallowed st"
        "rs_uaDelay ?st = rs_uaDelay st" "rs_wildcardDelay ?st = rs_wildcardDelay st"
        using fv by (auto simp: robots_line_def state_group_def group_of_def)
      with ih fv 1 show ?thesis by (simp add: map_filter_simps)
    next
      case 2
      then have "state_group ?st = state_group st"
        "rs_uaDelay ?st = rs_uaDelay st" "rs_wildcardDelay ?st = rs_wildcardDelay st"
        "rs_disallowed ?st = (if state_group st \<noteq> NoGroup \<and> v \<noteq> [] \<and> length (rs_disallowed st) < 1000
           then rs_disallowed st @ [v] else rs_disallowed st)"
        using fv by (auto simp: robots_line_def state_group_def)
      with ih fv 2 show ?thesis
        using Cons.prems
        by (auto simp: map_filter_simps disallow_rules_def last_delay_def Let_def state_ok_def take_Cons')
    next
      case 3
      then have "state_group ?st = state_group st" "rs_disallowed ?st = rs_disallowed st"
        "rs_uaDelay ?st = last_delay P Own [(state_group st, f, v)] (rs_uaDelay st)"
        "rs_wildcardDelay ?st = last_delay P Wildcard [(state_group st, f, v)] (rs_wildcardDelay st)"
        using fv by (auto simp: robots_line_def state_group_def last_delay_def split: option.splits)
      with ih fv 3 show ?thesis
        by (cases "secs_ns P v") (auto simp: map_filter_simps disallow_rules_def last_delay_def Let_def)
    next
      case 4
      then have "?st = st" using fv by (simp add: robots_line_def)
      with ih fv 4 show ?thesis
        by (cases "secs_ns P v") (auto simp: map_filter_simps disallow_rules_def last_delay_def Let_def)
    qed
  qed
qed

lemma parseRobots_reference:
  "parseRobots P body ua =
     (let rs = rules_of P body ua; own = last_delay P Own rs 0 in
      (take 1000 (disallow_rules rs), if own > 0 then own else last_delay P Wildcard rs 0))"
proof -
  have "state_ok robots_start" "state_group robots_start = NoGroup" "rs_disallowed robots_start = []"
    "rs_uaDelay robots_start = 0" "rs_wildcardDelay robots_start = 0"
    by (simp_all add: robots_start_def state_ok_def state_group_def)
  with robots_fold [of robots_start P ua "scan_lines body"] show ?thesis
    by (simp add: parseRobots_def rules_of_def Let_def)
qed

subsection \<open>The cache invariant\<close>

definition cache_ok :: "robots_cache \<Rightarrow> bool" where
  "cache_ok m =
     (distinct (map fst m) \<and> length m \<le> robots_maxSize \<and> list_all (\<lambda>(k, _). k \<noteq> []) m)"

lemma length_AList_delete:
  assumes "distinct (map fst m)" and "k \<in> fst ` set m"
  shows "length (AList.delete k m) = length m - 1"
proof -
  have "length (AList.delete k m) = length (map fst (AList.delete k m))" by simp
  also have "\<dots> = length (removeAll k (map fst m))" by (simp only: delete_keys)
  also have "\<dots> = length (remove1 k (map fst m))"
    using assms(1) by (simp add: distinct_remove1_removeAll)
  finally show ?thesis using assms(2) by (simp add: length_remove1)
qed

lemma set_AList_delete: "set (AList.delete k m) \<subseteq> set m"
  by (auto simp: AList.delete_eq)

lemma length_AList_delete_le: "length (AList.delete k m) \<le> length m"
  by (simp add: AList.delete_eq)

lemma evict_scan_fold:
  assumes "list_all (\<lambda>(k, _). k \<noteq> []) m" and "fst c \<noteq> []"
  shows "fst (foldl evict_scan c m) \<noteq> [] \<and> snd (foldl evict_scan c m) \<le> snd c \<and>
    (\<forall>kv \<in> set m. snd (foldl evict_scan c m) \<le> re_fetchedAt (snd kv)) \<and>
    (foldl evict_scan c m = c \<or>
     (\<exists>kv \<in> set m. foldl evict_scan c m = (fst kv, re_fetchedAt (snd kv))))"
  using assms
proof (induction m arbitrary: c)
  case (Cons kv m)
  have "fst (evict_scan c kv) \<noteq> []" "snd (evict_scan c kv) \<le> snd c"
    "snd (evict_scan c kv) \<le> re_fetchedAt (snd kv)"
    "evict_scan c kv = c \<or> evict_scan c kv = (fst kv, re_fetchedAt (snd kv))"
    using Cons.prems by (auto simp: evict_scan_def)
  with Cons.IH [of "evict_scan c kv"] Cons.prems show ?case by fastforce
qed simp

text \<open>\<open>evictOldest\<close> removes exactly one entry, and none that stays is older.\<close>

lemma evictOldest_oldest:
  assumes "list_all (\<lambda>(k, _). k \<noteq> []) m" and "m \<noteq> []"
  shows "\<exists>k e. (k, e) \<in> set m \<and> evictOldest m = AList.delete k m \<and>
    (\<forall>kv \<in> set m. re_fetchedAt e \<le> re_fetchedAt (snd kv))"
proof -
  obtain k0 e0 m' where m: "m = (k0, e0) # m'" using assms(2) by (metis list.exhaust surj_pair)
  have c: "foldl evict_scan ([], 0) m = foldl evict_scan (k0, re_fetchedAt e0) m'"
    by (simp add: m evict_scan_def)
  let ?r = "foldl evict_scan (k0, re_fetchedAt e0) m'"
  have f: "fst ?r \<noteq> []" "snd ?r \<le> re_fetchedAt e0" "\<forall>kv \<in> set m'. snd ?r \<le> re_fetchedAt (snd kv)"
    "?r = (k0, re_fetchedAt e0) \<or> (\<exists>kv \<in> set m'. ?r = (fst kv, re_fetchedAt (snd kv)))"
    using evict_scan_fold [of m' "(k0, re_fetchedAt e0)"] assms(1) by (auto simp: m)
  obtain k e where "(k, e) \<in> set m" "?r = (k, re_fetchedAt e)"
    using f(4) by (metis list.set_intros m prod.collapse)
  with f c show ?thesis by (intro exI [of _ k] exI [of _ e]) (auto simp: evictOldest_def m)
qed

lemma cache_ok_lookup: "cache_ok m \<Longrightarrow> cache_ok (snd (cache_lookup now host m))"
  using set_AList_delete [of host m] length_AList_delete_le [of host m]
  by (auto simp: cache_ok_def cache_lookup_def distinct_delete list_all_iff split: option.splits)

lemma set_AList_update_sub: "set (AList.update k v xs) \<subseteq> insert (k, v) (set xs)"
  by (induction xs) auto

lemma length_AList_update_le: "length (AList.update k v xs) \<le> Suc (length xs)"
  by (induction xs) auto

lemma cache_ok_store:
  assumes "cache_ok m" and "host \<noteq> []"
  shows "cache_ok (cache_store host entry m)"
proof -
  let ?m = "if length m \<ge> robots_maxSize then evictOldest m else m"
  have "distinct (map fst ?m) \<and> list_all (\<lambda>(k, _). k \<noteq> []) ?m \<and> length ?m < robots_maxSize"
  proof (cases "length m \<ge> robots_maxSize")
    case True
    then have "m \<noteq> []" by (auto simp: robots_maxSize_def)
    then obtain k e where k: "(k, e) \<in> set m" "evictOldest m = AList.delete k m"
      using evictOldest_oldest assms(1) unfolding cache_ok_def by blast
    then have "length (evictOldest m) = length m - 1"
      using length_AList_delete [of m k] assms(1) by (force simp: cache_ok_def)
    with True k assms(1) set_AList_delete [of k m] show ?thesis
      by (auto simp: cache_ok_def distinct_delete list_all_iff robots_maxSize_def)
  qed (use assms in \<open>auto simp: cache_ok_def\<close>)
  then show ?thesis
    using assms(2) set_AList_update_sub [of host entry ?m] length_AList_update_le [of host entry ?m]
    unfolding cache_ok_def cache_store_def by (auto simp: distinct_update list_all_iff)
qed

lemma cache_ok_entry:
  "cache_ok m \<Longrightarrow> u_host parsed \<noteq> [] \<Longrightarrow> cache_ok (snd (robots_entry P fetch now now' parsed m))"
  using cache_ok_lookup [of m now "u_host parsed"]
  by (auto simp: robots_entry_def Let_def cache_ok_store split: prod.splits option.splits)

subsection \<open>Properties\<close>

text \<open>
  C21. \<open>parseRobots\<close> returns the first 1000 non-empty \<open>Disallow\<close> values whose nearest
  \<open>User-agent\<close> line above is \<open>*\<close> or the crawler's own, and the last positive delay of
  its own group, or of the wildcard group when it has none.
\<close>

theorem parseRobots_correct:
  "parseRobots P body ua =
     (let rs = rules_of P body ua; own = last_delay P Own rs 0 in
      (take 1000 (disallow_rules rs), if own > 0 then own else last_delay P Wildcard rs 0))"
  by (rule parseRobots_reference)


definition demo_robots :: fetcher where
  "demo_robots u = (if u = ''http://h.onion/robots.txt''
     then Some (200, ''User-agent: *'' @ [nl] @ ''Disallow: /x'') else None)"


subsection \<open>Deviations\<close>

text \<open>
  Consecutive \<open>User-agent\<close> lines form one group in the robots exclusion standard; here the
  last one replaces the others, so a group that names this crawler first does not apply to it.
\<close>

theorem stacked_user_agents_dropped:
  "fst (parseRobots demo_platform (''User-agent: OnionSpider'' @ [nl] @ ''User-agent: Other'' @ [nl] @
     ''Disallow: /private'') robotsUA) = []"
  by code_simp

end
