(* ===== verification/Politeness.thy ===== *)
theory Politeness
  imports Go_Url
begin

section \<open>Per-domain spacing: waitForDomain in internal/crawler/engine.go\<close>

text \<open>
  The map \<open>domainLastAccess\<close>, the reservation of a slot in \<open>waitForDomain\<close>, and the
  cleanup goroutine. \<open>waitForDomain\<close> reads the clock twice while it holds \<open>domainMu\<close>:
  \<open>now\<close> in \<open>time.Since\<close> and \<open>now'\<close> for the value it stores. The result is the instant
  from which the caller may hit the host (when its context is not cancelled meanwhile), None
  when the URL does not parse and the call returns true at once.

  The step relation \<open>pol_step\<close> interleaves any number of workers with the cleanup; the
  theorem is that the slots handed out for one host are never closer than the base delay.
\<close>

definition defaultDomainDelay :: duration where "defaultDomainDelay = 5 * Second"

definition maxDomainDelay :: duration where "maxDomainDelay = 60 * Second"

definition baseDomainDelay :: "duration \<Rightarrow> duration" where
  "baseDomainDelay domainDelay = (if domainDelay > 0 then domainDelay else defaultDomainDelay)"

definition effectiveDelay :: "duration \<Rightarrow> duration \<Rightarrow> duration" where
  "effectiveDelay domainDelay minDelay =
     (let delay = baseDomainDelay domainDelay;
          delay = (if minDelay > delay then minDelay else delay)
      in if delay > maxDomainDelay then maxDomainDelay else delay)"

type_synonym access_map = "string \<rightharpoonup> time"

definition waitForDomain ::
    "platform \<Rightarrow> duration \<Rightarrow> time \<Rightarrow> time \<Rightarrow> string \<Rightarrow> duration \<Rightarrow> access_map \<Rightarrow> time option \<times> access_map"
where
  "waitForDomain P domainDelay now now' targetUrl minDelay m =
     (case url_Parse P targetUrl of None \<Rightarrow> (None, m)
      | Some parsed \<Rightarrow>
         let host = u_host parsed; delay = effectiveDelay domainDelay minDelay in
         case m host of
           Some lastAccess \<Rightarrow>
             let elapsed = now - lastAccess in
             if elapsed < delay
             then let waitTime = delay - elapsed in
               (Some (now' + waitTime), m(host \<mapsto> now' + waitTime))
             else (Some now', m(host \<mapsto> now'))
         | None \<Rightarrow> (Some now', m(host \<mapsto> now')))"

text \<open>One tick of the cleanup goroutine of \<open>Start\<close>.\<close>

definition domain_cleanup :: "time \<Rightarrow> access_map \<Rightarrow> access_map" where
  "domain_cleanup now m =
     (\<lambda>h. case m h of None \<Rightarrow> None
          | Some t \<Rightarrow> if t < now - 10 * Minute then None else Some t)"

record pol_state =
  pol_access :: access_map
  pol_clock :: time
  pol_slots :: "(string \<times> time) list"

definition pol_init :: "time \<Rightarrow> pol_state" where
  "pol_init now = \<lparr>pol_access = (\<lambda>_. None), pol_clock = now, pol_slots = []\<rparr>"

inductive pol_step :: "platform \<Rightarrow> duration \<Rightarrow> pol_state \<Rightarrow> pol_state \<Rightarrow> bool"
  for P :: platform and d :: duration where
  visit: "pol_clock s \<le> now \<Longrightarrow> now \<le> now' \<Longrightarrow> url_Parse P target = Some u \<Longrightarrow>
    waitForDomain P d now now' target minDelay (pol_access s) = (Some t, m) \<Longrightarrow>
    pol_step P d s \<lparr>pol_access = m, pol_clock = now', pol_slots = (u_host u, t) # pol_slots s\<rparr>"
| cleanup: "pol_clock s \<le> now \<Longrightarrow>
    pol_step P d s (s\<lparr>pol_access := domain_cleanup now (pol_access s), pol_clock := now\<rparr>)"

inductive pol_reach :: "platform \<Rightarrow> duration \<Rightarrow> pol_state \<Rightarrow> bool" for P :: platform and d :: duration where
  init: "pol_reach P d (pol_init now)"
| step: "pol_reach P d s \<Longrightarrow> pol_step P d s s' \<Longrightarrow> pol_reach P d s'"

definition host_slots :: "string \<Rightarrow> pol_state \<Rightarrow> time list" where
  "host_slots h s = map snd (filter (\<lambda>p. fst p = h) (pol_slots s))"

definition spaced :: "duration \<Rightarrow> time list \<Rightarrow> bool" where
  "spaced g ts = sorted_wrt (\<lambda>later earlier. earlier + g \<le> later) ts"

definition min_gap :: "duration \<Rightarrow> duration" where
  "min_gap d = min (baseDomainDelay d) maxDomainDelay"

lemma effectiveDelay_bounds:
  "min_gap d \<le> effectiveDelay d m" "0 < effectiveDelay d m" "effectiveDelay d m \<le> maxDomainDelay"
  by (auto simp: effectiveDelay_def min_gap_def baseDomainDelay_def maxDomainDelay_def
      defaultDomainDelay_def Let_def)

lemma min_gap_bounds: "0 < min_gap d" "min_gap d \<le> 10 * Minute"
  by (auto simp: min_gap_def baseDomainDelay_def maxDomainDelay_def defaultDomainDelay_def)

text \<open>
  The invariant: the map holds the latest slot of a host, or the host was cleaned up more than
  ten minutes after that slot.
\<close>

definition pol_inv :: "duration \<Rightarrow> pol_state \<Rightarrow> bool" where
  "pol_inv d s =
     (\<forall>h. spaced (min_gap d) (host_slots h s) \<and>
       (case host_slots h s of
          [] \<Rightarrow> pol_access s h = None
        | t # _ \<Rightarrow> pol_access s h = Some t \<or>
                  (pol_access s h = None \<and> t + 10 * Minute < pol_clock s)))"

lemma waitForDomain_slot:
  assumes "url_Parse P target = Some u" and "now \<le> now'"
    and "waitForDomain P d now now' target minDelay m = (Some t, m')"
  shows "m' = m(u_host u \<mapsto> t)" "now' \<le> t"
    "\<And>last. m (u_host u) = Some last \<Longrightarrow> last + effectiveDelay d minDelay \<le> t"
  using assms by (auto simp: waitForDomain_def Let_def split: option.splits if_splits)

lemma spaced_Cons:
  assumes "spaced g (t # ts)" and "t + g \<le> t'" and "0 < g"
  shows "spaced g (t' # t # ts)"
  using assms by (force simp: spaced_def)

lemma pol_inv_step:
  assumes "pol_inv d s" and "pol_step P d s s'"
  shows "pol_inv d s'"
  using assms(2)
proof (cases rule: pol_step.cases)
  case (visit now now' target u minDelay t m)
  note 1 = visit
  note w = waitForDomain_slot [OF 1(4,3,5)]
  have gap: "min_gap d \<le> effectiveDelay d minDelay" "min_gap d \<le> 10 * Minute" "0 < min_gap d"
    using effectiveDelay_bounds min_gap_bounds by auto
  have same: "host_slots h s' = (if h = u_host u then t # host_slots h s else host_slots h s)" for h
    using 1(1) by (auto simp: host_slots_def)
  have "spaced (min_gap d) (host_slots h s') \<and>
       (case host_slots h s' of
          [] \<Rightarrow> pol_access s' h = None
        | t # _ \<Rightarrow> pol_access s' h = Some t \<or>
                  (pol_access s' h = None \<and> t + 10 * Minute < pol_clock s'))" for h
  proof (cases "h = u_host u")
    case False
    with assms(1) 1 w(1) same [of h] show ?thesis
      by (force simp: pol_inv_def split: list.splits)
  next
    case True
    have "spaced (min_gap d) (t # host_slots h s)"
    proof (cases "host_slots h s")
      case Nil
      then show ?thesis by (simp add: spaced_def)
    next
      case (Cons t0 ts)
      have sp: "spaced (min_gap d) (t0 # ts)" using assms(1) Cons by (metis pol_inv_def)
      have "pol_access s h = Some t0 \<or> pol_access s h = None \<and> t0 + 10 * Minute < pol_clock s"
        using assms(1) Cons by (force simp: pol_inv_def dest: spec [of _ h])
      then have "t0 + min_gap d \<le> t"
      proof
        assume "pol_access s h = Some t0"
        with w(3) True gap(1) show ?thesis by fastforce
      next
        assume "pol_access s h = None \<and> t0 + 10 * Minute < pol_clock s"
        with w(2) 1(2,3) gap(2) show ?thesis by linarith
      qed
      with sp gap(3) Cons show ?thesis by (simp add: spaced_Cons)
    qed
    with True same [of h] 1(1) w(1) show ?thesis by simp
  qed
  then show ?thesis by (simp add: pol_inv_def)
next
  case (cleanup now)
  note 2 = cleanup
  have same: "host_slots h s' = host_slots h s" for h using 2 by (simp add: host_slots_def)
  show ?thesis
    unfolding pol_inv_def same
  proof (intro allI conjI)
    fix h
    have i: "case host_slots h s of [] \<Rightarrow> pol_access s h = None
        | t # _ \<Rightarrow> pol_access s h = Some t \<or> (pol_access s h = None \<and> t + 10 * Minute < pol_clock s)"
      and "spaced (min_gap d) (host_slots h s)"
      using assms(1) unfolding pol_inv_def by blast+
    then show "spaced (min_gap d) (host_slots h s)" by simp
    show "case host_slots h s of [] \<Rightarrow> pol_access s' h = None
        | t # _ \<Rightarrow> pol_access s' h = Some t \<or> (pol_access s' h = None \<and> t + 10 * Minute < pol_clock s')"
      using i 2 by (auto simp: domain_cleanup_def split: list.splits if_splits)
  qed
qed

lemma pol_reach_inv: "pol_reach P d s \<Longrightarrow> pol_inv d s"
proof (induction rule: pol_reach.induct)
  case (init now)
  then show ?case by (simp add: pol_inv_def pol_init_def host_slots_def spaced_def)
next
  case (step s s')
  then show ?case using pol_inv_step by blast
qed

subsection \<open>Properties\<close>

text \<open>
  C15. Whatever the interleaving of workers, robots delays and cleanup ticks, the slots that
  \<open>waitForDomain\<close> hands out for one host are at least the base delay apart (five seconds by
  default; at most the 60-second cap), and no caller is let through before its slot.
\<close>

theorem slots_are_spaced:
  assumes "pol_reach P d s"
  shows "spaced (min_gap d) (host_slots h s) \<and> min_gap 0 = 5 * Second"
  using pol_reach_inv [OF assms] by (auto simp: pol_inv_def min_gap_def baseDomainDelay_def
      defaultDomainDelay_def maxDomainDelay_def)

definition demo_target :: string where "demo_target = ''http://h.onion/''"

definition demo_target_url :: url where
  "demo_target_url = empty_url\<lparr>u_scheme := ''http'', u_host := ''h.onion'', u_path := ''/''\<rparr>"

definition demo_pol2 :: pol_state where
  "demo_pol2 = \<lparr>pol_access = [''h.onion'' \<mapsto> 1 + 5 * Second], pol_clock = 2,
     pol_slots = [(''h.onion'', 1 + 5 * Second), (''h.onion'', 1)]\<rparr>"

theorem slots_are_spaced_witness:
  "pol_reach demo_platform 0 demo_pol2 \<and> host_slots ''h.onion'' demo_pol2 = [1 + 5 * Second, 1] \<and>
   spaced (5 * Second) (host_slots ''h.onion'' demo_pol2)"
proof -
  have u: "url_Parse demo_platform demo_target = Some demo_target_url" by code_simp
  have h: "u_host demo_target_url = ''h.onion''" by (simp add: demo_target_url_def)
  have e: "effectiveDelay 0 0 = 5 * Second" by code_simp
  let ?s1 = "\<lparr>pol_access = (\<lambda>_. None)(''h.onion'' \<mapsto> 1), pol_clock = 1,
    pol_slots = (u_host demo_target_url, 1) # pol_slots (pol_init 0)\<rparr>"
  have w1: "waitForDomain demo_platform 0 1 1 demo_target 0 (pol_access (pol_init 0)) =
      (Some 1, (\<lambda>_. None)(''h.onion'' \<mapsto> 1))"
    by (simp add: waitForDomain_def u h pol_init_def)
  have "pol_step demo_platform 0 (pol_init 0) ?s1"
    by (rule pol_step.visit [OF _ _ u w1]) (simp_all add: pol_init_def)
  then have r1: "pol_reach demo_platform 0 ?s1" by (rule pol_reach.step [OF pol_reach.init])
  have w2: "waitForDomain demo_platform 0 2 2 demo_target 0 (pol_access ?s1) =
      (Some (1 + 5 * Second), (\<lambda>_. None)(''h.onion'' \<mapsto> 1 + 5 * Second))"
    by (simp add: waitForDomain_def u h e)
  have "pol_step demo_platform 0 ?s1 demo_pol2"
    using pol_step.visit [OF _ _ u w2] by (simp add: pol_init_def demo_pol2_def h)
  with r1 have r: "pol_reach demo_platform 0 demo_pol2" by (rule pol_reach.step)
  then show ?thesis
    using slots_are_spaced [OF r, of "''h.onion''"]
    by (simp add: host_slots_def demo_pol2_def min_gap_def baseDomainDelay_def defaultDomainDelay_def maxDomainDelay_def)
qed

subsection \<open>Deviations\<close>

text \<open>
  The key is the URL's \<open>Host\<close>, with the port. The same service under two spellings of its
  default port has two slots at the same instant.
\<close>

theorem port_splits_the_domain:
  "let m1 = snd (waitForDomain demo_platform 0 7 7 ''http://h.onion/'' 0 (\<lambda>_. None));
       r2 = fst (waitForDomain demo_platform 0 7 7 ''http://h.onion:80/'' 0 m1) in r2 = Some 7"
  by code_simp

end
