(* ===== verification/Store.thy ===== *)
theory Store
  imports Onion
begin

section \<open>The database: tables, errors, constraints\<close>

text \<open>
  The tables of \<open>internal/database/migrations\<close> as lists of row records in one state record
  \<open>db\<close>. Every method of \<open>internal/database\<close> becomes a function on that record; a method
  that is one SQL statement or one transaction is one function, so it is atomic. The time
  of \<open>CURRENT_TIMESTAMP\<close> is the argument \<open>now\<close>. A method that fails returns \<open>Inl\<close> of
  an error and leaves the record as it was, the way a rolled-back transaction does.

  \<open>ErrSQL\<close> stands for the errors of the server itself: a violated constraint, a value
  PostgreSQL does not accept. \<open>db_ok\<close> is what the schema's constraints guarantee.
\<close>

datatype node_status = Pending | Crawling | Completed | Failed | Blocked

datatype db_error =
    ErrSQL | ErrNoRows
  | ErrBlacklisted | ErrInvalidOnionURL | ErrEmailInUse | ErrQueueQuotaExceeded
  | ErrInvalidRole | ErrInvalidToken | ErrTokenUsed
  | ErrNodeNotFound | ErrTooManyTags | ErrInvalidTag | ErrNoteTooLong | ErrWatchInterval
  | ErrRetentionOutOfRange | ErrDeletionPending
  | ErrTOTPReplay | ErrTOTPEnabled | ErrNoEnrolment

record node_row =
  n_id :: nat
  n_url :: string
  n_user :: int
  n_host :: "string option"
  n_status :: node_status
  n_depth :: int
  n_retry :: nat
  n_next :: time
  n_interval :: int
  n_title :: "string option"
  n_code :: "int option"
  n_server :: "string option"
  n_meta :: "string option"
  n_content :: "string option"
  n_hash :: "string option"
  n_category :: "string option"
  n_discovered :: time
  n_last :: "time option"
  n_started :: "time option"

record edge_row =
  e_source :: string
  e_target :: string
  e_user :: int
  e_at :: time

record user_row =
  us_id :: int
  us_email :: string
  us_hash :: string
  us_role :: string
  us_verified :: bool
  us_vtoken :: "string option"
  us_vexp :: "time option"
  us_rtoken :: "string option"
  us_rexp :: "time option"
  us_version :: int
  us_created :: time
  us_totp_secret :: "string option"
  us_totp_enabled :: bool
  us_totp_confirmed :: "time option"
  us_totp_last :: int
  us_retention :: int
  us_store :: bool
  us_del_req :: "time option"
  us_del_for :: "time option"

record audit_row =
  a_event :: string
  a_email :: string
  a_ip :: string
  a_at :: time

record session_row =
  s_id :: nat
  s_user :: int
  s_token :: string
  s_label :: string
  s_created :: time
  s_used :: time
  s_expires :: time
  s_revoked :: "time option"

record code_row =
  c_user :: int
  c_hash :: string
  c_used :: "time option"

record tag_row =
  t_user :: int
  t_node :: nat
  t_tag :: string

record note_row =
  o_user :: int
  o_node :: nat
  o_body :: string
  o_at :: time

record watch_row =
  w_id :: nat
  w_user :: int
  w_node :: nat
  w_interval :: int
  w_hash :: "string option"
  w_code :: "int option"
  w_reach :: "bool option"
  w_checked :: "time option"
  w_created :: time

record event_row =
  v_id :: nat
  v_watch :: nat
  v_user :: int
  v_kind :: string
  v_code :: int
  v_at :: time
  v_seen :: "time option"

record db =
  users :: "user_row list"
  nodes :: "node_row list"
  edges :: "edge_row list"
  blacklist :: "(string \<times> time) list"
  audit :: "audit_row list"
  sessions :: "session_row list"
  codes :: "code_row list"
  tags :: "tag_row list"
  site_notes :: "note_row list"
  watches :: "watch_row list"
  events :: "event_row list"
  migrations :: "string list"
  next_id :: nat

definition empty_db :: db where
  "empty_db = \<lparr>users = [], nodes = [], edges = [], blacklist = [], audit = [], sessions = [],
     codes = [], tags = [], site_notes = [], watches = [], events = [], migrations = [], next_id = 1\<rparr>"

type_synonym 'a result = "db_error + 'a"

abbreviation n_key :: "node_row \<Rightarrow> string \<times> int" where
  "n_key n \<equiv> (n_url n, n_user n)"

text \<open>Whether a foreign key to \<open>users\<close> or \<open>nodes\<close> resolves.\<close>

definition user_exists :: "int \<Rightarrow> db \<Rightarrow> bool" where
  "user_exists u d = exists_where (\<lambda>r. us_id r = u) (users d)"

definition node_at :: "string \<Rightarrow> int \<Rightarrow> node_row \<Rightarrow> bool" where
  "node_at url u n = (n_url n = url \<and> n_user n = u)"

definition find_node :: "string \<Rightarrow> int \<Rightarrow> db \<Rightarrow> node_row option" where
  "find_node url u d = first_where (node_at url u) (nodes d)"

definition find_user :: "int \<Rightarrow> db \<Rightarrow> user_row option" where
  "find_user u d = first_where (\<lambda>r. us_id r = u) (users d)"

definition blacklisted :: "string \<Rightarrow> db \<Rightarrow> bool" where
  "blacklisted host d = exists_where (\<lambda>b. fst b = host) (blacklist d)"

text \<open>The row \<open>INSERT INTO nodes\<close> creates, with the defaults of the schema.\<close>

definition new_node :: "nat \<Rightarrow> time \<Rightarrow> string \<Rightarrow> int \<Rightarrow> string option \<Rightarrow> node_row" where
  "new_node i now url u host =
     \<lparr>n_id = i, n_url = url, n_user = u, n_host = host, n_status = Pending, n_depth = 0,
      n_retry = 0, n_next = now, n_interval = 7, n_title = None, n_code = None, n_server = None,
      n_meta = None, n_content = None, n_hash = None, n_category = Some ''unknown'',
      n_discovered = now, n_last = None, n_started = None\<rparr>"

definition insert_node :: "node_row \<Rightarrow> db \<Rightarrow> db" where
  "insert_node n d = d\<lparr>nodes := nodes d @ [n], next_id := Suc (next_id d)\<rparr>"

definition update_nodes :: "(node_row \<Rightarrow> bool) \<Rightarrow> (node_row \<Rightarrow> node_row) \<Rightarrow> db \<Rightarrow> db" where
  "update_nodes Q f d = d\<lparr>nodes := update_where Q f (nodes d)\<rparr>"

text \<open>
  Deleting nodes cascades to their edges (by the key of the source), tags, notes and watches,
  and from a watch to its events.
\<close>

definition delete_watches :: "(watch_row \<Rightarrow> bool) \<Rightarrow> db \<Rightarrow> db" where
  "delete_watches Q d =
     (let gone = map w_id (filter Q (watches d)) in
      d\<lparr>watches := delete_where Q (watches d),
        events := delete_where (\<lambda>v. v_watch v \<in> set gone) (events d)\<rparr>)"

definition delete_nodes :: "(node_row \<Rightarrow> bool) \<Rightarrow> db \<Rightarrow> db" where
  "delete_nodes Q d =
     (let keys = map n_key (filter Q (nodes d)); ids = map n_id (filter Q (nodes d)) in
      delete_watches (\<lambda>w. w_node w \<in> set ids)
        (d\<lparr>nodes := delete_where Q (nodes d),
           edges := delete_where (\<lambda>e. (e_source e, e_user e) \<in> set keys) (edges d),
           tags := delete_where (\<lambda>t. t_node t \<in> set ids) (tags d),
           site_notes := delete_where (\<lambda>o'. o_node o' \<in> set ids) (site_notes d)\<rparr>))"

text \<open>\<open>DELETE FROM users\<close> with every cascade of the schema.\<close>

definition delete_user :: "int \<Rightarrow> db \<Rightarrow> db" where
  "delete_user u d =
     (let d1 = delete_nodes (\<lambda>n. n_user n = u) d; d2 = delete_watches (\<lambda>w. w_user w = u) d1 in
      d2\<lparr>users := delete_where (\<lambda>r. us_id r = u) (users d2),
         edges := delete_where (\<lambda>e. e_user e = u) (edges d2),
         sessions := delete_where (\<lambda>s. s_user s = u) (sessions d2),
         codes := delete_where (\<lambda>c. c_user c = u) (codes d2),
         tags := delete_where (\<lambda>t. t_user t = u) (tags d2),
         site_notes := delete_where (\<lambda>o'. o_user o' = u) (site_notes d2),
         events := delete_where (\<lambda>v. v_user v = u) (events d2)\<rparr>)"

subsection \<open>What the constraints guarantee\<close>

definition nodes_ok :: "db \<Rightarrow> bool" where
  "nodes_ok d =
     (distinct (map n_key (nodes d)) \<and> distinct (map n_id (nodes d)) \<and>
      list_all (\<lambda>n. n_id n < next_id d \<and> user_exists (n_user n) d) (nodes d))"

definition edges_ok :: "db \<Rightarrow> bool" where
  "edges_ok d =
     (distinct (map (\<lambda>e. (e_source e, e_target e, e_user e)) (edges d)) \<and>
      list_all (\<lambda>e. (e_source e, e_user e) \<in> set (map n_key (nodes d))) (edges d))"

definition users_ok :: "db \<Rightarrow> bool" where
  "users_ok d = (distinct (map us_id (users d)) \<and> distinct (map us_email (users d)) \<and>
     list_all (\<lambda>r. us_id r < int (next_id d)) (users d))"

definition db_ok :: "db \<Rightarrow> bool" where
  "db_ok d = (nodes_ok d \<and> edges_ok d \<and> users_ok d)"

lemma empty_db_ok: "db_ok empty_db"
  by (simp add: db_ok_def nodes_ok_def edges_ok_def users_ok_def empty_db_def)

lemma find_node_Some: "find_node url u d = Some n \<Longrightarrow> n \<in> set (nodes d) \<and> n_url n = url \<and> n_user n = u"
  by (auto simp: find_node_def node_at_def)

lemma find_node_None: "find_node url u d = None \<longleftrightarrow> (\<forall>n \<in> set (nodes d). n_key n \<noteq> (url, u))"
  by (auto simp: find_node_def node_at_def first_where_None_iff)

lemma node_key_unique:
  assumes "nodes_ok d" and "n \<in> set (nodes d)" and "m \<in> set (nodes d)" and "n_key n = n_key m"
  shows "n = m"
  using assms distinct_map_eqD [of n_key] unfolding nodes_ok_def by blast

lemma node_id_unique:
  assumes "nodes_ok d" and "n \<in> set (nodes d)" and "m \<in> set (nodes d)" and "n_id n = n_id m"
  shows "n = m"
  using assms distinct_map_eqD [of n_id] unfolding nodes_ok_def by blast

lemma find_node_eq:
  assumes "nodes_ok d" and "n \<in> set (nodes d)"
  shows "find_node (n_url n) (n_user n) d = Some n"
  unfolding find_node_def
  by (rule first_where_unique) (use assms node_key_unique in \<open>auto simp: node_at_def\<close>)

lemma user_exists_cong: "users d' = users d \<Longrightarrow> user_exists u d' = user_exists u d"
  by (simp add: user_exists_def)

lemma find_user_Some: "find_user u d = Some r \<Longrightarrow> r \<in> set (users d) \<and> us_id r = u"
  by (auto simp: find_user_def)

lemma user_id_unique:
  assumes "users_ok d" and "r \<in> set (users d)" and "r' \<in> set (users d)" and "us_id r = us_id r'"
  shows "r = r'"
  using assms distinct_map_eqD [of us_id] unfolding users_ok_def by blast

lemma find_user_eq:
  assumes "users_ok d" and "r \<in> set (users d)"
  shows "find_user (us_id r) d = Some r"
  unfolding find_user_def by (rule first_where_unique) (use assms user_id_unique in auto)

subsection \<open>The statements keep the constraints\<close>

lemma update_nodes_ok:
  assumes "db_ok d" and "\<And>n. n_key (f n) = n_key n \<and> n_id (f n) = n_id n"
  shows "db_ok (update_nodes Q f d)"
proof -
  have keys: "map n_key (update_where Q f t) = map n_key t" "map n_id (update_where Q f t) = map n_id t" for t
    using assms(2) by (auto intro!: map_update_where)
  have "n_user (f n) = n_user n" for n using assms(2) [of n] by simp
  then have "list_all (\<lambda>n. n_id n < next_id d \<and> user_exists (n_user n) d) (update_where Q f (nodes d))"
    using assms by (auto simp: db_ok_def nodes_ok_def list_all_iff in_update_where)
  with keys assms(1) show ?thesis
    unfolding db_ok_def nodes_ok_def edges_ok_def users_ok_def update_nodes_def
    by (simp add: user_exists_def)
qed

lemma insert_node_ok:
  assumes "db_ok d" and "find_node (n_url n) (n_user n) d = None" and "n_id n = next_id d"
    and "user_exists (n_user n) d"
  shows "db_ok (insert_node n d)"
proof -
  have "n_key n \<notin> set (map n_key (nodes d))" using assms(2) by (auto simp: find_node_None)
  moreover have "n_id n \<notin> set (map n_id (nodes d))"
    using assms(1,3) by (auto simp: db_ok_def nodes_ok_def list_all_iff)
  ultimately show ?thesis
    using assms
    by (auto simp: db_ok_def nodes_ok_def edges_ok_def users_ok_def insert_node_def list_all_iff
        user_exists_def less_SucI intro: less_SucI order.strict_trans)
qed

lemma delete_nodes_fields:
  "nodes (delete_nodes Q d) = delete_where Q (nodes d)" "users (delete_nodes Q d) = users d"
  "next_id (delete_nodes Q d) = next_id d" "blacklist (delete_nodes Q d) = blacklist d"
  "edges (delete_nodes Q d) =
     delete_where (\<lambda>e. (e_source e, e_user e) \<in> set (map n_key (filter Q (nodes d)))) (edges d)"
  "audit (delete_nodes Q d) = audit d" "sessions (delete_nodes Q d) = sessions d"
  "codes (delete_nodes Q d) = codes d"
  by (simp_all add: delete_nodes_def delete_watches_def Let_def)

lemma delete_nodes_ok:
  assumes "db_ok d"
  shows "db_ok (delete_nodes Q d)"
  using assms
  unfolding db_ok_def nodes_ok_def edges_ok_def users_ok_def user_exists_def delete_nodes_fields
  by (fastforce simp: distinct_map_delete_where list_all_iff image_iff)

lemma delete_user_fields:
  "nodes (delete_user u d) = delete_where (\<lambda>n. n_user n = u) (nodes d)"
  "users (delete_user u d) = delete_where (\<lambda>r. us_id r = u) (users d)"
  "next_id (delete_user u d) = next_id d" "blacklist (delete_user u d) = blacklist d"
  "audit (delete_user u d) = audit d"
  by (simp_all add: delete_user_def delete_watches_def delete_nodes_fields Let_def)

lemma edges_delete_user:
  "edges (delete_user u d) = delete_where (\<lambda>e. e_user e = u) (edges (delete_nodes (\<lambda>n. n_user n = u) d))"
  by (simp add: delete_user_def delete_watches_def Let_def)

lemma delete_user_ok:
  assumes "db_ok d"
  shows "db_ok (delete_user u d)"
  using assms
  unfolding db_ok_def nodes_ok_def edges_ok_def users_ok_def user_exists_def delete_user_fields
    edges_delete_user delete_nodes_fields
  by (fastforce simp: distinct_map_delete_where list_all_iff image_iff)

end
