(* ===== verification/Crawl_Queue.thy ===== *)
theory Crawl_Queue
  imports Store
begin

section \<open>The crawl queue: the node methods of internal/database/db.go\<close>

text \<open>
  Enqueueing, claiming, saving, failing, requeueing and blocking of nodes, the link graph, the
  domain blacklist and the read-only queries over them. The advisory locks of the code make each
  transaction that takes them atomic against the others on the same domain or account, so
  \<open>EnqueueURL\<close>, \<open>SaveEdge\<close>, \<open>AddBlacklist\<close> and \<open>DeleteBlacklist\<close> are single steps.
  \<open>SaveNode\<close> and \<open>RequeueForCrawl\<close> issue two statements without a transaction: their two
  halves are definitions of their own and the method is their composition, which is what the
  code does when nothing runs in between.
\<close>

subsection \<open>Digests and canonical URLs\<close>

definition ContentHash :: "platform \<Rightarrow> string \<Rightarrow> string \<Rightarrow> string" where
  "ContentHash P title content = hex_encode (sha256 P (title @ ''|'' @ content))"

definition opaqueTokenHash :: "platform \<Rightarrow> string \<Rightarrow> string" where
  "opaqueTokenHash P token = hex_encode (sha256 P token)"

definition canonicalCrawlURL :: "platform \<Rightarrow> string \<Rightarrow> (string \<times> string) result" where
  "canonicalCrawlURL P rawURL =
     (let canonical = NormalizeURL P rawURL in
      if canonical = [] then Inl ErrInvalidOnionURL
      else case url_Parse P canonical of
        None \<Rightarrow> Inl ErrInvalidOnionURL
      | Some parsed \<Rightarrow>
          if url_Hostname parsed = [] then Inl ErrInvalidOnionURL
          else Inr (canonical, lower P (url_Hostname parsed)))"

text \<open>The text parameters of a statement; a bad one makes the statement fail.\<close>

definition texts_ok :: "string list \<Rightarrow> bool" where
  "texts_ok ss = list_all pg_text_ok ss"

definition rune_count :: "string \<Rightarrow> nat" where
  "rune_count s = length (filter RuneStart s)"

subsection \<open>SaveNode\<close>

text \<open>The first statement: the stored digest and the storage preference; its error is ignored.\<close>

definition SaveNode_read :: "string \<Rightarrow> int \<Rightarrow> db \<Rightarrow> string option \<times> bool option" where
  "SaveNode_read nodeURL userID d =
     (if \<not> texts_ok [nodeURL] then (None, None)
      else (case find_node nodeURL userID d of None \<Rightarrow> None | Some n \<Rightarrow> n_hash n,
            map_option us_store (find_user userID d)))"

record crawl_result =
  cr_title :: string
  cr_server :: string
  cr_code :: int
  cr_status :: node_status
  cr_meta :: string
  cr_content :: string
  cr_category :: string

definition saved_row :: "time \<Rightarrow> crawl_result \<Rightarrow> string \<Rightarrow> string \<Rightarrow> node_row \<Rightarrow> node_row" where
  "saved_row now r stored newHash n =
     n\<lparr>n_title := Some (cr_title r), n_code := Some (cr_code r), n_server := Some (cr_server r),
       n_status := cr_status r, n_meta := Some (cr_meta r), n_content := Some stored,
       n_hash := Some newHash, n_category := Some (cr_category r), n_last := Some now,
       n_next := now + n_interval n * Day\<rparr>"

definition touched_row :: "time \<Rightarrow> crawl_result \<Rightarrow> node_row \<Rightarrow> node_row" where
  "touched_row now r n =
     n\<lparr>n_code := Some (cr_code r), n_server := Some (cr_server r), n_status := cr_status r,
       n_last := Some now, n_next := now + n_interval n * Day\<rparr>"

text \<open>The second statement. The result is the pair Go returns: the flag and the error.\<close>

definition SaveNode_write ::
    "time \<Rightarrow> string \<Rightarrow> crawl_result \<Rightarrow> string \<Rightarrow> int \<Rightarrow> string option \<times> bool option \<Rightarrow> db \<Rightarrow>
      (bool \<times> db_error option) \<times> db" where
  "SaveNode_write now nodeURL r newHash userID seen d =
     (let stored = (if snd seen = Some True then cr_content r else []);
          contentChanged = (fst seen \<noteq> Some newHash)
      in if contentChanged then
           (if \<not> texts_ok [nodeURL, cr_title r, cr_server r, cr_meta r, stored, cr_category r] \<or>
               rune_count (cr_server r) > 100 \<or> rune_count (cr_category r) > 30
            then ((True, Some ErrSQL), d)
            else case find_node nodeURL userID d of
              None \<Rightarrow>
                if \<not> user_exists userID d then ((True, Some ErrSQL), d)
                else ((True, None),
                      insert_node (saved_row now r stored newHash
                        (new_node (next_id d) now nodeURL userID None)) d)
            | Some _ \<Rightarrow>
                ((True, None),
                 update_nodes (\<lambda>n. node_at nodeURL userID n \<and> n_status n \<noteq> Blocked)
                   (saved_row now r stored newHash) d))
         else if \<not> texts_ok [nodeURL, cr_server r] \<or> rune_count (cr_server r) > 100
           then ((False, Some ErrSQL), d)
         else ((False, None),
               update_nodes (\<lambda>n. node_at nodeURL userID n \<and> n_status n \<noteq> Blocked)
                 (touched_row now r) d))"

definition SaveNode ::
    "platform \<Rightarrow> time \<Rightarrow> string \<Rightarrow> crawl_result \<Rightarrow> int \<Rightarrow> db \<Rightarrow> (bool \<times> db_error option) \<times> db" where
  "SaveNode P now rawURL r0 userID d =
     (case canonicalCrawlURL P rawURL of
        Inl e \<Rightarrow> ((False, Some e), d)
      | Inr (nodeURL, _) \<Rightarrow>
          let r = (if cr_meta r0 = [] then r0\<lparr>cr_meta := ''{}''\<rparr> else r0) in
          SaveNode_write now nodeURL r (ContentHash P (cr_title r) (cr_content r)) userID
            (SaveNode_read nodeURL userID d) d)"

subsection \<open>Enqueueing\<close>

definition CountPendingNodes :: "int \<Rightarrow> db \<Rightarrow> nat" where
  "CountPendingNodes userID d =
     count_where (\<lambda>n. n_user n = userID \<and> n_status n = Pending) (nodes d)"

definition EnqueueURL ::
    "platform \<Rightarrow> time \<Rightarrow> string \<Rightarrow> int \<Rightarrow> int \<Rightarrow> int \<Rightarrow> db \<Rightarrow> unit result \<times> db" where
  "EnqueueURL P now rawURL depth userID maxPending d =
     (case canonicalCrawlURL P rawURL of
        Inl e \<Rightarrow> (Inl e, d)
      | Inr (canonical, host) \<Rightarrow>
          if \<not> texts_ok [host] then (Inl ErrSQL, d)
          else if blacklisted host d then (Inl ErrBlacklisted, d)
          else if maxPending > 0 \<and> int (CountPendingNodes userID d) \<ge> maxPending
            then (Inl ErrQueueQuotaExceeded, d)
          else if \<not> texts_ok [canonical] then (Inl ErrSQL, d)
          else if find_node canonical userID d \<noteq> None then (Inr (), d)
          else if \<not> user_exists userID d then (Inl ErrSQL, d)
          else (Inr (),
                insert_node ((new_node (next_id d) now canonical userID (Some host))
                  \<lparr>n_depth := depth\<rparr>) d))"

text \<open>The upsert of \<open>SaveEdge\<close>: a known pending target only has its depth lowered.\<close>

definition enqueue_target :: "time \<Rightarrow> string \<Rightarrow> string \<Rightarrow> int \<Rightarrow> int \<Rightarrow> db \<Rightarrow> db option" where
  "enqueue_target now target host depth userID d =
     (if \<not> texts_ok [target] then None
      else case find_node target userID d of
        None \<Rightarrow>
          if \<not> user_exists userID d then None
          else Some (insert_node ((new_node (next_id d) now target userID (Some host))
                 \<lparr>n_depth := depth\<rparr>) d)
      | Some _ \<Rightarrow>
          Some (update_nodes
            (\<lambda>n. node_at target userID n \<and> n_depth n > depth \<and> n_status n = Pending)
            (\<lambda>n. n\<lparr>n_depth := depth\<rparr>) d))"

definition insert_edge :: "time \<Rightarrow> string \<Rightarrow> string \<Rightarrow> int \<Rightarrow> db \<Rightarrow> db option" where
  "insert_edge now source target userID d =
     (if \<not> texts_ok [source, target] then None
      else if exists_where (\<lambda>e. e_source e = source \<and> e_target e = target \<and> e_user e = userID)
                (edges d) then Some d
      else if find_node source userID d = None then None
      else Some (d\<lparr>edges := edges d @
             [\<lparr>e_source = source, e_target = target, e_user = userID, e_at = now\<rparr>]\<rparr>))"

definition SaveEdge ::
    "platform \<Rightarrow> time \<Rightarrow> string \<Rightarrow> string \<Rightarrow> int \<Rightarrow> int \<Rightarrow> db \<Rightarrow> unit result \<times> db" where
  "SaveEdge P now source0 target0 targetDepth userID d =
     (case canonicalCrawlURL P source0 of
        Inl e \<Rightarrow> (Inl e, d)
      | Inr (source, _) \<Rightarrow>
        (case canonicalCrawlURL P target0 of
           Inl e \<Rightarrow> (Inl e, d)
         | Inr (target, targetHost) \<Rightarrow>
             if \<not> texts_ok [targetHost] then (Inl ErrSQL, d)
             else case (if blacklisted targetHost d then Some d
                        else enqueue_target now target targetHost targetDepth userID d) of
               None \<Rightarrow> (Inl ErrSQL, d)
             | Some d1 \<Rightarrow>
                 (case insert_edge now source target userID d1 of
                    None \<Rightarrow> (Inl ErrSQL, d)
                  | Some d2 \<Rightarrow> (Inr (), d2))))"

subsection \<open>Claiming\<close>

definition inflight :: "int \<Rightarrow> db \<Rightarrow> nat" where
  "inflight u d = count_where (\<lambda>n. n_user n = u \<and> n_status n = Crawling) (nodes d)"

definition claimable :: "time \<Rightarrow> node_row \<Rightarrow> bool" where
  "claimable now n = ((n_status n = Pending \<or> n_status n = Completed) \<and> n_next n \<le> now)"

definition claim_key :: "db \<Rightarrow> node_row \<Rightarrow> nat \<times> nat \<times> time" where
  "claim_key d n = (inflight (n_user n) d, if n_status n = Pending then 0 else 1, n_next n)"

definition claim_row :: "time \<Rightarrow> node_row \<Rightarrow> node_row" where
  "claim_row now n = n\<lparr>n_status := Crawling, n_started := Some now\<rparr>"

text \<open>
  \<open>locked\<close> says which rows another transaction holds; the server's choice among rows with
  equal keys is the order \<open>rank\<close>. The answer \<open>('''', 0, 0)\<close> is that nothing is due.
\<close>

definition GetNextPendingNode ::
    "(node_row \<Rightarrow> nat) \<Rightarrow> (node_row \<Rightarrow> bool) \<Rightarrow> time \<Rightarrow> db \<Rightarrow> (string \<times> int \<times> int) \<times> db" where
  "GetNextPendingNode rank locked now d =
     (case order_limit (\<lambda>n. (claim_key d n, rank n)) 1
             (filter (\<lambda>n. claimable now n \<and> \<not> locked n) (nodes d)) of
        [] \<Rightarrow> (([], 0, 0), d)
      | n # _ \<Rightarrow> ((n_url n, n_depth n, n_user n),
                 update_nodes (node_at (n_url n) (n_user n)) (claim_row now) d))"

subsection \<open>After a crawl\<close>

text \<open>\<open>InitDB\<close>'s last statement.\<close>

definition reset_crawling :: "db \<Rightarrow> db" where
  "reset_crawling d = update_nodes (\<lambda>n. n_status n = Crawling) (\<lambda>n. n\<lparr>n_status := Pending\<rparr>) d"

text \<open>\<open>int(olderThan.Seconds())\<close>: the fraction is dropped towards zero.\<close>

definition whole_seconds :: "duration \<Rightarrow> int" where
  "whole_seconds t = (if t \<ge> 0 then t div Second else - ((- t) div Second))"

definition stuck :: "time \<Rightarrow> duration \<Rightarrow> node_row \<Rightarrow> bool" where
  "stuck now olderThan n =
     (n_status n = Crawling \<and>
      (case n_started n of None \<Rightarrow> False | Some t \<Rightarrow> t < now - whole_seconds olderThan * Second))"

definition ResetStuckCrawling :: "time \<Rightarrow> duration \<Rightarrow> db \<Rightarrow> nat \<times> db" where
  "ResetStuckCrawling now olderThan d =
     (count_where (stuck now olderThan) (nodes d),
      update_nodes (stuck now olderThan) (\<lambda>n. n\<lparr>n_status := Pending, n_started := None\<rparr>) d)"

definition backoff :: "nat \<Rightarrow> duration" where
  "backoff retry = min (10 * 2 ^ retry * Minute) (48 * Hour)"

definition failed_row :: "time \<Rightarrow> node_row \<Rightarrow> node_row" where
  "failed_row now n =
     n\<lparr>n_retry := n_retry n + 1,
       n_status := (if n_retry n \<ge> 4 then Failed else Pending),
       n_next := now + backoff (n_retry n)\<rparr>"

text \<open>
  From 34 retries on, the interval \<open>10 * 2^retry\<close> minutes does not fit PostgreSQL's 64-bit
  microseconds and the statement fails.
\<close>

definition FailNodeWithRetry :: "time \<Rightarrow> string \<Rightarrow> int \<Rightarrow> db \<Rightarrow> unit result \<times> db" where
  "FailNodeWithRetry now nodeURL userID d =
     (let hit = (\<lambda>n. node_at nodeURL userID n \<and> n_status n \<noteq> Blocked) in
      if \<not> texts_ok [nodeURL] \<or> exists_where (\<lambda>n. hit n \<and> n_retry n \<ge> 34) (nodes d)
      then (Inl ErrSQL, d)
      else (Inr (), update_nodes hit (failed_row now) d))"

definition MarkRobotsBlocked :: "time \<Rightarrow> string \<Rightarrow> int \<Rightarrow> db \<Rightarrow> unit result \<times> db" where
  "MarkRobotsBlocked now nodeURL userID d =
     (if \<not> texts_ok [nodeURL] then (Inl ErrSQL, d)
      else (Inr (), update_nodes (\<lambda>n. node_at nodeURL userID n \<and> n_status n \<noteq> Blocked)
             (\<lambda>n. n\<lparr>n_status := Failed, n_retry := 10, n_next := now + 30 * Day\<rparr>) d))"

text \<open>\<open>RequeueForCrawl\<close>: the \<open>SELECT\<close>, then an \<open>UPDATE\<close> that does not repeat its guard.\<close>

definition Requeue_read :: "string \<Rightarrow> int \<Rightarrow> db \<Rightarrow> node_status option result" where
  "Requeue_read nodeURL userID d =
     (if \<not> texts_ok [nodeURL] then Inl ErrSQL
      else Inr (map_option n_status (find_node nodeURL userID d)))"

definition Requeue_write :: "time \<Rightarrow> string \<Rightarrow> int \<Rightarrow> db \<Rightarrow> db" where
  "Requeue_write now nodeURL userID d =
     update_nodes (node_at nodeURL userID) (\<lambda>n. n\<lparr>n_status := Pending, n_next := now\<rparr>) d"

definition RequeueForCrawl :: "time \<Rightarrow> string \<Rightarrow> int \<Rightarrow> db \<Rightarrow> (bool \<times> bool) result \<times> db" where
  "RequeueForCrawl now nodeURL userID d =
     (case Requeue_read nodeURL userID d of
        Inl e \<Rightarrow> (Inl e, d)
      | Inr None \<Rightarrow> (Inr (False, False), d)
      | Inr (Some status) \<Rightarrow>
          if status = Crawling \<or> status = Blocked then (Inr (True, False), d)
          else (Inr (True, True), Requeue_write now nodeURL userID d))"

definition revivable :: "time \<Rightarrow> duration \<Rightarrow> node_row \<Rightarrow> bool" where
  "revivable now olderThan n =
     (n_status n = Failed \<and> n_next n < now - whole_seconds olderThan * Second)"

definition revived_keys :: "(node_row \<Rightarrow> nat) \<Rightarrow> time \<Rightarrow> duration \<Rightarrow> int \<Rightarrow> db \<Rightarrow> (string \<times> int) list" where
  "revived_keys rank now olderThan lim d =
     map n_key (order_limit (\<lambda>n. (n_next n, rank n)) (nat lim)
       (filter (revivable now olderThan) (nodes d)))"

definition ReviveFailedNodes ::
    "(node_row \<Rightarrow> nat) \<Rightarrow> time \<Rightarrow> duration \<Rightarrow> int \<Rightarrow> db \<Rightarrow> nat \<times> db" where
  "ReviveFailedNodes rank now olderThan lim d =
     (if lim \<le> 0 then (0, d)
      else let keys = revived_keys rank now olderThan lim d; hit = (\<lambda>n. n_key n \<in> set keys) in
        (count_where hit (nodes d),
         update_nodes hit (\<lambda>n. n\<lparr>n_status := Pending, n_retry := 0, n_next := now\<rparr>) d))"

subsection \<open>The blacklist\<close>

definition AddBlacklist :: "platform \<Rightarrow> time \<Rightarrow> string \<Rightarrow> db \<Rightarrow> unit result \<times> db" where
  "AddBlacklist P now domain0 d =
     (let domain = NormalizeHostname P domain0 in
      if domain = [] then (Inl ErrInvalidOnionURL, d)
      else if \<not> texts_ok [domain] then (Inl ErrSQL, d)
      else let d1 = (if blacklisted domain d then d
                     else d\<lparr>blacklist := blacklist d @ [(domain, now)]\<rparr>) in
        (Inr (), update_nodes (\<lambda>n. n_host n = Some domain \<and> n_status n \<noteq> Blocked)
                   (\<lambda>n. n\<lparr>n_status := Blocked\<rparr>) d1))"

definition DeleteBlacklist :: "platform \<Rightarrow> time \<Rightarrow> string \<Rightarrow> db \<Rightarrow> bool result \<times> db" where
  "DeleteBlacklist P now domain0 d =
     (let domain = NormalizeHostname P domain0 in
      if domain = [] then (Inl ErrInvalidOnionURL, d)
      else if \<not> texts_ok [domain] then (Inl ErrSQL, d)
      else if \<not> blacklisted domain d then (Inr False, d)
      else (Inr True,
            update_nodes (\<lambda>n. n_host n = Some domain \<and> n_status n = Blocked)
              (\<lambda>n. n\<lparr>n_status := Pending, n_retry := 0, n_next := now\<rparr>)
              (d\<lparr>blacklist := delete_where (\<lambda>b. fst b = domain) (blacklist d)\<rparr>)))"

definition GetBlacklist :: "db \<Rightarrow> string list" where
  "GetBlacklist d = map fst (rev (sort_key snd (blacklist d)))"

definition IsDomainBlacklisted :: "platform \<Rightarrow> string \<Rightarrow> db \<Rightarrow> bool result" where
  "IsDomainBlacklisted P domain0 d =
     (let domain = NormalizeHostname P domain0 in
      if domain = [] then Inl ErrInvalidOnionURL
      else if \<not> texts_ok [domain] then Inl ErrSQL
      else Inr (blacklisted domain d))"

subsection \<open>Queries\<close>

text \<open>\<open>user_id = $1 OR $2\<close>: the rows an account may see.\<close>

definition visible :: "int \<Rightarrow> bool \<Rightarrow> int \<Rightarrow> bool" where
  "visible userID isAdmin owner = (owner = userID \<or> isAdmin)"

record Node =
  nd_id :: nat
  nd_url :: string
  nd_title :: string
  nd_code :: int
  nd_server :: string
  nd_status :: node_status
  nd_category :: string
  nd_last :: "time option"

definition or_else :: "'a \<Rightarrow> 'a option \<Rightarrow> 'a" where
  "or_else x y = (case y of None \<Rightarrow> x | Some v \<Rightarrow> v)"

definition node_view :: "node_row \<Rightarrow> Node" where
  "node_view n =
     \<lparr>nd_id = n_id n, nd_url = n_url n, nd_title = or_else [] (n_title n),
      nd_code = or_else 0 (n_code n), nd_server = or_else [] (n_server n), nd_status = n_status n,
      nd_category = or_else ''unknown'' (n_category n), nd_last = n_last n\<rparr>"

text \<open>
  Full-text search is PostgreSQL's: \<open>matches q n\<close> is \<open>search_vector @@ plainto_tsquery\<close>, and
  \<open>ts_rank q n\<close> orders the hits, best first when the rank is negated.
\<close>

definition SearchNodes ::
    "(string \<Rightarrow> node_row \<Rightarrow> bool) \<Rightarrow> (string \<Rightarrow> node_row \<Rightarrow> int) \<Rightarrow> string \<Rightarrow> string \<Rightarrow> int \<Rightarrow> bool \<Rightarrow> db \<Rightarrow>
      Node list result" where
  "SearchNodes matches ts_rank searchQuery category userID isAdmin d =
     (if \<not> texts_ok [searchQuery, category] then Inl ErrSQL
      else Inr (map node_view (order_limit (\<lambda>n. - ts_rank searchQuery n) 50
        (filter (\<lambda>n. matches searchQuery n \<and> (category = [] \<or> n_category n = Some category) \<and>
                     visible userID isAdmin (n_user n)) (nodes d)))))"

record Stats =
  NodesCrawled :: nat
  PendingNodes :: nat
  FailedNodes :: nat
  CrawlingNodes :: nat
  BlockedNodes :: nat
  TotalEdges :: nat

definition status_count :: "int \<Rightarrow> bool \<Rightarrow> node_status \<Rightarrow> db \<Rightarrow> nat" where
  "status_count userID isAdmin st d =
     count_where (\<lambda>n. visible userID isAdmin (n_user n) \<and> n_status n = st) (nodes d)"

definition GetStats :: "int \<Rightarrow> bool \<Rightarrow> db \<Rightarrow> Stats" where
  "GetStats userID isAdmin d =
     \<lparr>NodesCrawled = status_count userID isAdmin Completed d,
      PendingNodes = status_count userID isAdmin Pending d,
      FailedNodes = status_count userID isAdmin Failed d,
      CrawlingNodes = status_count userID isAdmin Crawling d,
      BlockedNodes = status_count userID isAdmin Blocked d,
      TotalEdges = count_where (\<lambda>e. visible userID isAdmin (e_user e)) (edges d)\<rparr>"

record NodeDetail =
  nx_node :: Node
  nx_content :: string
  nx_meta :: string
  nx_hash :: string
  nx_discovered :: time

text \<open>An administrator's query may match several accounts' rows: \<open>QueryRow\<close> takes the first.\<close>

definition GetNodeByURL :: "string \<Rightarrow> int \<Rightarrow> bool \<Rightarrow> db \<Rightarrow> NodeDetail option result" where
  "GetNodeByURL nodeURL userID isAdmin d =
     (if \<not> texts_ok [nodeURL] then Inl ErrSQL
      else Inr (map_option (\<lambda>n. \<lparr>nx_node = node_view n, nx_content = or_else [] (n_content n),
             nx_meta = or_else ''{}'' (n_meta n), nx_hash = or_else [] (n_hash n),
             nx_discovered = n_discovered n\<rparr>)
        (first_where (\<lambda>n. n_url n = nodeURL \<and> visible userID isAdmin (n_user n)) (nodes d))))"

definition page :: "nat \<Rightarrow> int \<Rightarrow> 'a list \<Rightarrow> 'a list result" where
  "page lim offset xs = (if offset < 0 then Inl ErrSQL else Inr (take lim (drop (nat offset) xs)))"

definition GetNodes :: "int \<Rightarrow> int \<Rightarrow> int \<Rightarrow> bool \<Rightarrow> db \<Rightarrow> Node list result" where
  "GetNodes limit0 offset userID isAdmin d =
     (let lim = (if limit0 \<le> 0 \<or> limit0 > 200 then 50 else nat limit0) in
      map_sum id (map node_view)
        (page lim offset (sort_key (\<lambda>n. - n_discovered n)
          (filter (\<lambda>n. visible userID isAdmin (n_user n)) (nodes d)))))"

definition GetEdges :: "int \<Rightarrow> int \<Rightarrow> int \<Rightarrow> bool \<Rightarrow> db \<Rightarrow> (string \<times> string) list result" where
  "GetEdges limit0 offset userID isAdmin d =
     (let lim = (if limit0 \<le> 0 \<or> limit0 > 1000 then 200 else nat limit0) in
      map_sum id (map (\<lambda>e. (e_source e, e_target e)))
        (page lim offset (filter (\<lambda>e. visible userID isAdmin (e_user e)) (edges d))))"

record QueueItem =
  qi_url :: string
  qi_depth :: int
  qi_status :: node_status
  qi_discovered :: time

definition GetQueueSummary :: "int \<Rightarrow> bool \<Rightarrow> db \<Rightarrow> (node_status \<rightharpoonup> nat) \<times> QueueItem list" where
  "GetQueueSummary userID isAdmin d =
     ((\<lambda>st. if status_count userID isAdmin st d = 0 then None else Some (status_count userID isAdmin st d)),
      map (\<lambda>n. \<lparr>qi_url = n_url n, qi_depth = n_depth n, qi_status = n_status n,
                 qi_discovered = n_discovered n\<rparr>)
        (order_limit n_next 10
          (filter (\<lambda>n. n_status n = Pending \<and> visible userID isAdmin (n_user n)) (nodes d))))"

definition GlobalStatusCounts :: "db \<Rightarrow> (node_status \<rightharpoonup> nat)" where
  "GlobalStatusCounts d = fst (GetQueueSummary 0 True d)"

text \<open>\<open>fn\<close> is called row by row and may stop the export by an error.\<close>

fun each_row :: "('a \<Rightarrow> 's \<Rightarrow> db_error + 's) \<Rightarrow> 'a list \<Rightarrow> 's \<Rightarrow> db_error + 's" where
  "each_row fn [] s = Inr s"
| "each_row fn (r # rs) s = (case fn r s of Inl e \<Rightarrow> Inl e | Inr s' \<Rightarrow> each_row fn rs s')"

definition export_rows :: "int \<Rightarrow> bool \<Rightarrow> db \<Rightarrow> Node list" where
  "export_rows userID isAdmin d =
     map node_view (sort_key n_discovered
       (filter (\<lambda>n. n_status n = Completed \<and> visible userID isAdmin (n_user n)) (nodes d)))"

definition ExportNodes :: "int \<Rightarrow> bool \<Rightarrow> (Node \<Rightarrow> 's \<Rightarrow> db_error + 's) \<Rightarrow> db \<Rightarrow> 's \<Rightarrow> db_error + 's" where
  "ExportNodes userID isAdmin fn d s = each_row fn (export_rows userID isAdmin d) s"

definition completed_id :: "string \<Rightarrow> int \<Rightarrow> db \<Rightarrow> nat list" where
  "completed_id url u d = map n_id (filter (\<lambda>n. node_at url u n \<and> n_status n = Completed) (nodes d))"

definition graphml_edges :: "int \<Rightarrow> bool \<Rightarrow> db \<Rightarrow> (nat \<times> nat) list" where
  "graphml_edges userID isAdmin d =
     concat (map (\<lambda>e. List.product (completed_id (e_source e) (e_user e) d)
                        (completed_id (e_target e) (e_user e) d))
       (filter (\<lambda>e. visible userID isAdmin (e_user e)) (edges d)))"

definition ExportGraphMLEdges ::
    "int \<Rightarrow> bool \<Rightarrow> (nat \<times> nat \<Rightarrow> 's \<Rightarrow> db_error + 's) \<Rightarrow> db \<Rightarrow> 's \<Rightarrow> db_error + 's" where
  "ExportGraphMLEdges userID isAdmin fn d s = each_row fn (graphml_edges userID isAdmin d) s"

text \<open>The day of a timestamp, counted from the epoch, stands for its \<open>YYYY-MM-DD\<close>.\<close>

definition day_of :: "time \<Rightarrow> int" where
  "day_of t = t div Day"

definition GetTimelineStats :: "time \<Rightarrow> int \<Rightarrow> bool \<Rightarrow> db \<Rightarrow> (int \<times> nat) list" where
  "GetTimelineStats now userID isAdmin d =
     (let rows = filter (\<lambda>n. n_discovered n \<ge> (day_of now - 30) * Day \<and> visible userID isAdmin (n_user n))
                   (nodes d) in
      map (\<lambda>day. (day, count_where (\<lambda>n. day_of (n_discovered n) = day) rows))
        (remdups (sort (map (\<lambda>n. day_of (n_discovered n)) rows))))"

end
