(* ===== verification/Totp.thy ===== *)
theory Totp
  imports Onion
begin

section \<open>One-time codes: internal/auth/totp.go\<close>

text \<open>
  RFC 6238 codes, the secret's text form, the validation window, recovery codes and the
  provisioning URI. The counter is a \<^typ>\<open>64 word\<close> and the truncated value a
  \<^typ>\<open>32 word\<close>, as in Go; HMAC-SHA1 is the argument \<open>hmac_sha1\<close>; random bytes are
  arguments of the generators.
\<close>

unbundle bit_operations_syntax

definition TOTPDigits :: nat where "TOTPDigits = 6"
definition TOTPPeriod :: duration where "TOTPPeriod = 30 * Second"
definition totpSecretBytes :: nat where "totpSecretBytes = 20"
definition TOTPSkew :: int where "TOTPSkew = 1"

definition period_seconds :: "64 word" where
  "period_seconds = word_of_int (TOTPPeriod div Second)"

text \<open>Base32 without padding; the secret has 20 bytes, a whole number of five-byte groups.\<close>

definition GenerateTOTPSecret :: "bytes \<Rightarrow> string" where
  "GenerateTOTPSecret rnd = map upper_char (b32_encode rnd)"

definition decodeTOTPSecret :: "platform \<Rightarrow> string \<Rightarrow> bytes option" where
  "decodeTOTPSecret P secret =
     (let s = upper P (RemoveAll (CHR '' '') (TrimSpace secret)); s = TrimRight (CHR ''='') s in
      case base32_Decode s of None \<Rightarrow> None | Some key \<Rightarrow> if key = [] then None else Some key)"

subsection \<open>The code of a counter\<close>

definition put_uint64 :: "64 word \<Rightarrow> bytes" where
  "put_uint64 c = map chr (to_digits 256 8 (unat c))"

definition uint32_be :: "bytes \<Rightarrow> 32 word" where
  "uint32_be bs = word_of_nat (of_digits 256 (map byte bs))"

definition pow10 :: "nat \<Rightarrow> 32 word" where
  "pow10 n = ((*) 10 ^^ n) 1"

definition zero_pad :: "nat \<Rightarrow> string \<Rightarrow> string" where
  "zero_pad w s = replicate (w - length s) (CHR ''0'') @ s"

definition totpCode :: "platform \<Rightarrow> bytes \<Rightarrow> 64 word \<Rightarrow> string" where
  "totpCode P key counter =
     (let sum = hmac_sha1 P key (put_uint64 counter);
          offset = unat (word_of_nat (byte (last sum)) AND (0x0f :: 8 word));
          value = uint32_be (take 4 (drop offset sum)) AND 0x7fffffff
      in zero_pad TOTPDigits (nat_str (unat (value mod pow10 TOTPDigits))))"

definition totp_counter :: "int \<Rightarrow> 64 word" where
  "totp_counter unix = word_of_int unix div period_seconds"

definition GenerateTOTPCode :: "platform \<Rightarrow> string \<Rightarrow> int \<Rightarrow> string option" where
  "GenerateTOTPCode P secret at =
     (case decodeTOTPSecret P secret of None \<Rightarrow> None
      | Some key \<Rightarrow> Some (totpCode P key (totp_counter at)))"

text \<open>The steps of the loop over \<open>delta\<close>, in its order.\<close>

definition window_step :: "64 word \<Rightarrow> int \<Rightarrow> 64 word option" where
  "window_step counter delta =
     (if delta < 0 then
        (if counter < word_of_int (- delta) then None else Some (counter - word_of_int (- delta)))
      else Some (counter + word_of_int delta))"

definition window_steps :: "64 word \<Rightarrow> 64 word list" where
  "window_steps counter = List.map_filter (window_step counter) [- TOTPSkew .. TOTPSkew]"

definition ValidateTOTP :: "platform \<Rightarrow> string \<Rightarrow> string \<Rightarrow> int \<Rightarrow> 64 word \<times> bool" where
  "ValidateTOTP P secret code0 now =
     (let code = TrimSpace code0 in
      if length code \<noteq> TOTPDigits then (0, False)
      else if \<not> list_all is_digit code then (0, False)
      else case decodeTOTPSecret P secret of
        None \<Rightarrow> (0, False)
      | Some key \<Rightarrow>
          (case List.find (\<lambda>step. totpCode P key step = code) (window_steps (totp_counter now)) of
             None \<Rightarrow> (0, False) | Some step \<Rightarrow> (step, True)))"

subsection \<open>Recovery codes\<close>

definition RecoveryCodeCount :: nat where "RecoveryCodeCount = 10"

definition recovery_alphabet :: string where
  "recovery_alphabet = ''abcdefghjkmnpqrstuvwxyz23456789''"

definition recovery_length :: nat where "recovery_length = 10"

definition GenerateRecoveryCode :: "bytes \<Rightarrow> string" where
  "GenerateRecoveryCode rnd =
     concat (map (\<lambda>(i, v). (if i = recovery_length div 2 then ''-'' else []) @
         [recovery_alphabet ! (byte v mod length recovery_alphabet)])
       (enumerate 0 rnd))"

definition NormalizeRecoveryCode :: "platform \<Rightarrow> string \<Rightarrow> string" where
  "NormalizeRecoveryCode P code = lower P (RemoveAll (CHR '' '') (TrimSpace code))"

subsection \<open>The provisioning URI\<close>

definition unreserved :: "char \<Rightarrow> bool" where
  "unreserved c = (is_alnum c \<or> c \<in> set ''-._~'')"

definition escapeOTPAuthLabel :: "string \<Rightarrow> string" where
  "escapeOTPAuthLabel s =
     concat (map (\<lambda>c. if unreserved c then [c]
       else [CHR ''%'', upper_hex (byte c div 16), upper_hex (byte c mod 16)]) s)"

text \<open>\<open>url.QueryEscape\<close>, and \<open>Values.Encode\<close>, which sorts by key.\<close>

definition QueryEscape :: "string \<Rightarrow> string" where
  "QueryEscape s =
     concat (map (\<lambda>c. if unreserved c then [c] else if c = CHR '' '' then ''+''
       else [CHR ''%'', upper_hex (byte c div 16), upper_hex (byte c mod 16)]) s)"

definition TOTPProvisioningURI :: "string \<Rightarrow> string \<Rightarrow> string \<Rightarrow> string" where
  "TOTPProvisioningURI secret account issuer =
     ''otpauth://totp/'' @ escapeOTPAuthLabel (issuer @ '':'' @ account) @ ''?'' @
     Join (map (\<lambda>(k, v). QueryEscape k @ ''='' @ QueryEscape v)
       [(''algorithm'', ''SHA1''), (''digits'', nat_str TOTPDigits), (''issuer'', issuer),
        (''period'', Itoa (TOTPPeriod div Second)), (''secret'', secret)]) ''&''"

subsection \<open>Lemmas\<close>

lemma nat_str_length: "n < 10 ^ k \<Longrightarrow> 0 < k \<Longrightarrow> length (nat_str n) \<le> k"
proof (induction n arbitrary: k rule: nat_str.induct)
  case (1 n)
  show ?case
  proof (cases "n < 10")
    case True
    then show ?thesis using 1 by (subst nat_str.simps) simp
  next
    case False
    obtain j where k: "k = Suc j" using 1 by (cases k) auto
    have "0 < j" using False 1(2) k by (cases j) auto
    moreover have "n div 10 < 10 ^ j" using 1(2) k by (simp add: less_mult_imp_div_less mult.commute)
    ultimately have "length (nat_str (n div 10)) \<le> j" using 1(1) False by simp
    then show ?thesis using False k by (subst nat_str.simps) simp
  qed
qed

lemma pow10_6: "pow10 6 = 1000000"
  by code_simp

lemma totpCode_shape: "length (totpCode P key c) = 6 \<and> list_all is_digit (totpCode P key c)"
proof -
  have "unat (v mod 1000000) < 10 ^ 6" for v :: "32 word"
    by (simp add: unat_mod_distrib)
  then have l: "length (nat_str (unat (v mod 1000000))) \<le> 6" for v :: "32 word"
    using nat_str_length by (metis zero_less_numeral)
  show ?thesis
    using l nat_str_digits
    by (auto simp: totpCode_def Let_def pow10_6 zero_pad_def TOTPDigits_def list_all_iff is_digit_def byte_def)
qed

lemma window_steps_eq:
  "window_steps c = (if c < 1 then [] else [c - 1]) @ [c, c + 1]"
proof -
  have "[- TOTPSkew .. TOTPSkew] = [-1, 0, 1]" by code_simp
  then show ?thesis
    by (simp add: window_steps_def map_filter_simps window_step_def)
qed

lemma totp_counter_bound: "unat (totp_counter now) \<le> 614891469123651720"
proof -
  have "unat (totp_counter now) = unat (word_of_int now :: 64 word) div 30"
    by (simp add: totp_counter_def period_seconds_def TOTPPeriod_def unat_div_distrib)
  also have "unat (word_of_int now :: 64 word) < 2 ^ LENGTH(64)" by (rule unsigned_less)
  then have "unat (word_of_int now :: 64 word) div 30 \<le> 18446744073709551615 div 30"
    by (intro div_le_mono) simp
  finally show ?thesis by simp
qed

text \<open>The counter is far from the end of the 64-bit range, so the window does not wrap.\<close>

lemma window_steps_unat:
  assumes "s \<in> set (window_steps (totp_counter now))"
  shows "unat (totp_counter now) \<le> unat s + 1 \<and> unat s \<le> unat (totp_counter now) + 1"
proof -
  let ?c = "totp_counter now"
  have p: "unat (?c + 1) = unat ?c + 1"
    using totp_counter_bound [of now] by (subst unat_word_ariths(1)) simp
  have m: "unat (?c - 1) = unat ?c - 1" if "\<not> ?c < 1"
    using that by (simp add: unat_minus_one word_less_1)
  show ?thesis
    using assms p m by (auto simp: window_steps_eq split: if_splits)
qed

lemma window_steps_complete:
  assumes "unat (totp_counter now) \<le> unat s + 1" and "unat s \<le> unat (totp_counter now) + 1"
  shows "s \<in> set (window_steps (totp_counter now))"
proof -
  let ?c = "totp_counter now"
  have p: "unat (?c + 1) = unat ?c + 1"
    using totp_counter_bound [of now] by (subst unat_word_ariths(1)) simp
  consider "unat s = unat ?c" | "unat s = unat (?c + 1)" | "unat ?c = unat s + 1" using assms p by linarith
  then show ?thesis
  proof cases
    case 3
    then have "?c \<noteq> 0" by auto
    then have "unat (?c - 1) = unat s" "\<not> ?c < 1" using 3 by (simp_all add: unat_minus_one word_less_1)
    then show ?thesis by (simp add: window_steps_eq word_unat_eq_iff)
  qed (auto simp: window_steps_eq word_unat_eq_iff)
qed

lemma ValidateTOTP_cases:
  assumes "ValidateTOTP P secret code now = (step, True)"
  obtains key where "decodeTOTPSecret P secret = Some key" "totpCode P key step = TrimSpace code"
    "step \<in> set (window_steps (totp_counter now))"
  using assms
  by (auto simp: ValidateTOTP_def Let_def find_Some_iff split: if_splits option.splits)

lemma upper_upper_char [simp]: "upper_char (upper_char c) = upper_char c"
  by (auto simp: upper_char_def is_lower_def)

lemma b32_char_upper:
  "b32_char c \<Longrightarrow> is_ascii (upper_char c) \<and> 32 < byte (upper_char c) \<and> byte (upper_char c) \<noteq> 61"
  by (auto simp: b32_char_def is_lower_def upper_char_def is_ascii_def)

lemma solid_secret:
  assumes "list_all b32_char s"
  shows "solid (map upper_char s)" "RemoveAll (CHR '' '') (map upper_char s) = map upper_char s"
    "TrimRight (CHR ''='') (map upper_char s) = map upper_char s" "ascii (map upper_char s)"
proof -
  have c: "\<forall>c \<in> set (map upper_char s). is_ascii c \<and> 32 < byte c \<and> byte c \<noteq> 61"
    using assms b32_char_upper by (auto simp: list_all_iff)
  show "solid (map upper_char s)" "ascii (map upper_char s)"
    using c by (force simp: solid_def list_all_iff ascii_iff)+
  have "CHR '' '' \<notin> set (map upper_char s)" "CHR ''='' \<notin> set (map upper_char s)"
    using c [THEN bspec, of "CHR '' ''"] c [THEN bspec, of "CHR ''=''"] by (auto simp: byte_def)
  then show "RemoveAll (CHR '' '') (map upper_char s) = map upper_char s"
      "TrimRight (CHR ''='') (map upper_char s) = map upper_char s"
    by (simp_all only: RemoveAll_notin TrimRight_notin simp_thms)
qed

lemma decodeTOTPSecret_generated:
  assumes "length rnd = totpSecretBytes"
  shows "decodeTOTPSecret P (GenerateTOTPSecret rnd) = Some rnd"
proof -
  have d: "5 dvd length rnd" "rnd \<noteq> []" using assms by (auto simp: totpSecretBytes_def)
  note s = solid_secret [OF b32_encode_chars [OF d(1)]]
  have "upper P (map upper_char (b32_encode rnd)) = map upper_char (b32_encode rnd)"
    using s(4) by (simp add: ToUpper_def comp_def)
  then show ?thesis
    using s d base32_Decode_encode [OF d(1)]
    by (simp add: decodeTOTPSecret_def GenerateTOTPSecret_def Let_def solid_TrimSpace)
qed

lemma escape_otp_notin:
  assumes "\<not> unreserved c" and "c \<noteq> CHR ''%''"
  shows "c \<notin> set (escapeOTPAuthLabel s)" "c \<noteq> CHR ''+'' \<Longrightarrow> c \<notin> set (QueryEscape s)"
proof -
  have x: "c \<noteq> upper_hex (byte x div 16)" "c \<noteq> upper_hex (byte x mod 16)" for x
  proof -
    have "unreserved (upper_hex n)" if "n < 16" for n
      using ishex_upper_hex [OF that]
      by (auto simp: unreserved_def is_alnum_def is_alpha_def is_lower_def is_upper_def ishex_def)
    then show "c \<noteq> upper_hex (byte x div 16)" "c \<noteq> upper_hex (byte x mod 16)"
      using assms(1) byte_div_mod(2) [of x] by (metis, metis mod_less_divisor zero_less_numeral)
  qed
  show "c \<notin> set (escapeOTPAuthLabel s)"
    using assms x by (induction s) (auto simp: escapeOTPAuthLabel_def)
  show "c \<noteq> CHR ''+'' \<Longrightarrow> c \<notin> set (QueryEscape s)"
    using assms x by (induction s) (auto simp: QueryEscape_def)
qed

subsection \<open>Properties\<close>

text \<open>
  C29. Validation is exact: \<open>ValidateTOTP\<close> accepts a code exactly when, trimmed, it is the code of
  a step at most one period away from the current one, and then it returns such a step. No step of
  the window wraps around the 64-bit counter.
\<close>

theorem ValidateTOTP_exact:
  assumes "decodeTOTPSecret P secret = Some key"
  shows "(snd (ValidateTOTP P secret code now) \<longleftrightarrow>
      (\<exists>s. TrimSpace code = totpCode P key s \<and>
           unat (totp_counter now) \<le> unat s + 1 \<and> unat s \<le> unat (totp_counter now) + 1)) \<and>
    (\<forall>step. ValidateTOTP P secret code now = (step, True) \<longrightarrow>
       TrimSpace code = totpCode P key step \<and>
       unat (totp_counter now) \<le> unat step + 1 \<and> unat step \<le> unat (totp_counter now) + 1)"
proof -
  have sound: "TrimSpace code = totpCode P key step \<and>
       unat (totp_counter now) \<le> unat step + 1 \<and> unat step \<le> unat (totp_counter now) + 1"
    if "ValidateTOTP P secret code now = (step, True)" for step
    using ValidateTOTP_cases [OF that] assms window_steps_unat by (metis option.inject)
  have complete: "snd (ValidateTOTP P secret code now)"
    if "TrimSpace code = totpCode P key s" "unat (totp_counter now) \<le> unat s + 1"
       "unat s \<le> unat (totp_counter now) + 1" for s
  proof -
    have "s \<in> set (window_steps (totp_counter now))" using window_steps_complete that by blast
    then have "List.find (\<lambda>step. totpCode P key step = TrimSpace code) (window_steps (totp_counter now)) \<noteq> None"
      using that(1) by (auto simp: find_None_iff)
    moreover have "length (TrimSpace code) = TOTPDigits" "list_all is_digit (TrimSpace code)"
      using that(1) totpCode_shape [of P key s] by (simp_all add: TOTPDigits_def)
    ultimately show ?thesis using assms by (auto simp: ValidateTOTP_def)
  qed
  show ?thesis
  proof (intro conjI iffI)
    assume "snd (ValidateTOTP P secret code now)"
    then have "ValidateTOTP P secret code now = (fst (ValidateTOTP P secret code now), True)"
      by (simp add: prod_eq_iff)
    then show "\<exists>s. TrimSpace code = totpCode P key s \<and>
        unat (totp_counter now) \<le> unat s + 1 \<and> unat s \<le> unat (totp_counter now) + 1"
      using sound by blast
  qed (use sound complete in blast)+
qed

text \<open>
  A code generated for an instant is accepted at any instant of the same or a neighbouring
  period, for any secret the server itself generated; a code always has six decimal digits; and
  the generated secret decodes to the random bytes it was made from.
\<close>

theorem TOTP_round_trip:
  assumes "length rnd = totpSecretBytes" and "unat (totp_counter now) \<le> unat (totp_counter at) + 1"
    and "unat (totp_counter at) \<le> unat (totp_counter now) + 1"
  shows "decodeTOTPSecret P (GenerateTOTPSecret rnd) = Some rnd \<and>
    (\<exists>code. GenerateTOTPCode P (GenerateTOTPSecret rnd) at = Some code \<and> length code = 6 \<and>
       list_all is_digit code \<and> snd (ValidateTOTP P (GenerateTOTPSecret rnd) code now))"
proof -
  note d = decodeTOTPSecret_generated [OF assms(1), of P]
  let ?code = "totpCode P rnd (totp_counter at)"
  have shape: "length ?code = 6" "list_all is_digit ?code" using totpCode_shape by blast+
  then have "solid ?code" by (auto simp: solid_def list_all_iff is_digit_def is_ascii_def)
  then have t: "TrimSpace ?code = ?code" by (rule solid_TrimSpace)
  have "totp_counter at \<in> set (window_steps (totp_counter now))"
    using window_steps_complete assms(2,3) by blast
  then have "List.find (\<lambda>step. totpCode P rnd step = ?code) (window_steps (totp_counter now)) \<noteq> None"
    by (auto simp: find_None_iff)
  then have "snd (ValidateTOTP P (GenerateTOTPSecret rnd) ?code now)"
    using d shape t by (auto simp: ValidateTOTP_def TOTPDigits_def)
  with d shape show ?thesis by (auto simp: GenerateTOTPCode_def)
qed

text \<open>
  The account name cannot inject into the provisioning URI: whatever the account and the
  issuer are, the label holds no \<open>?\<close>, \<open>&\<close>, \<open>=\<close>, \<open>#\<close> or \<open>/\<close>, and the query parameters
  are exactly the five the server sets.
\<close>

theorem provisioning_uri_label:
  "escapeOTPAuthLabel (issuer @ '':'' @ account) =
     takeWhile (\<lambda>c. c \<noteq> CHR ''?'') (drop 15 (TOTPProvisioningURI secret account issuer)) \<and>
   set (escapeOTPAuthLabel s) \<inter> set ''?&=#/'' = {}"
proof -
  have n: "\<not> unreserved c \<and> c \<noteq> CHR ''%''" if "c \<in> set ''?&=#/''" for c
    using that by (auto simp: unreserved_def is_alnum_def is_alpha_def is_lower_def is_upper_def is_digit_def byte_def)
  then have "CHR ''?'' \<notin> set (escapeOTPAuthLabel (issuer @ '':'' @ account))"
    using escape_otp_notin(1) by simp
  then show ?thesis
    using n escape_otp_notin(1) [of _ s]
    by (auto simp: TOTPProvisioningURI_def takeWhile_cut)
qed

definition demo_secret :: bytes where "demo_secret = replicate 20 (chr 65)"

theorem ValidateTOTP_exact_witness:
  "decodeTOTPSecret demo_platform (GenerateTOTPSecret demo_secret) = Some demo_secret \<and>
   snd (ValidateTOTP demo_platform (GenerateTOTPSecret demo_secret) ''000000'' 59)"
proof -
  let ?s = "GenerateTOTPSecret demo_secret"
  have d: "decodeTOTPSecret demo_platform ?s = Some demo_secret" by code_simp
  have "TrimSpace ''000000'' = totpCode demo_platform demo_secret (totp_counter 59)" by code_simp
  then have "\<exists>s. TrimSpace ''000000'' = totpCode demo_platform demo_secret s \<and>
      unat (totp_counter 59) \<le> unat s + 1 \<and> unat s \<le> unat (totp_counter 59) + 1" by auto
  with ValidateTOTP_exact [OF d, of "''000000''" 59] d show ?thesis by blast
qed

theorem TOTP_round_trip_witness:
  "\<exists>code. GenerateTOTPCode demo_platform (GenerateTOTPSecret demo_secret) 29 = Some code \<and>
     snd (ValidateTOTP demo_platform (GenerateTOTPSecret demo_secret) code 59)"
proof -
  have "length demo_secret = totpSecretBytes" "unat (totp_counter 59) \<le> unat (totp_counter 29) + 1"
    "unat (totp_counter 29) \<le> unat (totp_counter 59) + 1" by code_simp+
  from TOTP_round_trip [OF this, of demo_platform] show ?thesis by blast
qed

subsection \<open>Recovery codes\<close>

lemma recovery_chars:
  "list_all (\<lambda>c. is_ascii c \<and> 32 < byte c \<and> lower_char c = c) (CHR ''-'' # recovery_alphabet)"
  by code_simp

lemma recovery_code_chars:
  assumes "c \<in> set (GenerateRecoveryCode rnd)"
  shows "c \<in> set (CHR ''-'' # recovery_alphabet)"
proof -
  have "recovery_alphabet ! (n mod length recovery_alphabet) \<in> set recovery_alphabet" for n
    by (intro nth_mem) (simp add: recovery_alphabet_def)
  with assms show ?thesis by (auto simp: GenerateRecoveryCode_def split: if_splits)
qed

text \<open>A generated code, in any letter case, normalises to itself.\<close>

lemma recovery_code_normalizes:
  assumes "map lower_char typed = GenerateRecoveryCode rnd"
  shows "NormalizeRecoveryCode P typed = GenerateRecoveryCode rnd"
proof -
  have "is_ascii c \<and> 32 < byte c" if "c \<in> set typed" for c
  proof -
    have "lower_char c \<in> set (GenerateRecoveryCode rnd)" using that assms by (metis list.set_map imageI)
    then have "is_ascii (lower_char c) \<and> 32 < byte (lower_char c)"
      using recovery_chars recovery_code_chars unfolding list_all_iff by blast
    then show ?thesis by (auto simp: byte_lower_char split: if_splits)
  qed
  then have "solid typed" "CHR '' '' \<notin> set typed" by (force simp: solid_def list_all_iff byte_def)+
  then show ?thesis
    using assms by (simp add: NormalizeRecoveryCode_def solid_TrimSpace RemoveAll_notin ToLower_ascii solid_ascii)
qed

text \<open>
  Retyping without the hyphen is not undone: the digest of such a code differs from the stored one.
\<close>

theorem recovery_code_needs_hyphen:
  "let code = GenerateRecoveryCode (replicate 10 (chr 0)) in
   code = ''aaaaa-aaaaa'' \<and> NormalizeRecoveryCode demo_platform (RemoveAll (CHR ''-'') code) \<noteq> code"
  by code_simp

end
