(* ===== verification/Accounts.thy ===== *)
theory Accounts
  imports Crawl_Queue Totp
begin

section \<open>Accounts, audit, sessions, second factor: internal/database\<close>

text \<open>
  The account methods of \<open>db.go\<close>, all of \<open>sessions.go\<close> and \<open>totp.go\<close>. Every method here
  is one statement or one transaction. One counter \<open>next_id\<close> stands for the sequences of all
  tables.
\<close>

definition NormalizeEmail :: "platform \<Rightarrow> string \<Rightarrow> string" where
  "NormalizeEmail P email = lower P (TrimSpace email)"

definition update_users :: "(user_row \<Rightarrow> bool) \<Rightarrow> (user_row \<Rightarrow> user_row) \<Rightarrow> db \<Rightarrow> db" where
  "update_users Q f d = d\<lparr>users := update_where Q f (users d)\<rparr>"

definition new_user :: "nat \<Rightarrow> time \<Rightarrow> string \<Rightarrow> string \<Rightarrow> string \<Rightarrow> string \<Rightarrow> user_row" where
  "new_user i now email passwordHash role vtoken =
     \<lparr>us_id = int i, us_email = email, us_hash = passwordHash, us_role = role, us_verified = False,
      us_vtoken = Some vtoken, us_vexp = Some (now + 24 * Hour), us_rtoken = None, us_rexp = None,
      us_version = 0, us_created = now, us_totp_secret = None, us_totp_enabled = False,
      us_totp_confirmed = None, us_totp_last = 0, us_retention = 0, us_store = True,
      us_del_req = None, us_del_for = None\<rparr>"

text \<open>\<open>INSERT INTO users\<close>; a duplicate email is the unique violation (code 23505).\<close>

datatype insert_outcome = Inserted db | UniqueViolation | OtherError

definition insert_user ::
    "time \<Rightarrow> string \<Rightarrow> string \<Rightarrow> string \<Rightarrow> string \<Rightarrow> db \<Rightarrow> insert_outcome" where
  "insert_user now email passwordHash role vtoken d =
     (if \<not> texts_ok [email, passwordHash] \<or> rune_count email > 255 \<or> rune_count passwordHash > 255
      then OtherError
      else if exists_where (\<lambda>r. us_email r = email) (users d) then UniqueViolation
      else Inserted (d\<lparr>users := users d @ [new_user (next_id d) now email passwordHash role vtoken],
                       next_id := Suc (next_id d)\<rparr>))"

definition CreateUser ::
    "platform \<Rightarrow> time \<Rightarrow> string \<Rightarrow> string \<Rightarrow> string \<Rightarrow> string \<Rightarrow> db \<Rightarrow> unit result \<times> db" where
  "CreateUser P now email passwordHash role token d =
     (if role \<noteq> ''user'' \<and> role \<noteq> ''admin'' then (Inl ErrInvalidRole, d)
      else case insert_user now (NormalizeEmail P email) passwordHash role (opaqueTokenHash P token) d of
        Inserted d' \<Rightarrow> (Inr (), d')
      | _ \<Rightarrow> (Inl ErrSQL, d))"

definition CreateRegisteredUser ::
    "platform \<Rightarrow> time \<Rightarrow> string \<Rightarrow> string \<Rightarrow> string \<Rightarrow> string \<Rightarrow> db \<Rightarrow> string result \<times> db" where
  "CreateRegisteredUser P now email0 passwordHash token adminEmail0 d =
     (let email = NormalizeEmail P email0; adminEmail = NormalizeEmail P adminEmail0;
          hasAdmin = exists_where (\<lambda>r. us_role r = ''admin'') (users d);
          role = (if adminEmail \<noteq> [] \<and> email = adminEmail \<and> \<not> hasAdmin then ''admin'' else ''user'')
      in case insert_user now email passwordHash role (opaqueTokenHash P token) d of
           Inserted d' \<Rightarrow> (Inr role, d')
         | UniqueViolation \<Rightarrow> (Inl ErrEmailInUse, d)
         | OtherError \<Rightarrow> (Inl ErrSQL, d))"

record User =
  ID :: int
  Email :: string
  PasswordHash :: string
  Role :: string
  IsVerified :: bool
  TokenVersion :: int
  CreatedAt :: time

definition user_view :: "user_row \<Rightarrow> User" where
  "user_view r = \<lparr>ID = us_id r, Email = us_email r, PasswordHash = us_hash r, Role = us_role r,
     IsVerified = us_verified r, TokenVersion = us_version r, CreatedAt = us_created r\<rparr>"

definition GetUserByEmail :: "platform \<Rightarrow> string \<Rightarrow> db \<Rightarrow> User option result" where
  "GetUserByEmail P email d =
     (if \<not> texts_ok [NormalizeEmail P email] then Inl ErrSQL
      else Inr (map_option user_view
        (first_where (\<lambda>r. us_email r = NormalizeEmail P email) (users d))))"

definition SetResetToken :: "platform \<Rightarrow> time \<Rightarrow> string \<Rightarrow> string \<Rightarrow> db \<Rightarrow> bool result \<times> db" where
  "SetResetToken P now email token d =
     (let hit = (\<lambda>r. us_email r = NormalizeEmail P email) in
      if \<not> texts_ok [NormalizeEmail P email] then (Inl ErrSQL, d)
      else (Inr (rows_affected hit (users d) > 0),
            update_users hit (\<lambda>r. r\<lparr>us_rtoken := Some (opaqueTokenHash P token),
              us_rexp := Some (now + Hour)\<rparr>) d))"

definition reset_hit :: "platform \<Rightarrow> time \<Rightarrow> string \<Rightarrow> user_row \<Rightarrow> bool" where
  "reset_hit P now token r =
     (us_rtoken r = Some (opaqueTokenHash P token) \<and>
      (case us_rexp r of None \<Rightarrow> False | Some t \<Rightarrow> t > now))"

definition ResetPassword :: "platform \<Rightarrow> time \<Rightarrow> string \<Rightarrow> string \<Rightarrow> db \<Rightarrow> unit result \<times> db" where
  "ResetPassword P now token newHash d =
     (if length token < 16 then (Inl ErrInvalidToken, d)
      else if \<not> texts_ok [newHash] \<or> (rune_count newHash > 255 \<and> rows_affected (reset_hit P now token) (users d) > 0)
        then (Inl ErrSQL, d)
      else if rows_affected (reset_hit P now token) (users d) = 0 then (Inl ErrTokenUsed, d)
      else (Inr (), update_users (reset_hit P now token)
             (\<lambda>r. r\<lparr>us_hash := newHash, us_rtoken := None, us_rexp := None, us_version := us_version r + 1\<rparr>) d))"

definition BumpTokenVersion :: "int \<Rightarrow> db \<Rightarrow> db" where
  "BumpTokenVersion userID d =
     update_users (\<lambda>r. us_id r = userID) (\<lambda>r. r\<lparr>us_version := us_version r + 1\<rparr>) d"

definition UpgradePasswordHash :: "int \<Rightarrow> string \<Rightarrow> string \<Rightarrow> db \<Rightarrow> unit result \<times> db" where
  "UpgradePasswordHash userID oldHash newHash d =
     (let hit = (\<lambda>r. us_id r = userID \<and> us_hash r = oldHash) in
      if \<not> texts_ok [oldHash, newHash] \<or> (rune_count newHash > 255 \<and> rows_affected hit (users d) > 0)
      then (Inl ErrSQL, d)
      else (Inr (), update_users hit (\<lambda>r. r\<lparr>us_hash := newHash\<rparr>) d))"

definition verify_hit :: "platform \<Rightarrow> time \<Rightarrow> string \<Rightarrow> user_row \<Rightarrow> bool" where
  "verify_hit P now token r =
     (us_vtoken r = Some (opaqueTokenHash P token) \<and> \<not> us_verified r \<and>
      (case us_vexp r of None \<Rightarrow> True | Some t \<Rightarrow> t > now))"

definition VerifyUser :: "platform \<Rightarrow> time \<Rightarrow> string \<Rightarrow> db \<Rightarrow> unit result \<times> db" where
  "VerifyUser P now token d =
     (if length token < 16 then (Inl ErrInvalidToken, d)
      else if rows_affected (verify_hit P now token) (users d) = 0 then (Inl ErrTokenUsed, d)
      else (Inr (), update_users (verify_hit P now token)
             (\<lambda>r. r\<lparr>us_verified := True, us_vtoken := None, us_vexp := None\<rparr>) d))"

definition GetUserAuthInfo :: "int \<Rightarrow> db \<Rightarrow> (string \<times> string \<times> int) option" where
  "GetUserAuthInfo userID d =
     map_option (\<lambda>r. (us_email r, us_role r, us_version r)) (find_user userID d)"

subsection \<open>Stored credentials are digests\<close>

definition opaqueTokenMigration :: string where
  "opaqueTokenMigration = ''hash-opaque-tokens-v1''"

definition migrateOpaqueTokens :: "platform \<Rightarrow> db \<Rightarrow> db" where
  "migrateOpaqueTokens P d =
     (if opaqueTokenMigration \<in> set (migrations d) then d
      else (update_users (\<lambda>r. us_vtoken r \<noteq> None \<or> us_rtoken r \<noteq> None)
             (\<lambda>r. r\<lparr>us_vtoken := map_option (opaqueTokenHash P) (us_vtoken r),
                     us_rtoken := map_option (opaqueTokenHash P) (us_rtoken r)\<rparr>) d)
           \<lparr>migrations := migrations d @ [opaqueTokenMigration]\<rparr>)"

subsection \<open>The audit log\<close>

text \<open>\<open>LogAuthEvent\<close> is best effort: an error is only logged.\<close>

definition LogAuthEvent :: "time \<Rightarrow> string \<Rightarrow> string \<Rightarrow> string \<Rightarrow> db \<Rightarrow> db" where
  "LogAuthEvent now event emailRef ipRef d =
     (if \<not> texts_ok [event, emailRef, ipRef] then d
      else d\<lparr>audit := audit d @ [\<lparr>a_event = event, a_email = emailRef, a_ip = ipRef, a_at = now\<rparr>]\<rparr>)"

definition CountRecentAuthEvents :: "time \<Rightarrow> string \<Rightarrow> string \<Rightarrow> int \<Rightarrow> db \<Rightarrow> nat" where
  "CountRecentAuthEvents now event emailRef windowMinutes d =
     count_where (\<lambda>a. a_event a = event \<and> a_email a = emailRef \<and> a_at a > now - windowMinutes * Minute)
       (audit d)"

definition PurgeOldAuditLogs :: "time \<Rightarrow> duration \<Rightarrow> db \<Rightarrow> nat \<times> db" where
  "PurgeOldAuditLogs now olderThan d =
     (let old = (\<lambda>a. a_at a < now - whole_seconds olderThan * Second) in
      (rows_affected old (audit d), d\<lparr>audit := delete_where old (audit d)\<rparr>))"

subsection \<open>Sessions\<close>

definition CreateSession ::
    "time \<Rightarrow> int \<Rightarrow> string \<Rightarrow> string \<Rightarrow> time \<Rightarrow> db \<Rightarrow> nat result \<times> db" where
  "CreateSession now userID tokenID deviceLabel expiresAt d =
     (if \<not> texts_ok [tokenID, deviceLabel] \<or> rune_count tokenID > 64 \<or> rune_count deviceLabel > 80
      then (Inl ErrSQL, d)
      else if exists_where (\<lambda>s. s_token s = tokenID) (sessions d) \<or> \<not> user_exists userID d
        then (Inl ErrSQL, d)
      else (Inr (next_id d),
            d\<lparr>sessions := sessions d @ [\<lparr>s_id = next_id d, s_user = userID, s_token = tokenID,
                s_label = deviceLabel, s_created = now, s_used = now, s_expires = expiresAt,
                s_revoked = None\<rparr>],
              next_id := Suc (next_id d)\<rparr>))"

definition live_session :: "time \<Rightarrow> session_row \<Rightarrow> bool" where
  "live_session now s = (s_revoked s = None \<and> s_expires s > now)"

definition SessionActive :: "time \<Rightarrow> int \<Rightarrow> string \<Rightarrow> db \<Rightarrow> bool" where
  "SessionActive now userID tokenID d =
     exists_where (\<lambda>s. s_token s = tokenID \<and> s_user s = userID \<and> live_session now s) (sessions d)"

definition update_sessions :: "(session_row \<Rightarrow> bool) \<Rightarrow> (session_row \<Rightarrow> session_row) \<Rightarrow> db \<Rightarrow> db" where
  "update_sessions Q f d = d\<lparr>sessions := update_where Q f (sessions d)\<rparr>"

definition TouchSession :: "time \<Rightarrow> string \<Rightarrow> duration \<Rightarrow> db \<Rightarrow> db" where
  "TouchSession now tokenID staleAfter d =
     update_sessions (\<lambda>s. s_token s = tokenID \<and> s_revoked s = None \<and> s_used s < now - staleAfter)
       (\<lambda>s. s\<lparr>s_used := now\<rparr>) d"

record Session =
  ss_id :: nat
  ss_label :: string
  ss_created :: time
  ss_used :: time
  ss_expires :: time
  ss_current :: bool

definition ListSessions :: "time \<Rightarrow> int \<Rightarrow> string \<Rightarrow> db \<Rightarrow> Session list" where
  "ListSessions now userID currentTokenID d =
     map (\<lambda>s. \<lparr>ss_id = s_id s, ss_label = s_label s, ss_created = s_created s, ss_used = s_used s,
                ss_expires = s_expires s, ss_current = (s_token s = currentTokenID)\<rparr>)
       (sort_key (\<lambda>s. - s_used s)
         (filter (\<lambda>s. s_user s = userID \<and> live_session now s) (sessions d)))"

definition RevokeSession :: "time \<Rightarrow> int \<Rightarrow> int \<Rightarrow> db \<Rightarrow> bool \<times> db" where
  "RevokeSession now userID sessionID d =
     (let hit = (\<lambda>s. int (s_id s) = sessionID \<and> s_user s = userID \<and> s_revoked s = None) in
      (rows_affected hit (sessions d) = 1, update_sessions hit (\<lambda>s. s\<lparr>s_revoked := Some now\<rparr>) d))"

definition RevokeAllSessions :: "time \<Rightarrow> int \<Rightarrow> string \<Rightarrow> db \<Rightarrow> db" where
  "RevokeAllSessions now userID exceptTokenID d =
     update_sessions (\<lambda>s. s_user s = userID \<and> s_revoked s = None \<and>
         (exceptTokenID = [] \<or> s_token s \<noteq> exceptTokenID)) (\<lambda>s. s\<lparr>s_revoked := Some now\<rparr>) d"

definition RevokeSessionByToken :: "time \<Rightarrow> string \<Rightarrow> db \<Rightarrow> db" where
  "RevokeSessionByToken now tokenID d =
     update_sessions (\<lambda>s. s_token s = tokenID \<and> s_revoked s = None) (\<lambda>s. s\<lparr>s_revoked := Some now\<rparr>) d"

definition DeleteExpiredSessions :: "time \<Rightarrow> db \<Rightarrow> nat \<times> db" where
  "DeleteExpiredSessions now d =
     (rows_affected (\<lambda>s. s_expires s < now) (sessions d),
      d\<lparr>sessions := delete_where (\<lambda>s. s_expires s < now) (sessions d)\<rparr>)"

subsection \<open>The second factor\<close>

record TOTPState =
  ts_secret :: string
  ts_enabled :: bool
  ts_lastStep :: int
  ts_confirmed :: bool

definition GetTOTPState :: "int \<Rightarrow> db \<Rightarrow> TOTPState result" where
  "GetTOTPState userID d =
     (case find_user userID d of None \<Rightarrow> Inl ErrNoRows
      | Some r \<Rightarrow> Inr \<lparr>ts_secret = or_else [] (us_totp_secret r), ts_enabled = us_totp_enabled r,
                      ts_lastStep = us_totp_last r, ts_confirmed = (us_totp_confirmed r \<noteq> None)\<rparr>)"

definition StageTOTPSecret :: "int \<Rightarrow> string \<Rightarrow> db \<Rightarrow> unit result \<times> db" where
  "StageTOTPSecret userID secret d =
     (let hit = (\<lambda>r. us_id r = userID \<and> \<not> us_totp_enabled r) in
      if \<not> texts_ok [secret] \<or> (rune_count secret > 255 \<and> rows_affected hit (users d) > 0)
      then (Inl ErrSQL, d)
      else if rows_affected hit (users d) = 0 then (Inl ErrTOTPEnabled, d)
      else (Inr (), update_users hit (\<lambda>r. r\<lparr>us_totp_secret := Some secret, us_totp_confirmed := None\<rparr>) d))"

text \<open>The unique index on \<open>(user_id, code_hash)\<close> makes repeated digests an error.\<close>

definition ConfirmTOTP :: "time \<Rightarrow> int \<Rightarrow> int \<Rightarrow> string list \<Rightarrow> db \<Rightarrow> unit result \<times> db" where
  "ConfirmTOTP now userID step codeHashes d =
     (let hit = (\<lambda>r. us_id r = userID \<and> \<not> us_totp_enabled r \<and> us_totp_secret r \<noteq> None) in
      if rows_affected hit (users d) = 0 then (Inl ErrNoEnrolment, d)
      else if \<not> distinct codeHashes \<or> \<not> texts_ok codeHashes \<or> list_ex (\<lambda>h. rune_count h > 64) codeHashes
        then (Inl ErrSQL, d)
      else (Inr (),
        (update_users hit (\<lambda>r. r\<lparr>us_totp_enabled := True, us_totp_confirmed := Some now,
           us_totp_last := step\<rparr>) d)
        \<lparr>codes := delete_where (\<lambda>c. c_user c = userID) (codes d) @
           map (\<lambda>h. \<lparr>c_user = userID, c_hash = h, c_used = None\<rparr>) codeHashes\<rparr>))"

definition ConsumeTOTPStep :: "int \<Rightarrow> int \<Rightarrow> db \<Rightarrow> unit result \<times> db" where
  "ConsumeTOTPStep userID step d =
     (let hit = (\<lambda>r. us_id r = userID \<and> us_totp_last r < step) in
      if rows_affected hit (users d) = 0 then (Inl ErrTOTPReplay, d)
      else (Inr (), update_users hit (\<lambda>r. r\<lparr>us_totp_last := step\<rparr>) d))"

definition ConsumeRecoveryCode :: "time \<Rightarrow> int \<Rightarrow> string \<Rightarrow> db \<Rightarrow> bool result \<times> db" where
  "ConsumeRecoveryCode now userID codeHash d =
     (let hit = (\<lambda>c. c_user c = userID \<and> c_hash c = codeHash \<and> c_used c = None) in
      if \<not> texts_ok [codeHash] then (Inl ErrSQL, d)
      else (Inr (rows_affected hit (codes d) = 1),
            d\<lparr>codes := update_where hit (\<lambda>c. c\<lparr>c_used := Some now\<rparr>) (codes d)\<rparr>))"

definition CountUnusedRecoveryCodes :: "int \<Rightarrow> db \<Rightarrow> nat" where
  "CountUnusedRecoveryCodes userID d =
     count_where (\<lambda>c. c_user c = userID \<and> c_used c = None) (codes d)"

definition DisableTOTP :: "int \<Rightarrow> db \<Rightarrow> db" where
  "DisableTOTP userID d =
     (update_users (\<lambda>r. us_id r = userID)
       (\<lambda>r. r\<lparr>us_totp_secret := None, us_totp_enabled := False, us_totp_confirmed := None,
               us_totp_last := 0\<rparr>) d)
     \<lparr>codes := delete_where (\<lambda>c. c_user c = userID) (codes d)\<rparr>"

definition RecoveryCodeHash :: "platform \<Rightarrow> string \<Rightarrow> string" where
  "RecoveryCodeHash P code = opaqueTokenHash P code"

end
