(* ===== verification/Privacy.thy ===== *)
theory Privacy
  imports Accounts
begin

section \<open>Data lifecycle: internal/database/privacy.go\<close>

text \<open>
  Retention windows, scheduled deletion, purges and the personal-data export. \<open>rank\<close> is the
  order in which the server returns rows that compare equal. A timestamp formatted by \<open>TO_CHAR\<close>
  stays a number.
\<close>

definition MaxRetentionDays :: int where "MaxRetentionDays = 3650"

record PrivacySettings =
  RetentionDays :: int
  StoreContent :: bool
  DeletionRequestedAt :: "time option"
  DeletionScheduledFor :: "time option"

definition GetPrivacySettings :: "int \<Rightarrow> db \<Rightarrow> PrivacySettings result" where
  "GetPrivacySettings userID d =
     (case find_user userID d of
        None \<Rightarrow> Inl ErrNoRows
      | Some r \<Rightarrow> Inr \<lparr>RetentionDays = us_retention r, StoreContent = us_store r,
          DeletionRequestedAt = us_del_req r, DeletionScheduledFor = us_del_for r\<rparr>)"

definition SetPrivacySettings :: "int \<Rightarrow> int \<Rightarrow> bool \<Rightarrow> db \<Rightarrow> unit result \<times> db" where
  "SetPrivacySettings userID retentionDays storeContent d =
     (if retentionDays < 0 \<or> retentionDays > MaxRetentionDays then (Inl ErrRetentionOutOfRange, d)
      else (Inr (), update_users (\<lambda>r. us_id r = userID)
             (\<lambda>r. r\<lparr>us_retention := retentionDays, us_store := storeContent\<rparr>) d))"

subsection \<open>Scheduled deletion\<close>

definition RequestAccountDeletion :: "time \<Rightarrow> int \<Rightarrow> duration \<Rightarrow> db \<Rightarrow> time result \<times> db" where
  "RequestAccountDeletion now userID grace0 d =
     (let grace = (if grace0 < 0 then 0 else grace0);
          scheduled = now + whole_seconds grace * Second;
          hit = (\<lambda>r. us_id r = userID \<and> us_del_for r = None)
      in if rows_affected hit (users d) = 0 then (Inl ErrDeletionPending, d)
         else (Inr scheduled,
               update_users hit (\<lambda>r. r\<lparr>us_del_req := Some now, us_del_for := Some scheduled\<rparr>) d))"

definition CancelAccountDeletion :: "int \<Rightarrow> db \<Rightarrow> bool \<times> db" where
  "CancelAccountDeletion userID d =
     (let hit = (\<lambda>r. us_id r = userID \<and> us_del_for r \<noteq> None) in
      (rows_affected hit (users d) > 0,
       update_users hit (\<lambda>r. r\<lparr>us_del_req := None, us_del_for := None\<rparr>) d))"

definition deletion_due :: "time \<Rightarrow> user_row \<Rightarrow> bool" where
  "deletion_due now r = (case us_del_for r of None \<Rightarrow> False | Some t \<Rightarrow> t \<le> now)"

definition DueAccountDeletions :: "(user_row \<Rightarrow> nat) \<Rightarrow> time \<Rightarrow> int \<Rightarrow> db \<Rightarrow> (int \<times> string) list" where
  "DueAccountDeletions rank now limit0 d =
     (let lim = (if limit0 \<le> 0 then 50 else nat limit0) in
      map (\<lambda>r. (us_id r, us_email r))
        (order_limit (\<lambda>r. (or_else 0 (us_del_for r), rank r)) lim (filter (deletion_due now) (users d))))"

definition DeleteAccount :: "int \<Rightarrow> string \<Rightarrow> db \<Rightarrow> unit result \<times> db" where
  "DeleteAccount userID auditEmailRef d =
     (if auditEmailRef \<noteq> [] \<and> \<not> texts_ok [auditEmailRef] then (Inl ErrSQL, d)
      else let d1 = (if auditEmailRef = [] then d
                     else d\<lparr>audit := delete_where (\<lambda>a. a_email a = auditEmailRef) (audit d)\<rparr>) in
        (Inr (), delete_user userID d1))"

subsection \<open>Purges\<close>

definition DeleteCrawlHistory :: "int \<Rightarrow> db \<Rightarrow> nat \<times> db" where
  "DeleteCrawlHistory userID d =
     (rows_affected (\<lambda>n. n_user n = userID) (nodes d), delete_nodes (\<lambda>n. n_user n = userID) d)"

definition has_content :: "node_row \<Rightarrow> bool" where
  "has_content n = (case n_content n of None \<Rightarrow> False | Some c \<Rightarrow> c \<noteq> [])"

definition PurgeStoredContent :: "int \<Rightarrow> db \<Rightarrow> nat \<times> db" where
  "PurgeStoredContent userID d =
     (let hit = (\<lambda>n. n_user n = userID \<and> has_content n) in
      (rows_affected hit (nodes d), update_nodes hit (\<lambda>n. n\<lparr>n_content := None, n_hash := None\<rparr>) d))"

definition throttle_events :: "string list" where
  "throttle_events = [''login_fail'', ''register_ok'', ''reset_request'']"

definition PurgeAuthAudit :: "time \<Rightarrow> string \<Rightarrow> db \<Rightarrow> nat result \<times> db" where
  "PurgeAuthAudit now auditEmailRef d =
     (let hit = (\<lambda>a. a_email a = auditEmailRef \<and>
                   \<not> (a_event a \<in> set throttle_events \<and> a_at a > now - 2 * Hour)) in
      if auditEmailRef = [] then (Inr 0, d)
      else if \<not> texts_ok [auditEmailRef] then (Inl ErrSQL, d)
      else (Inr (rows_affected hit (audit d)), d\<lparr>audit := delete_where hit (audit d)\<rparr>))"

subsection \<open>Retention\<close>

record RetentionReport =
  Accounts :: nat
  NodesMatched :: nat
  NodesDeleted :: nat
  DryRun :: bool

text \<open>Whether the account wrote something about a node or watches it.\<close>

definition annotated :: "db \<Rightarrow> node_row \<Rightarrow> bool" where
  "annotated d n =
     (exists_where (\<lambda>t. t_node t = n_id n) (tags d) \<or>
      exists_where (\<lambda>o'. o_node o' = n_id n) (site_notes d) \<or>
      exists_where (\<lambda>w. w_node w = n_id n) (watches d))"

definition expired :: "db \<Rightarrow> int \<Rightarrow> time \<Rightarrow> node_row \<Rightarrow> bool" where
  "expired d userID cutoff n =
     (n_user n = userID \<and> n_discovered n < cutoff \<and>
      (case n_last n of None \<Rightarrow> True | Some t \<Rightarrow> t < cutoff) \<and>
      n_status n \<noteq> Crawling \<and> \<not> annotated d n)"

text \<open>\<open>time.Now().AddDate(0, 0, -days)\<close>, in a zone whose days all have 24 hours.\<close>

definition retention_cutoff :: "time \<Rightarrow> int \<Rightarrow> time" where
  "retention_cutoff now days = now - days * Day"

definition retention_ids :: "(node_row \<Rightarrow> nat) \<Rightarrow> int \<Rightarrow> time \<Rightarrow> nat \<Rightarrow> db \<Rightarrow> nat list" where
  "retention_ids rank userID cutoff batch d =
     map n_id (order_limit (\<lambda>n. (n_discovered n, rank n)) batch (filter (expired d userID cutoff) (nodes d)))"

text \<open>One turn of the loop over the policies; \<open>clock u\<close> is \<open>time.Now()\<close> at the turn of account \<open>u\<close>.\<close>

definition retention_step ::
    "(node_row \<Rightarrow> nat) \<Rightarrow> (int \<Rightarrow> time) \<Rightarrow> nat \<Rightarrow> int \<times> int \<Rightarrow> RetentionReport \<times> db \<Rightarrow> RetentionReport \<times> db" where
  "retention_step rank clock batch p s =
     (let (report0, d) = s; report = report0\<lparr>Accounts := Accounts report0 + 1\<rparr>;
          cutoff = retention_cutoff (clock (fst p)) (snd p)
      in if DryRun report
         then (report\<lparr>NodesMatched := NodesMatched report + count_where (expired d (fst p) cutoff) (nodes d)\<rparr>, d)
         else let ids = retention_ids rank (fst p) cutoff batch d; hit = (\<lambda>n. n_id n \<in> set ids);
                  n = rows_affected hit (nodes d)
           in (report\<lparr>NodesMatched := NodesMatched report + n, NodesDeleted := NodesDeleted report + n\<rparr>,
               delete_nodes hit d))"

definition policies :: "db \<Rightarrow> (int \<times> int) list" where
  "policies d = map (\<lambda>r. (us_id r, us_retention r)) (sort_key us_id (filter (\<lambda>r. us_retention r > 0) (users d)))"

definition ApplyRetention ::
    "(node_row \<Rightarrow> nat) \<Rightarrow> (int \<Rightarrow> time) \<Rightarrow> int \<Rightarrow> bool \<Rightarrow> db \<Rightarrow> RetentionReport \<times> db" where
  "ApplyRetention rank clock batch0 dryRun d =
     (let batch = (if batch0 \<le> 0 then 1000 else nat batch0) in
      fold (retention_step rank clock batch) (policies d)
        (\<lparr>Accounts = 0, NodesMatched = 0, NodesDeleted = 0, DryRun = dryRun\<rparr>, d))"

subsection \<open>Export\<close>

definition ListAuthEvents :: "(audit_row \<Rightarrow> nat) \<Rightarrow> string \<Rightarrow> int \<Rightarrow> db \<Rightarrow> (string \<times> time) list result" where
  "ListAuthEvents rank auditEmailRef limit0 d =
     (let lim = (if limit0 \<le> 0 \<or> limit0 > 5000 then 1000 else nat limit0) in
      if auditEmailRef = [] then Inr []
      else if \<not> texts_ok [auditEmailRef] then Inl ErrSQL
      else Inr (map (\<lambda>a. (a_event a, a_at a))
        (order_limit (\<lambda>a. (- a_at a, rank a)) lim (filter (\<lambda>a. a_email a = auditEmailRef) (audit d)))))"

definition ExportEdges :: "int \<Rightarrow> (string \<times> string \<Rightarrow> 's \<Rightarrow> db_error + 's) \<Rightarrow> db \<Rightarrow> 's \<Rightarrow> db_error + 's" where
  "ExportEdges userID fn d s =
     each_row fn (map (\<lambda>e. (e_source e, e_target e))
       (sort_key e_at (filter (\<lambda>e. e_user e = userID) (edges d)))) s"

record AccountProfile =
  ap_ID :: int
  ap_Email :: string
  ap_Role :: string
  ap_IsVerified :: bool
  ap_CreatedAt :: time
  ap_TOTPEnabled :: bool
  ap_TOTPConfirmedAt :: "time option"

definition GetAccountProfile :: "int \<Rightarrow> db \<Rightarrow> AccountProfile result" where
  "GetAccountProfile userID d =
     (case find_user userID d of
        None \<Rightarrow> Inl ErrNoRows
      | Some r \<Rightarrow> Inr \<lparr>ap_ID = us_id r, ap_Email = us_email r, ap_Role = us_role r,
          ap_IsVerified = us_verified r, ap_CreatedAt = us_created r, ap_TOTPEnabled = us_totp_enabled r,
          ap_TOTPConfirmedAt = us_totp_confirmed r\<rparr>)"

end
