(* ===== verification/Annotations.thy ===== *)
theory Annotations
  imports Privacy
begin

section \<open>Tags, notes, watches: internal/database/annotations.go\<close>

text \<open>
  What an account writes about a site and the sites it watches for changes. Every operation
  resolves the URL to the account's own row first. A timestamp formatted by \<open>TO_CHAR\<close> stays a number.
\<close>

definition MaxTagLen :: nat where "MaxTagLen = 40"
definition MaxTagsPerNode :: nat where "MaxTagsPerNode = 25"
definition MaxNoteLen :: nat where "MaxNoteLen = 4000"
definition MinWatchIntervalDays :: int where "MinWatchIntervalDays = 1"
definition MaxWatchIntervalDays :: int where "MaxWatchIntervalDays = 365"

definition NormalizeTag :: "platform \<Rightarrow> string \<Rightarrow> string" where
  "NormalizeTag P tag = Join (Fields (lower P (TrimSpace tag))) '' ''"

definition nodeIDFor :: "platform \<Rightarrow> string \<Rightarrow> int \<Rightarrow> db \<Rightarrow> nat result" where
  "nodeIDFor P nodeURL userID d =
     (case canonicalCrawlURL P nodeURL of
        Inl e \<Rightarrow> Inl e
      | Inr (canonical, _) \<Rightarrow>
          if \<not> texts_ok [canonical] then Inl ErrSQL
          else (case find_node canonical userID d of None \<Rightarrow> Inl ErrNodeNotFound | Some n \<Rightarrow> Inr (n_id n)))"

record Watch =
  wt_id :: nat
  wt_url :: string
  wt_title :: string
  wt_interval :: int
  wt_status :: int
  wt_checked :: "time option"
  wt_created :: time

definition watch_view :: "node_row \<Rightarrow> watch_row \<Rightarrow> Watch" where
  "watch_view n w =
     \<lparr>wt_id = w_id w, wt_url = n_url n, wt_title = or_else [] (n_title n), wt_interval = w_interval w,
      wt_status = or_else 0 (w_code w), wt_checked = w_checked w, wt_created = w_created w\<rparr>"

text \<open>\<open>FROM watches w JOIN nodes n ON n.id = w.node_id\<close>.\<close>

definition watch_nodes :: "db \<Rightarrow> (watch_row \<times> node_row) list" where
  "watch_nodes d = filter (\<lambda>(w, n). n_id n = w_node w) (List.product (watches d) (nodes d))"

definition watchFor :: "nat \<Rightarrow> int \<Rightarrow> db \<Rightarrow> Watch option" where
  "watchFor nodeID userID d =
     map_option (\<lambda>(w, n). watch_view n w)
       (first_where (\<lambda>(w, n). w_user w = userID \<and> w_node w = nodeID) (watch_nodes d))"

record Annotation =
  an_tags :: "string list"
  an_note :: string
  an_watch :: "Watch option"

text \<open>The tags come in the order of the database's collation, \<open>coll\<close>.\<close>

definition GetAnnotation :: "platform \<Rightarrow> (string \<Rightarrow> nat) \<Rightarrow> string \<Rightarrow> int \<Rightarrow> db \<Rightarrow> Annotation result" where
  "GetAnnotation P coll nodeURL userID d =
     (case nodeIDFor P nodeURL userID d of
        Inl e \<Rightarrow> Inl e
      | Inr nodeID \<Rightarrow> Inr
          \<lparr>an_tags = sort_key coll (map t_tag (filter (\<lambda>t. t_user t = userID \<and> t_node t = nodeID) (tags d))),
           an_note = (case first_where (\<lambda>o'. o_user o' = userID \<and> o_node o' = nodeID) (site_notes d) of
                        None \<Rightarrow> [] | Some o' \<Rightarrow> o_body o'),
           an_watch = watchFor nodeID userID d\<rparr>)"

definition tag_at :: "int \<Rightarrow> nat \<Rightarrow> tag_row \<Rightarrow> bool" where
  "tag_at userID nodeID t = (t_user t = userID \<and> t_node t = nodeID)"

definition AddTag :: "platform \<Rightarrow> string \<Rightarrow> int \<Rightarrow> string \<Rightarrow> db \<Rightarrow> unit result \<times> db" where
  "AddTag P nodeURL userID tag0 d =
     (let tag = NormalizeTag P tag0 in
      if tag = [] \<or> length tag > MaxTagLen then (Inl ErrInvalidTag, d)
      else case nodeIDFor P nodeURL userID d of
        Inl e \<Rightarrow> (Inl e, d)
      | Inr nodeID \<Rightarrow>
          if count_where (tag_at userID nodeID) (tags d) \<ge> MaxTagsPerNode then (Inl ErrTooManyTags, d)
          else if \<not> texts_ok [tag] then (Inl ErrSQL, d)
          else if exists_where (\<lambda>t. tag_at userID nodeID t \<and> t_tag t = tag) (tags d) then (Inr (), d)
          else (Inr (), d\<lparr>tags := tags d @ [\<lparr>t_user = userID, t_node = nodeID, t_tag = tag\<rparr>]\<rparr>))"

definition RemoveTag :: "platform \<Rightarrow> string \<Rightarrow> int \<Rightarrow> string \<Rightarrow> db \<Rightarrow> unit result \<times> db" where
  "RemoveTag P nodeURL userID tag d =
     (case nodeIDFor P nodeURL userID d of
        Inl e \<Rightarrow> (Inl e, d)
      | Inr nodeID \<Rightarrow>
          if \<not> texts_ok [NormalizeTag P tag] then (Inl ErrSQL, d)
          else (Inr (), d\<lparr>tags := delete_where (\<lambda>t. tag_at userID nodeID t \<and> t_tag t = NormalizeTag P tag) (tags d)\<rparr>))"

definition note_at :: "int \<Rightarrow> nat \<Rightarrow> note_row \<Rightarrow> bool" where
  "note_at userID nodeID o' = (o_user o' = userID \<and> o_node o' = nodeID)"

definition SetNote :: "platform \<Rightarrow> time \<Rightarrow> string \<Rightarrow> int \<Rightarrow> string \<Rightarrow> db \<Rightarrow> unit result \<times> db" where
  "SetNote P now nodeURL userID body0 d =
     (let body = TrimSpace body0 in
      if length body > MaxNoteLen then (Inl ErrNoteTooLong, d)
      else case nodeIDFor P nodeURL userID d of
        Inl e \<Rightarrow> (Inl e, d)
      | Inr nodeID \<Rightarrow>
          if body = [] then (Inr (), d\<lparr>site_notes := delete_where (note_at userID nodeID) (site_notes d)\<rparr>)
          else if \<not> texts_ok [body] then (Inl ErrSQL, d)
          else if exists_where (note_at userID nodeID) (site_notes d)
            then (Inr (), d\<lparr>site_notes := update_where (note_at userID nodeID)
                   (\<lambda>o'. o'\<lparr>o_body := body, o_at := now\<rparr>) (site_notes d)\<rparr>)
          else (Inr (), d\<lparr>site_notes := site_notes d @
                 [\<lparr>o_user = userID, o_node = nodeID, o_body = body, o_at = now\<rparr>]\<rparr>))"

definition ListTags :: "(string \<Rightarrow> nat) \<Rightarrow> int \<Rightarrow> db \<Rightarrow> (string \<times> nat) list" where
  "ListTags coll userID d =
     (let mine = map t_tag (filter (\<lambda>t. t_user t = userID) (tags d)) in
      sort_key (\<lambda>(tag, n). (- int n, coll tag))
        (map (\<lambda>tag. (tag, count_where ((=) tag) mine)) (remdups mine)))"

subsection \<open>Watches\<close>

definition watch_at :: "int \<Rightarrow> nat \<Rightarrow> watch_row \<Rightarrow> bool" where
  "watch_at userID nodeID w = (w_user w = userID \<and> w_node w = nodeID)"

definition upsert_watch :: "time \<Rightarrow> int \<Rightarrow> nat \<Rightarrow> int \<Rightarrow> db \<Rightarrow> db" where
  "upsert_watch now userID nodeID intervalDays d =
     (if exists_where (watch_at userID nodeID) (watches d)
      then d\<lparr>watches := update_where (watch_at userID nodeID) (\<lambda>w. w\<lparr>w_interval := intervalDays\<rparr>) (watches d)\<rparr>
      else d\<lparr>watches := watches d @ [\<lparr>w_id = next_id d, w_user = userID, w_node = nodeID,
               w_interval = intervalDays, w_hash = None, w_code = None, w_reach = None,
               w_checked = None, w_created = now\<rparr>],
             next_id := Suc (next_id d)\<rparr>)"

definition watched_row :: "time \<Rightarrow> int \<Rightarrow> node_row \<Rightarrow> node_row" where
  "watched_row now intervalDays n =
     n\<lparr>n_interval := intervalDays, n_next := min (n_next n) (or_else now (n_last n) + intervalDays * Day)\<rparr>"

definition StartWatch :: "platform \<Rightarrow> time \<Rightarrow> string \<Rightarrow> int \<Rightarrow> int \<Rightarrow> db \<Rightarrow> Watch option result \<times> db" where
  "StartWatch P now nodeURL userID intervalDays d =
     (if intervalDays < MinWatchIntervalDays \<or> intervalDays > MaxWatchIntervalDays
      then (Inl ErrWatchInterval, d)
      else case nodeIDFor P nodeURL userID d of
        Inl e \<Rightarrow> (Inl e, d)
      | Inr nodeID \<Rightarrow>
          let d1 = update_nodes (\<lambda>n. n_id n = nodeID \<and> n_user n = userID) (watched_row now intervalDays)
                     (upsert_watch now userID nodeID intervalDays d)
          in (Inr (watchFor nodeID userID d1), d1))"

definition StopWatch :: "platform \<Rightarrow> string \<Rightarrow> int \<Rightarrow> db \<Rightarrow> unit result \<times> db" where
  "StopWatch P nodeURL userID d =
     (case nodeIDFor P nodeURL userID d of
        Inl e \<Rightarrow> (Inl e, d)
      | Inr nodeID \<Rightarrow> (Inr (), delete_watches (watch_at userID nodeID) d))"

definition ListWatches :: "int \<Rightarrow> db \<Rightarrow> Watch list" where
  "ListWatches userID d =
     map (\<lambda>(w, n). watch_view n w)
       (sort_key (\<lambda>(w, n). - w_created w) (filter (\<lambda>(w, n). w_user w = userID) (watch_nodes d)))"

record AnnotatedSite =
  as_url :: string
  as_tags :: "string list"
  as_note :: string

text \<open>
  One group per node: its distinct tags and, there being one note per account and site, its note.
\<close>

definition annotated_sites :: "(string \<Rightarrow> nat) \<Rightarrow> int \<Rightarrow> db \<Rightarrow> AnnotatedSite list" where
  "annotated_sites coll userID d =
     map (\<lambda>n. \<lparr>as_url = n_url n,
                as_tags = sort_key coll (remdups (map t_tag (filter (tag_at userID (n_id n)) (tags d)))),
                as_note = (case first_where (note_at userID (n_id n)) (site_notes d) of
                             None \<Rightarrow> [] | Some o' \<Rightarrow> o_body o')\<rparr>)
       (sort_key (\<lambda>n. coll (n_url n))
         (filter (\<lambda>n. n_user n = userID \<and>
            (exists_where (tag_at userID (n_id n)) (tags d) \<or> exists_where (note_at userID (n_id n)) (site_notes d)))
           (nodes d)))"

definition ExportAnnotations ::
    "(string \<Rightarrow> nat) \<Rightarrow> int \<Rightarrow> (AnnotatedSite \<Rightarrow> 's \<Rightarrow> db_error + 's) \<Rightarrow> db \<Rightarrow> 's \<Rightarrow> db_error + 's" where
  "ExportAnnotations coll userID fn d s = each_row fn (annotated_sites coll userID d) s"

subsection \<open>The change feed\<close>

definition WatchEventChanged :: string where "WatchEventChanged = ''content_changed''"
definition WatchEventUnreachable :: string where "WatchEventUnreachable = ''unreachable''"
definition WatchEventRecovered :: string where "WatchEventRecovered = ''recovered''"

definition now_reachable :: "bool \<Rightarrow> int \<Rightarrow> bool" where
  "now_reachable reachable statusCode = (reachable \<and> (statusCode = 0 \<or> statusCode < 400))"

text \<open>The kinds of event one observation is worth.\<close>

definition watch_kinds :: "bool option \<Rightarrow> string option \<Rightarrow> bool \<Rightarrow> string option \<Rightarrow> string list" where
  "watch_kinds lastReachable lastHash nowReachable currentHash =
     (case lastReachable of
        None \<Rightarrow> []
      | Some was \<Rightarrow>
          (if was \<and> \<not> nowReachable then [WatchEventUnreachable]
           else if \<not> was \<and> nowReachable then [WatchEventRecovered] else []) @
          (if nowReachable \<and> lastHash \<noteq> None \<and> currentHash \<noteq> None \<and> lastHash \<noteq> currentHash
           then [WatchEventChanged] else []))"

definition insert_event :: "time \<Rightarrow> watch_row \<Rightarrow> int \<Rightarrow> int \<Rightarrow> string \<Rightarrow> db \<Rightarrow> db" where
  "insert_event now w userID statusCode kind d =
     d\<lparr>events := events d @ [\<lparr>v_id = next_id d, v_watch = w_id w, v_user = userID, v_kind = kind,
         v_code = statusCode, v_at = now, v_seen = None\<rparr>],
       next_id := Suc (next_id d)\<rparr>"

definition observed_row :: "time \<Rightarrow> bool \<Rightarrow> int \<Rightarrow> string option \<Rightarrow> watch_row \<Rightarrow> watch_row" where
  "observed_row now nowReachable statusCode currentHash w =
     w\<lparr>w_hash := (if nowReachable then currentHash else w_hash w), w_code := Some statusCode,
       w_reach := Some nowReachable, w_checked := Some now\<rparr>"

definition RecordWatchObservation ::
    "platform \<Rightarrow> time \<Rightarrow> string \<Rightarrow> int \<Rightarrow> bool \<Rightarrow> int \<Rightarrow> db \<Rightarrow> unit result \<times> db" where
  "RecordWatchObservation P now nodeURL userID reachable statusCode d =
     (case canonicalCrawlURL P nodeURL of
        Inl e \<Rightarrow> (Inl e, d)
      | Inr (canonical, _) \<Rightarrow>
          if \<not> texts_ok [canonical] then (Inl ErrSQL, d)
          else case first_where (\<lambda>(w, n). w_user w = userID \<and> n_url n = canonical) (watch_nodes d) of
            None \<Rightarrow> (Inr (), d)
          | Some (w, n) \<Rightarrow>
              let nowReachable = now_reachable reachable statusCode;
                  kinds = watch_kinds (w_reach w) (w_hash w) nowReachable (n_hash n);
                  d1 = fold (insert_event now w userID statusCode) kinds d
              in (Inr (), d1\<lparr>watches := update_where (\<lambda>w'. w_id w' = w_id w)
                     (observed_row now nowReachable statusCode (n_hash n)) (watches d1)\<rparr>))"

record WatchEvent =
  we_id :: nat
  we_url :: string
  we_title :: string
  we_kind :: string
  we_code :: int
  we_at :: time
  we_seen :: bool

definition ListWatchEvents :: "int \<Rightarrow> int \<Rightarrow> db \<Rightarrow> WatchEvent list" where
  "ListWatchEvents userID limit0 d =
     (let lim = (if limit0 \<le> 0 \<or> limit0 > 200 then 50 else nat limit0);
          rows = filter (\<lambda>(v, w, n). v_watch v = w_id w \<and> v_user v = userID)
                   (List.product (events d) (watch_nodes d))
      in map (\<lambda>(v, w, n). \<lparr>we_id = v_id v, we_url = n_url n, we_title = or_else [] (n_title n),
                we_kind = v_kind v, we_code = v_code v, we_at = v_at v, we_seen = (v_seen v \<noteq> None)\<rparr>)
           (order_limit (\<lambda>(v, w, n). (- v_at v, - int (v_id v))) lim rows))"

definition CountUnseenWatchEvents :: "int \<Rightarrow> db \<Rightarrow> nat" where
  "CountUnseenWatchEvents userID d = count_where (\<lambda>v. v_user v = userID \<and> v_seen v = None) (events d)"

definition MarkWatchEventsSeen :: "time \<Rightarrow> int \<Rightarrow> db \<Rightarrow> nat \<times> db" where
  "MarkWatchEventsSeen now userID d =
     (let hit = (\<lambda>v. v_user v = userID \<and> v_seen v = None) in
      (rows_affected hit (events d),
       d\<lparr>events := update_where hit (\<lambda>v. v\<lparr>v_seen := Some now\<rparr>) (events d)\<rparr>))"

end
