(* ===== verification/Engine.thy ===== *)
theory Engine
  imports Scraper Sitemap Robots Politeness Crawl_Queue Annotations
begin

section \<open>The crawl workers: internal/crawler/engine.go\<close>

text \<open>
  A worker is a state machine: a phase lies between two accesses to what the workers share (the database, the
  map of last accesses, the robots cache, the error counter) or to the network, so that any number of
  workers, API requests and sweepers may run in between. \<open>worker_step\<close> is the body of the loop of \<open>worker\<close> from
  one phase to the next, in the order of the code; every early \<open>continue\<close> and \<open>return\<close> is a phase. What a step
  reads from outside is the record \<open>inputs\<close>: clock, network, the order of equal rows and the rows another
  transaction has locked, the control port, and whether the context was cancelled.

  The counter of network errors keeps its 32 bits. \<open>e_contacts\<close> lists every URL the client contacted; the
  program has no such variable.
\<close>

record crawler =
  c_plat :: platform
  c_html :: html_lib
  c_xml :: sitemap_lib
  MaxDepth :: int
  domainDelay :: duration

record inputs =
  i_now :: time
  i_later :: time
  i_wire :: wire
  i_rank :: "node_row \<Rightarrow> nat"
  i_locked :: "node_row \<Rightarrow> bool"
  i_talk :: "string list \<Rightarrow> string option"
  i_cookie :: "string option"
  i_cancelled :: bool

record engine =
  e_db :: db
  e_access :: access_map
  e_robots :: robots_cache
  globalErrorCount :: "32 word"
  TorCtrl :: "TorController option"
  e_contacts :: "url list"

datatype phase =
    Idle
  | Stopped
  | Crashed
  | Claimed string int int
  | Refused string int
  | Allowed string int int
  | Waiting string int int time
  | ScrapeFailed string int
  | Unreachable string int
  | CountError
  | Crawled string int int ScrapeResult
  | Saving string int int ScrapeResult "string option \<times> bool option"
  | SaveFailed string int int ScrapeResult
  | Saved string int int ScrapeResult
  | Linking string int int "string list"
  | ReadSitemap string int
  | Mapping string int "string list"

subsection \<open>Parts of the loop\<close>

definition robots_fetch :: "platform \<Rightarrow> wire \<Rightarrow> fetcher" where
  "robots_fetch P wire u = map_option (\<lambda>r. (hr_status r, hr_body r)) (fst (client_Do P wire u))"

text \<open>What a look at robots.txt contacts: nothing when the cache answers.\<close>

definition robots_contacts :: "platform \<Rightarrow> wire \<Rightarrow> time \<Rightarrow> string \<Rightarrow> robots_cache \<Rightarrow> url list" where
  "robots_contacts P wire now target m =
     (case url_Parse P target of
        None \<Rightarrow> []
      | Some parsed \<Rightarrow>
          if fst (cache_lookup now (u_host parsed) m) \<noteq> None then []
          else snd (client_Do P wire (u_scheme parsed @ ''://'' @ u_host parsed @ ''/robots.txt'')))"

definition crawl_result_of :: "ScrapeResult \<Rightarrow> crawl_result" where
  "crawl_result_of r =
     \<lparr>cr_title = Title r, cr_server = ServerHeader r, cr_code = StatusCode r, cr_status = Completed,
      cr_meta = (if Metadata r = [] then ''{}'' else Metadata r), cr_content = Content r, cr_category = Category r\<rparr>"

definition errorThreshold :: int where "errorThreshold = 5"

definition onNetworkError :: "inputs \<Rightarrow> engine \<Rightarrow> engine" where
  "onNetworkError i e =
     (let count = globalErrorCount e + 1; e1 = e\<lparr>globalErrorCount := count\<rparr> in
      if sint count < errorThreshold then e1
      else case TorCtrl e of
        None \<Rightarrow> e1
      | Some c \<Rightarrow>
          (case RenewCircuit (i_talk i) (i_cookie i) (i_now i) (i_later i) c of
             (Inr True, c') \<Rightarrow> e1\<lparr>globalErrorCount := 0, TorCtrl := Some c'\<rparr>
           | (_, c') \<Rightarrow> e1\<lparr>TorCtrl := Some c'\<rparr>))"

abbreviation on_db :: "('a \<times> db) \<Rightarrow> engine \<Rightarrow> engine" where
  "on_db res e \<equiv> e\<lparr>e_db := snd res\<rparr>"

abbreviation contacting :: "url list \<Rightarrow> engine \<Rightarrow> engine" where
  "contacting us e \<equiv> e\<lparr>e_contacts := e_contacts e @ us\<rparr>"

subsection \<open>The loop\<close>

fun worker_step :: "crawler \<Rightarrow> inputs \<Rightarrow> phase \<Rightarrow> engine \<Rightarrow> phase \<times> engine" where
  "worker_step C i Idle e =
     (if i_cancelled i then (Stopped, e)
      else let ((targetUrl, depth, userID), d) = GetNextPendingNode (i_rank i) (i_locked i) (i_now i) (e_db e) in
        if targetUrl = [] then (Idle, e\<lparr>e_db := d\<rparr>) else (Claimed targetUrl depth userID, e\<lparr>e_db := d\<rparr>))"
| "worker_step C i (Claimed url depth uid) e =
     (if \<not> IsV3URL (c_plat C) url then (Refused url uid, e)
      else let (ok, m) = IsAllowed (c_plat C) (robots_fetch (c_plat C) (i_wire i)) (i_now i) (i_later i) url (e_robots e);
               e' = contacting (robots_contacts (c_plat C) (i_wire i) (i_now i) url (e_robots e)) (e\<lparr>e_robots := m\<rparr>)
        in if ok then (Allowed url depth uid, e') else (Refused url uid, e'))"
| "worker_step C i (Refused url uid) e = (Idle, on_db (MarkRobotsBlocked (i_now i) url uid (e_db e)) e)"
| "worker_step C i (Allowed url depth uid) e =
     (let (delay, m) = CrawlDelay (c_plat C) (robots_fetch (c_plat C) (i_wire i)) (i_now i) (i_later i) url (e_robots e);
          (slot, acc) = waitForDomain (c_plat C) (domainDelay C) (i_now i) (i_later i) url delay (e_access e);
          e' = contacting (robots_contacts (c_plat C) (i_wire i) (i_now i) url (e_robots e)) (e\<lparr>e_robots := m, e_access := acc\<rparr>)
      in (Waiting url depth uid (case slot of None \<Rightarrow> i_later i | Some t \<Rightarrow> t), e'))"
| "worker_step C i (Waiting url depth uid slot) e =
     (if i_now i < slot then (if i_cancelled i then Stopped else Waiting url depth uid slot, e)
      else case ScrapePage (c_plat C) (i_wire i) (c_html C) url of
        (ScrapeError, us) \<Rightarrow> (ScrapeFailed url uid, contacting us e)
      | (ScrapePanic, us) \<Rightarrow> (Crashed, contacting us e)
      | (Scraped r, us) \<Rightarrow> (Crawled url depth uid r, contacting us (e\<lparr>globalErrorCount := 0\<rparr>)))"
| "worker_step C i (ScrapeFailed url uid) e = (Unreachable url uid, on_db (FailNodeWithRetry (i_now i) url uid (e_db e)) e)"
| "worker_step C i (Unreachable url uid) e =
     (CountError, on_db (RecordWatchObservation (c_plat C) (i_now i) url uid False 0 (e_db e)) e)"
| "worker_step C i CountError e = (Idle, onNetworkError i e)"
| "worker_step C i (Crawled url depth uid r) e =
     (case canonicalCrawlURL (c_plat C) url of
        Inl _ \<Rightarrow> (SaveFailed url depth uid r, e)
      | Inr (nodeURL, _) \<Rightarrow> (Saving url depth uid r (SaveNode_read nodeURL uid (e_db e)), e))"
| "worker_step C i (Saving url depth uid r seen) e =
     (case canonicalCrawlURL (c_plat C) url of
        Inl _ \<Rightarrow> (SaveFailed url depth uid r, e)
      | Inr (nodeURL, _) \<Rightarrow>
          let cr = crawl_result_of r;
              ((_, err), d) = SaveNode_write (i_now i) nodeURL cr
                (ContentHash (c_plat C) (cr_title cr) (cr_content cr)) uid seen (e_db e)
          in (if err = None then Saved url depth uid r else SaveFailed url depth uid r, e\<lparr>e_db := d\<rparr>))"
| "worker_step C i (SaveFailed url depth uid r) e =
     (Saved url depth uid r, on_db (FailNodeWithRetry (i_now i) url uid (e_db e)) e)"
| "worker_step C i (Saved url depth uid r) e =
     (if depth < MaxDepth C then Linking url depth uid (FoundOnions r) else Idle,
      on_db (RecordWatchObservation (c_plat C) (i_now i) url uid True (StatusCode r) (e_db e)) e)"
| "worker_step C i (Linking url depth uid (l # ls)) e =
     (Linking url depth uid ls, on_db (SaveEdge (c_plat C) (i_now i) url l (depth + 1) uid (e_db e)) e)"
| "worker_step C i (Linking url depth uid []) e = (if depth = 0 then ReadSitemap url uid else Idle, e)"
| "worker_step C i (ReadSitemap url uid) e =
     (let (urls, us) = FetchSitemapURLs (c_plat C) (c_xml C) (i_wire i) url in (Mapping url uid urls, contacting us e))"
| "worker_step C i (Mapping url uid (l # ls)) e =
     (Mapping url uid ls, on_db (SaveEdge (c_plat C) (i_now i) url l 1 uid (e_db e)) e)"
| "worker_step C i (Mapping url uid []) e = (Idle, e)"
| "worker_step C i Stopped e = (Stopped, e)"
| "worker_step C i Crashed e = (Crashed, e)"

text \<open>\<open>NewEngine\<close>: the shared state at the start, with as many workers as configured.\<close>

definition NewEngine :: "db \<Rightarrow> TorController option \<Rightarrow> nat \<Rightarrow> engine \<times> phase list" where
  "NewEngine d tor workers =
     (\<lparr>e_db = d, e_access = (\<lambda>_. None), e_robots = [], globalErrorCount = 0, TorCtrl = tor, e_contacts = []\<rparr>,
      replicate workers Idle)"

end
