(* ===== verification/Queue_Invariants.thy ===== *)
theory Queue_Invariants
  imports Crawl_Queue
begin

section \<open>The crawl queue: invariants and properties\<close>

text \<open>
  The methods of \<open>Crawl_Queue\<close> as one datatype of operations, the invariants that every sequence
  of them keeps, and the properties of the queue. The last subsection records what the code does
  differently from what its comments say.
\<close>

subsection \<open>Operations as data\<close>

text \<open>
  One constructor per method, with its arguments; \<open>q_apply\<close> is the state it leaves.
  \<open>SaveRow\<close> is the second statement of \<open>SaveNode\<close> with any \<open>seen\<close>, so it also covers a
  read that other statements have made stale. \<open>Purge\<close> is any deletion of nodes, by the
  retention sweep or on request.
\<close>

datatype q_op =
    Enqueue time string int int int
  | SaveRow time string crawl_result string int "string option \<times> bool option"
  | Link time string string int int
  | Claim "node_row \<Rightarrow> nat" "node_row \<Rightarrow> bool" time
  | ResetAll
  | ResetStuck time duration
  | FailNode time string int
  | RobotsBlock time string int
  | Requeue time string int
  | Revive "node_row \<Rightarrow> nat" time duration int
  | Block time string
  | Unblock time string
  | Purge "node_row \<Rightarrow> bool"
  | EraseUser int

fun q_apply :: "platform \<Rightarrow> q_op \<Rightarrow> db \<Rightarrow> db" where
  "q_apply P (Enqueue now raw dep u mx) d = snd (EnqueueURL P now raw dep u mx d)"
| "q_apply P (SaveRow now url r h u seen) d = snd (SaveNode_write now url r h u seen d)"
| "q_apply P (Link now src tgt dep u) d = snd (SaveEdge P now src tgt dep u d)"
| "q_apply P (Claim rank locked now) d = snd (GetNextPendingNode rank locked now d)"
| "q_apply P ResetAll d = reset_crawling d"
| "q_apply P (ResetStuck now t) d = snd (ResetStuckCrawling now t d)"
| "q_apply P (FailNode now url u) d = snd (FailNodeWithRetry now url u d)"
| "q_apply P (RobotsBlock now url u) d = snd (MarkRobotsBlocked now url u d)"
| "q_apply P (Requeue now url u) d = snd (RequeueForCrawl now url u d)"
| "q_apply P (Revive rank now t lim) d = snd (ReviveFailedNodes rank now t lim d)"
| "q_apply P (Block now dmn) d = snd (AddBlacklist P now dmn d)"
| "q_apply P (Unblock now dmn) d = snd (DeleteBlacklist P now dmn d)"
| "q_apply P (Purge Q) d = delete_nodes Q d"
| "q_apply P (EraseUser u) d = delete_user u d"

definition q_run :: "platform \<Rightarrow> q_op list \<Rightarrow> db \<Rightarrow> db" where
  "q_run P ops d = fold (q_apply P) ops d"

text \<open>
  Every method is one of: no change, an update of rows that keeps keys, ids and hosts, an insert
  under a fresh key, a change of other tables, a deletion. The next lemma is that case split.
\<close>

definition keeps :: "(node_row \<Rightarrow> node_row) \<Rightarrow> bool" where
  "keeps f = (\<forall>n. n_key (f n) = n_key n \<and> n_id (f n) = n_id n \<and> n_host (f n) = n_host n)"

lemma keeps_rows [simp]:
  "keeps (saved_row now r stored h)" "keeps (touched_row now r)" "keeps (claim_row now)"
  "keeps (failed_row now)" "keeps (\<lambda>n. n\<lparr>n_status := st\<rparr>)" "keeps (\<lambda>n. n\<lparr>n_depth := dep\<rparr>)"
  "keeps (\<lambda>n. n\<lparr>n_status := st, n_started := t\<rparr>)" "keeps (\<lambda>n. n\<lparr>n_status := st, n_next := t'\<rparr>)"
  "keeps (\<lambda>n. n\<lparr>n_status := st, n_retry := k, n_next := t'\<rparr>)"
  by (simp_all add: keeps_def saved_row_def touched_row_def claim_row_def failed_row_def)

lemma db_ok_update: "db_ok d \<Longrightarrow> keeps f \<Longrightarrow> db_ok (update_nodes Q f d)"
  by (rule update_nodes_ok) (auto simp: keeps_def)

lemma new_node_fields [simp]:
  "n_url (new_node i now url u h) = url" "n_user (new_node i now url u h) = u"
  "n_id (new_node i now url u h) = i" "n_host (new_node i now url u h) = h"
  "n_status (new_node i now url u h) = Pending" "n_retry (new_node i now url u h) = 0"
  "n_interval (new_node i now url u h) = 7" "n_next (new_node i now url u h) = now"
  by (simp_all add: new_node_def)

lemma saved_row_fields [simp]:
  "n_url (saved_row now r st h n) = n_url n" "n_user (saved_row now r st h n) = n_user n"
  "n_id (saved_row now r st h n) = n_id n" "n_host (saved_row now r st h n) = n_host n"
  "n_status (saved_row now r st h n) = cr_status r"
  by (simp_all add: saved_row_def)

lemma db_ok_other:
  "db_ok d \<Longrightarrow> db_ok (d\<lparr>blacklist := b\<rparr>)"
  by (simp add: db_ok_def nodes_ok_def edges_ok_def users_ok_def user_exists_def)

lemma insert_edge_ok:
  assumes "db_ok d" and "insert_edge now src tgt u d = Some d'"
  shows "db_ok d'"
proof (cases "d' = d")
  case False
  with assms(2) have f: "find_node src u d \<noteq> None"
    and fresh: "\<not> (\<exists>e \<in> set (edges d). e_source e = src \<and> e_target e = tgt \<and> e_user e = u)"
    and d': "d' = d\<lparr>edges := edges d @ [\<lparr>e_source = src, e_target = tgt, e_user = u, e_at = now\<rparr>]\<rparr>"
    by (auto simp: insert_edge_def split: if_splits)
  then have "(src, u) \<in> set (map n_key (nodes d))"
    by (auto dest!: find_node_Some simp: image_iff)
  with assms(1) fresh show ?thesis
    by (auto simp: d' db_ok_def nodes_ok_def edges_ok_def users_ok_def user_exists_def)
qed (use assms in simp)

lemma enqueue_target_ok:
  assumes "db_ok d" and "enqueue_target now tgt host dep u d = Some d'"
  shows "db_ok d'"
proof (cases "find_node tgt u d")
  case None
  with assms show ?thesis
    by (auto simp: enqueue_target_def split: if_splits intro!: insert_node_ok)
next
  case (Some n)
  with assms show ?thesis
    by (auto simp: enqueue_target_def db_ok_update split: if_splits)
qed

lemma EnqueueURL_ok: "db_ok d \<Longrightarrow> db_ok (snd (EnqueueURL P now raw dep u mx d))"
  by (auto simp: EnqueueURL_def Let_def split: sum.splits intro!: insert_node_ok)

lemma SaveNode_write_ok: "db_ok d \<Longrightarrow> db_ok (snd (SaveNode_write now url r h u seen d))"
  by (auto simp: SaveNode_write_def Let_def db_ok_update split: option.splits intro!: insert_node_ok)

lemma SaveEdge_cases:
  "snd (SaveEdge P now src tgt dep u d) = d \<or>
   (\<exists>s hs t h d1 d2. canonicalCrawlURL P src = Inr (s, hs) \<and> canonicalCrawlURL P tgt = Inr (t, h) \<and>
     (if blacklisted h d then d1 = d else enqueue_target now t h dep u d = Some d1) \<and>
     insert_edge now s t u d1 = Some d2 \<and> SaveEdge P now src tgt dep u d = (Inr (), d2))"
  by (simp add: SaveEdge_def split: sum.split option.split prod.split)

lemma SaveEdge_ok: "db_ok d \<Longrightarrow> db_ok (snd (SaveEdge P now src tgt dep u d))"
  by (auto simp: SaveEdge_def split: sum.splits option.splits if_splits
      dest: insert_edge_ok enqueue_target_ok)

lemma q_apply_ok:
  assumes "db_ok d"
  shows "db_ok (q_apply P opn d)"
proof (cases opn)
  case (Claim rank locked now)
  with assms show ?thesis
    by (auto simp: GetNextPendingNode_def db_ok_update split: list.splits)
next
  case (Block now dmn)
  with assms show ?thesis
    by (auto simp: AddBlacklist_def Let_def db_ok_update db_ok_other)
next
  case (Unblock now dmn)
  with assms show ?thesis
    by (auto simp: DeleteBlacklist_def Let_def db_ok_update db_ok_other)
next
  case (Requeue now url u)
  with assms show ?thesis
    by (auto simp: RequeueForCrawl_def Requeue_write_def db_ok_update split: sum.splits option.splits)
qed (use assms in \<open>auto simp: EnqueueURL_ok SaveNode_write_ok SaveEdge_ok reset_crawling_def
    ResetStuckCrawling_def FailNodeWithRetry_def MarkRobotsBlocked_def ReviveFailedNodes_def Let_def
    delete_nodes_ok delete_user_ok db_ok_update\<close>)

lemma q_run_ok: "db_ok d \<Longrightarrow> db_ok (q_run P ops d)"
  unfolding q_run_def by (induction ops arbitrary: d) (auto simp: q_apply_ok)

subsection \<open>A blacklisted host is never crawled\<close>

definition blacklist_inv :: "db \<Rightarrow> bool" where
  "blacklist_inv d =
     list_all (\<lambda>n. case n_host n of None \<Rightarrow> True
       | Some h \<Rightarrow> blacklisted h d \<longrightarrow> n_status n = Blocked) (nodes d)"

lemma blacklist_inv_iff:
  "blacklist_inv d =
     (\<forall>n \<in> set (nodes d). \<forall>h. n_host n = Some h \<longrightarrow> blacklisted h d \<longrightarrow> n_status n = Blocked)"
  by (auto simp: blacklist_inv_def list_all_iff split: option.splits)

lemma nodes_update [simp]:
  "nodes (update_nodes Q f d) = update_where Q f (nodes d)" "blacklist (update_nodes Q f d) = blacklist d"
  "users (update_nodes Q f d) = users d" "edges (update_nodes Q f d) = edges d"
  by (simp_all add: update_nodes_def)

lemma nodes_insert [simp]:
  "nodes (insert_node n d) = nodes d @ [n]" "blacklist (insert_node n d) = blacklist d"
  "users (insert_node n d) = users d" "edges (insert_node n d) = edges d"
  by (simp_all add: insert_node_def)

lemma blacklisted_cong: "blacklist d' = blacklist d \<Longrightarrow> blacklisted h d' = blacklisted h d"
  by (simp add: blacklisted_def)

text \<open>An update that only touches rows that are not blocked keeps the invariant.\<close>

lemma blacklist_inv_update:
  assumes "blacklist_inv d" and "\<And>n. n \<in> set (nodes d) \<Longrightarrow> Q n \<Longrightarrow> n_status n \<noteq> Blocked" and "keeps f"
  shows "blacklist_inv (update_nodes Q f d)"
  using assms unfolding blacklist_inv_iff keeps_def
  by (fastforce simp: in_update_where blacklisted_def split: if_splits)

lemma blacklist_inv_insert:
  assumes "blacklist_inv d" and "\<And>h. n_host n = Some h \<Longrightarrow> \<not> blacklisted h d"
  shows "blacklist_inv (insert_node n d)"
  using assms unfolding blacklist_inv_iff by (auto simp: blacklisted_def)

lemma blacklist_inv_shrink:
  "blacklist_inv d \<Longrightarrow> set (nodes d') \<subseteq> set (nodes d) \<Longrightarrow> blacklist d' = blacklist d \<Longrightarrow> blacklist_inv d'"
  by (auto simp: blacklist_inv_iff blacklisted_def)

lemma insert_edge_nodes:
  "insert_edge now src tgt u d = Some d' \<Longrightarrow> nodes d' = nodes d \<and> blacklist d' = blacklist d"
  by (auto simp: insert_edge_def split: if_splits)

lemma enqueue_target_inv:
  "blacklist_inv d \<Longrightarrow> \<not> blacklisted host d \<Longrightarrow> enqueue_target now tgt host dep u d = Some d' \<Longrightarrow>
    blacklist_inv d'"
  by (auto simp: enqueue_target_def split: option.splits if_splits
      intro!: blacklist_inv_insert blacklist_inv_update)

lemma SaveEdge_inv:
  assumes "blacklist_inv d"
  shows "blacklist_inv (snd (SaveEdge P now src tgt dep u d))"
  using SaveEdge_cases [of P now src tgt dep u d]
proof
  assume "\<exists>s hs t h d1 d2. canonicalCrawlURL P src = Inr (s, hs) \<and> canonicalCrawlURL P tgt = Inr (t, h) \<and>
     (if blacklisted h d then d1 = d else enqueue_target now t h dep u d = Some d1) \<and>
     insert_edge now s t u d1 = Some d2 \<and> SaveEdge P now src tgt dep u d = (Inr (), d2)"
  then obtain s hs t h d1 d2 where e: "if blacklisted h d then d1 = d else enqueue_target now t h dep u d = Some d1"
    "insert_edge now s t u d1 = Some d2" "SaveEdge P now src tgt dep u d = (Inr (), d2)" by blast
  have "blacklist_inv d1" using e(1) assms enqueue_target_inv by (auto split: if_splits)
  with insert_edge_nodes [OF e(2)] e(3) show ?thesis by (auto intro: blacklist_inv_shrink)
qed (use assms in simp)

lemma claim_target:
  assumes "order_limit k 1 (filter Q t) = n # ns"
  shows "n \<in> set t" "Q n" "ns = []" "\<And>m. m \<in> set t \<Longrightarrow> Q m \<Longrightarrow> k n \<le> k m"
proof -
  have one: "order_limit k 1 (filter Q t) = [n]"
    using order_limit_1_cases [of "filter Q t" k] unfolding assms by auto
  with assms show "ns = []" by simp
  have "n \<in> set (filter Q t) \<and> (\<forall>m \<in> set (filter Q t). k n \<le> k m)" using order_limit_1_min [OF one] .
  then show "n \<in> set t" "Q n" "\<And>m. m \<in> set t \<Longrightarrow> Q m \<Longrightarrow> k n \<le> k m" by auto
qed

lemma claim_not_blocked:
  assumes "nodes_ok d" and "n \<in> set (nodes d)" and "claimable now n"
    and "m \<in> set (nodes d)" and "node_at (n_url n) (n_user n) m"
  shows "n_status m \<noteq> Blocked"
  using assms node_key_unique [OF assms(1,4,2)] by (auto simp: node_at_def claimable_def)

lemma requeue_target:
  assumes "nodes_ok d" and "find_node url u d = Some n" and "m \<in> set (nodes d)" and "node_at url u m"
  shows "m = n"
  using assms node_key_unique [OF assms(1,3), of n] find_node_Some [OF assms(2)] by (auto simp: node_at_def)

lemma revived_not_blocked:
  assumes "nodes_ok d" and "m \<in> set (nodes d)" and "n_key m \<in> set (revived_keys rank now t lim d)"
  shows "n_status m \<noteq> Blocked"
proof -
  obtain n where n: "n \<in> set (nodes d)" "revivable now t n" "n_key n = n_key m"
    using assms(3) set_order_limit [of "\<lambda>n. (n_next n, rank n)" "nat lim" "filter (revivable now t) (nodes d)"]
    unfolding revived_keys_def set_map image_iff by fastforce
  with node_key_unique [OF assms(1,2) n(1)] show ?thesis by (simp add: revivable_def)
qed

lemma AddBlacklist_inv:
  assumes "blacklist_inv d"
  shows "blacklist_inv (snd (AddBlacklist P now dmn d))"
proof -
  let ?h = "NormalizeHostname P dmn"
  let ?d = "if blacklisted ?h d then d else d\<lparr>blacklist := blacklist d @ [(?h, now)]\<rparr>"
  have b: "blacklisted h ?d \<longleftrightarrow> h = ?h \<or> blacklisted h d" for h by (auto simp: blacklisted_def)
  have "blacklist_inv (update_nodes (\<lambda>n. n_host n = Some ?h \<and> n_status n \<noteq> Blocked)
      (\<lambda>n. n\<lparr>n_status := Blocked\<rparr>) ?d)"
    unfolding blacklist_inv_iff
  proof (intro ballI allI impI)
    fix n h
    assume n: "n \<in> set (nodes (update_nodes (\<lambda>n. n_host n = Some ?h \<and> n_status n \<noteq> Blocked)
      (\<lambda>n. n\<lparr>n_status := Blocked\<rparr>) ?d))" and h: "n_host n = Some h"
      and "blacklisted h (update_nodes (\<lambda>n. n_host n = Some ?h \<and> n_status n \<noteq> Blocked)
      (\<lambda>n. n\<lparr>n_status := Blocked\<rparr>) ?d)"
    then have bl: "h = ?h \<or> blacklisted h d" using b by (simp add: blacklisted_cong [OF nodes_update(2)])
    obtain r where r: "r \<in> set (nodes d)"
      "n = (if n_host r = Some ?h \<and> n_status r \<noteq> Blocked then r\<lparr>n_status := Blocked\<rparr> else r)"
      using n by (auto simp: in_update_where split: if_splits)
    then show "n_status n = Blocked"
      using h bl assms by (cases "n_host r = Some ?h \<and> n_status r \<noteq> Blocked") (auto simp: blacklist_inv_iff)
  qed
  with assms show ?thesis by (auto simp: AddBlacklist_def Let_def)
qed

lemma DeleteBlacklist_inv:
  assumes "blacklist_inv d"
  shows "blacklist_inv (snd (DeleteBlacklist P now dmn d))"
proof -
  let ?h = "NormalizeHostname P dmn"
  let ?d = "d\<lparr>blacklist := delete_where (\<lambda>b. fst b = ?h) (blacklist d)\<rparr>"
  have b: "blacklisted h ?d \<longleftrightarrow> h \<noteq> ?h \<and> blacklisted h d" for h by (force simp: blacklisted_def)
  have "blacklist_inv (update_nodes (\<lambda>n. n_host n = Some ?h \<and> n_status n = Blocked)
      (\<lambda>n. n\<lparr>n_status := Pending, n_retry := 0, n_next := now\<rparr>) ?d)"
    using assms b unfolding blacklist_inv_iff blacklisted_cong [OF nodes_update(2)]
    by (auto simp: in_update_where split: if_splits)
  with assms show ?thesis by (auto simp: DeleteBlacklist_def Let_def)
qed

lemma q_apply_inv:
  assumes "db_ok d" and "blacklist_inv d"
  shows "blacklist_inv (q_apply P opn d)"
proof -
  have ok: "nodes_ok d" using assms(1) by (simp add: db_ok_def)
  note upd = blacklist_inv_update [OF assms(2)]
  show ?thesis
  proof (cases opn)
    case (Claim rank locked now)
    show ?thesis
    proof (cases "order_limit (\<lambda>n. (claim_key d n, rank n)) 1
        (filter (\<lambda>n. claimable now n \<and> \<not> locked n) (nodes d))")
      case Nil
      then show ?thesis using assms(2) Claim by (simp add: GetNextPendingNode_def)
    next
      case (Cons n ns)
      note c = claim_target [OF Cons]
      have "blacklist_inv (update_nodes (node_at (n_url n) (n_user n)) (claim_row now) d)"
        by (rule upd) (use claim_not_blocked [OF ok c(1)] c(2) in auto)
      then show ?thesis using Claim Cons by (simp add: GetNextPendingNode_def)
    qed
  next
    case (Requeue now url u)
    then show ?thesis
      using assms(2) requeue_target [OF ok]
      by (auto simp: RequeueForCrawl_def Requeue_write_def Requeue_read_def
          split: sum.splits option.splits if_splits intro!: upd)
  next
    case (SaveRow now url r h u seen)
    then show ?thesis
      using assms(2)
      by (auto simp: SaveNode_write_def Let_def split: option.splits intro!: upd blacklist_inv_insert)
  next
    case (Enqueue now raw dep u mx)
    then show ?thesis
      using assms(2)
      by (auto simp: EnqueueURL_def split: sum.splits intro!: blacklist_inv_insert)
  next
    case (Revive rank now t lim)
    then show ?thesis
      using assms(2) revived_not_blocked [OF ok]
      by (auto simp: ReviveFailedNodes_def Let_def intro!: upd)
  qed (use assms(2) in \<open>auto simp: SaveEdge_inv AddBlacklist_inv DeleteBlacklist_inv reset_crawling_def
      ResetStuckCrawling_def stuck_def FailNodeWithRetry_def MarkRobotsBlocked_def Let_def
      delete_nodes_fields delete_user_fields intro!: upd intro: blacklist_inv_shrink\<close>)
qed

lemma q_run_inv: "db_ok d \<Longrightarrow> blacklist_inv d \<Longrightarrow> blacklist_inv (q_run P ops d)"
  unfolding q_run_def by (induction ops arbitrary: d) (auto simp: q_apply_ok q_apply_inv)

subsection \<open>Claiming\<close>

lemma pair_le_fst: "((a :: 'a::linorder), (b :: 'b::linorder)) \<le> (c, e) \<Longrightarrow> a \<le> c"
  by (auto simp: less_eq_prod_simp)

lemma claim_cases:
  obtains (none) "GetNextPendingNode rank locked now d = (([], 0, 0), d)"
      "\<And>m. m \<in> set (nodes d) \<Longrightarrow> claimable now m \<Longrightarrow> locked m"
  | (some) n where "n \<in> set (nodes d)" "claimable now n" "\<not> locked n"
      "GetNextPendingNode rank locked now d =
        ((n_url n, n_depth n, n_user n), update_nodes (node_at (n_url n) (n_user n)) (claim_row now) d)"
      "\<And>m. m \<in> set (nodes d) \<Longrightarrow> claimable now m \<Longrightarrow> \<not> locked m \<Longrightarrow>
        (claim_key d n, rank n) \<le> (claim_key d m, rank m)"
proof (cases "order_limit (\<lambda>n. (claim_key d n, rank n)) 1
    (filter (\<lambda>n. claimable now n \<and> \<not> locked n) (nodes d))")
  case Nil
  have "filter (\<lambda>n. claimable now n \<and> \<not> locked n) (nodes d) = []"
    using order_limit_1_cases [of "filter (\<lambda>n. claimable now n \<and> \<not> locked n) (nodes d)"
        "\<lambda>n. (claim_key d n, rank n)"] unfolding Nil by auto
  with Nil none show ?thesis by (auto simp: GetNextPendingNode_def filter_empty_conv)
next
  case (Cons n ns)
  note c = claim_target [OF Cons]
  show ?thesis
    by (rule some [of n]) (use c Cons in \<open>auto simp: GetNextPendingNode_def\<close>)
qed

subsection \<open>Blocked rows stay blocked\<close>

definition blocked_in :: "string \<times> int \<Rightarrow> db \<Rightarrow> bool" where
  "blocked_in k d = (\<exists>n \<in> set (nodes d). n_key n = k \<and> n_status n = Blocked)"

lemma blocked_in_update:
  assumes "blocked_in k d" and "\<And>m. m \<in> set (nodes d) \<Longrightarrow> n_status m = Blocked \<Longrightarrow> \<not> Q m"
  shows "blocked_in k (update_nodes Q f d)"
  using assms unfolding blocked_in_def by (force simp: in_update_where)

lemma blocked_in_insert: "blocked_in k d \<Longrightarrow> blocked_in k (insert_node n d)"
  by (auto simp: blocked_in_def)

lemma blocked_in_nodes: "blocked_in k d \<Longrightarrow> nodes d' = nodes d \<Longrightarrow> blocked_in k d'"
  by (simp add: blocked_in_def)

fun lifts_block :: "q_op \<Rightarrow> bool" where
  "lifts_block (Unblock _ _) = True"
| "lifts_block (Purge _) = True"
| "lifts_block (EraseUser _) = True"
| "lifts_block _ = False"

lemma enqueue_target_blocked:
  "blocked_in k d \<Longrightarrow> enqueue_target now tgt host dep u d = Some d' \<Longrightarrow> blocked_in k d'"
  by (auto simp: enqueue_target_def blocked_in_insert split: option.splits if_splits
      intro!: blocked_in_update)

lemma SaveEdge_blocked:
  assumes "blocked_in k d"
  shows "blocked_in k (snd (SaveEdge P now src tgt dep u d))"
  using SaveEdge_cases [of P now src tgt dep u d]
proof (elim disjE exE conjE)
  fix s hs t h d1 d2
  assume e: "if blacklisted h d then d1 = d else enqueue_target now t h dep u d = Some d1"
    "insert_edge now s t u d1 = Some d2" "SaveEdge P now src tgt dep u d = (Inr (), d2)"
  have "blocked_in k d1" using e(1) assms enqueue_target_blocked by (auto split: if_splits)
  with insert_edge_nodes [OF e(2)] e(3) show ?thesis by (auto intro: blocked_in_nodes)
qed (use assms in simp)

lemma q_apply_blocked:
  assumes "db_ok d" and "blocked_in k d" and "\<not> lifts_block opn"
  shows "blocked_in k (q_apply P opn d)"
proof -
  have ok: "nodes_ok d" using assms(1) by (simp add: db_ok_def)
  note upd = blocked_in_update [OF assms(2)]
  show ?thesis
  proof (cases opn)
    case (Claim rank locked now)
    show ?thesis
    proof (cases rule: claim_cases [of rank locked now d])
      case none
      then show ?thesis using assms(2) Claim by simp
    next
      case (some n)
      have "blocked_in k (update_nodes (node_at (n_url n) (n_user n)) (claim_row now) d)"
        by (rule upd) (use claim_not_blocked [OF ok some(1,2)] in blast)
      then show ?thesis using Claim some(4) by simp
    qed
  next
    case (Requeue now url u)
    show ?thesis
    proof (cases "find_node url u d")
      case None
      then show ?thesis using assms(2) Requeue
        by (simp add: RequeueForCrawl_def Requeue_read_def)
    next
      case (Some n)
      have "blocked_in k (Requeue_write now url u d)" if "n_status n \<noteq> Blocked"
        unfolding Requeue_write_def
        by (rule upd) (use requeue_target [OF ok Some] that in blast)
      with Some assms(2) Requeue show ?thesis
        by (simp add: RequeueForCrawl_def Requeue_read_def)
    qed
  next
    case (Revive rank now t lim)
    have "blocked_in k (update_nodes (\<lambda>n. n_key n \<in> set (revived_keys rank now t lim d))
        (\<lambda>n. n\<lparr>n_status := Pending, n_retry := 0, n_next := now\<rparr>) d)"
      by (rule upd) (use revived_not_blocked [OF ok] in blast)
    then show ?thesis using assms(2) Revive by (simp add: ReviveFailedNodes_def Let_def)
  next
    case (Block now dmn)
    have "blocked_in k (update_nodes (\<lambda>n. n_host n = h \<and> n_status n \<noteq> Blocked)
        (\<lambda>n. n\<lparr>n_status := Blocked\<rparr>) d')" if "nodes d' = nodes d" for d' h
      by (rule blocked_in_update) (use assms(2) that in \<open>auto simp: blocked_in_def\<close>)
    then show ?thesis using assms(2) Block by (simp add: AddBlacklist_def Let_def)
  qed (use assms(2,3) in \<open>auto simp: SaveEdge_blocked EnqueueURL_def SaveNode_write_def reset_crawling_def
      ResetStuckCrawling_def stuck_def FailNodeWithRetry_def MarkRobotsBlocked_def Let_def blocked_in_insert
      split: sum.splits option.splits intro!: upd\<close>)
qed

subsection \<open>Accounts do not touch each other\<close>

definition rows_of_others :: "int \<Rightarrow> db \<Rightarrow> node_row list \<times> edge_row list" where
  "rows_of_others u d =
     (filter (\<lambda>n. n_user n \<noteq> u) (nodes d), filter (\<lambda>e. e_user e \<noteq> u) (edges d))"

text \<open>The account an operation acts for, when it acts for one.\<close>

fun acts_for :: "q_op \<Rightarrow> int option" where
  "acts_for (Enqueue _ _ _ u _) = Some u"
| "acts_for (SaveRow _ _ _ _ u _) = Some u"
| "acts_for (Link _ _ _ _ u) = Some u"
| "acts_for (FailNode _ _ u) = Some u"
| "acts_for (RobotsBlock _ _ u) = Some u"
| "acts_for (Requeue _ _ u) = Some u"
| "acts_for _ = None"

lemma others_update:
  assumes "\<And>n. Q n \<Longrightarrow> n_user n = u" and "keeps f"
  shows "rows_of_others u (update_nodes Q f d) = rows_of_others u d"
proof -
  have "filter (\<lambda>n. n_user n \<noteq> u) (update_where Q f t) = filter (\<lambda>n. n_user n \<noteq> u) t" for t
    using assms by (induction t) (auto simp: keeps_def)
  then show ?thesis by (simp add: rows_of_others_def)
qed

lemma others_insert: "n_user n = u \<Longrightarrow> rows_of_others u (insert_node n d) = rows_of_others u d"
  by (simp add: rows_of_others_def)

lemma others_edge: "insert_edge now s t u d = Some d' \<Longrightarrow> rows_of_others u d' = rows_of_others u d"
  by (auto simp: insert_edge_def rows_of_others_def split: if_splits)

lemma others_target:
  "enqueue_target now t h dep u d = Some d' \<Longrightarrow> rows_of_others u d' = rows_of_others u d"
  by (auto simp: enqueue_target_def others_insert split: option.splits if_splits
      intro!: others_update simp: node_at_def)

lemma q_apply_others:
  assumes "acts_for opn = Some u"
  shows "rows_of_others u (q_apply P opn d) = rows_of_others u d"
proof (cases opn)
  case (Link now src tgt dep u')
  then have u: "u' = u" using assms by simp
  show ?thesis
    unfolding Link q_apply.simps u
    using SaveEdge_cases [of P now src tgt dep u d]
  proof (elim disjE exE conjE)
    fix s hs t h d1 d2
    assume "if blacklisted h d then d1 = d else enqueue_target now t h dep u d = Some d1"
      "insert_edge now s t u d1 = Some d2" "SaveEdge P now src tgt dep u d = (Inr (), d2)"
    then show "rows_of_others u (snd (SaveEdge P now src tgt dep u d)) = rows_of_others u d"
      using others_edge others_target by (auto split: if_splits)
  qed simp
next
  case (SaveRow now url r h u' seen)
  with assms show ?thesis
    by (auto simp: SaveNode_write_def Let_def others_insert node_at_def split: option.splits
        intro!: others_update)
next
  case (Requeue now url u')
  with assms show ?thesis
    by (auto simp: RequeueForCrawl_def Requeue_write_def node_at_def split: sum.splits option.splits
        intro!: others_update)
qed (use assms in \<open>auto simp: EnqueueURL_def FailNodeWithRetry_def MarkRobotsBlocked_def Let_def others_insert
    node_at_def split: sum.splits intro!: others_update\<close>)

subsection \<open>Quota\<close>

lemma count_pending_insert:
  "CountPendingNodes u (insert_node n d) =
     CountPendingNodes u d + (if n_user n = u \<and> n_status n = Pending then 1 else 0)"
  by (simp add: CountPendingNodes_def)

lemma EnqueueURL_quota:
  assumes "EnqueueURL P now raw dep u mx d = (res, d')" and "0 < mx"
  shows "CountPendingNodes u d' = CountPendingNodes u d \<or>
    (res = Inr () \<and> CountPendingNodes u d' = Suc (CountPendingNodes u d) \<and> int (CountPendingNodes u d') \<le> mx)"
  using assms by (auto simp: EnqueueURL_def count_pending_insert split: sum.splits if_splits)

subsection \<open>Properties\<close>

text \<open>A small database for the witnesses: one account and the example host.\<close>

definition demo_user :: "int \<Rightarrow> string \<Rightarrow> user_row" where
  "demo_user i email =
     \<lparr>us_id = i, us_email = email, us_hash = ''h'', us_role = ''user'', us_verified = True,
      us_vtoken = None, us_vexp = None, us_rtoken = None, us_rexp = None, us_version = 0,
      us_created = 0, us_totp_secret = None, us_totp_enabled = False, us_totp_confirmed = None,
      us_totp_last = 0, us_retention = 0, us_store = True, us_del_req = None, us_del_for = None\<rparr>"

definition demo_db :: db where
  "demo_db = empty_db\<lparr>users := [demo_user 1 ''a@b.c'', demo_user 2 ''d@e.f''], next_id := 3\<rparr>"

definition demo_url :: string where
  "demo_url = ''http://'' @ demo_host @ ''/''"

definition demo_result :: crawl_result where
  "demo_result = \<lparr>cr_title = ''T'', cr_server = ''nginx'', cr_code = 200, cr_status = Completed,
     cr_meta = ''{}'', cr_content = ''hello'', cr_category = ''wiki''\<rparr>"

text \<open>
  Over any sequence of the queue's operations (enqueueing, saving with a possibly
  stale read, linking, claiming, both resets, failing, robots marking, requeueing, reviving, the two
  blacklist operations and every deletion) the schema's constraints stay satisfied (one row per URL
  and account, ids unique, every edge starts at a row of the same account) and a row whose
  host is on the blacklist is blocked.
\<close>

theorem queue_invariant:
  assumes "db_ok d" and "blacklist_inv d"
  shows "db_ok (q_run P ops d) \<and> blacklist_inv (q_run P ops d)"
  using q_run_ok [OF assms(1)] q_run_inv [OF assms] by blast

theorem queue_invariant_witness:
  "let ops = [Enqueue 5 demo_url 0 1 10, Block 6 demo_host, Claim (\<lambda>_. 0) (\<lambda>_. False) 7] in
   db_ok demo_db \<and> blacklist_inv demo_db \<and>
   db_ok (q_run demo_platform ops demo_db) \<and> blacklist_inv (q_run demo_platform ops demo_db) \<and>
   map n_status (nodes (q_run demo_platform ops demo_db)) = [Blocked]"
proof -
  let ?ops = "[Enqueue 5 demo_url 0 1 10, Block 6 demo_host, Claim (\<lambda>_. 0) (\<lambda>_. False) 7]"
  have a: "db_ok demo_db" "blacklist_inv demo_db" by code_simp+
  have "map n_status (nodes (q_run demo_platform ?ops demo_db)) = [Blocked]" by code_simp
  with a queue_invariant [OF a, of demo_platform ?ops] show ?thesis
    by (simp only: Let_def simp_thms)
qed



text \<open>
  C18. An operation that acts for one account leaves every row and every edge of all other
  accounts exactly as they were.
\<close>

theorem tenant_isolation:
  assumes "acts_for opn = Some u"
  shows "rows_of_others u (q_apply P opn d) = rows_of_others u d"
  using assms by (rule q_apply_others)

text \<open>
  C39. With a positive cap, \<open>EnqueueURL\<close> never takes an account over it: either the number of
  pending rows is unchanged, or the call succeeded, added one and is still within the cap.
\<close>

theorem enqueue_respects_quota:
  assumes "EnqueueURL P now raw dep u mx d = (res, d')" and "0 < mx"
  shows "CountPendingNodes u d' = CountPendingNodes u d \<or>
    (res = Inr () \<and> CountPendingNodes u d' = Suc (CountPendingNodes u d) \<and>
     int (CountPendingNodes u d') \<le> mx)"
  using assms by (rule EnqueueURL_quota)

lemma canonical_host:
  assumes "url_Parse P (TrimSpace raw) = Some u" "ascii (u_host u)" "CHR ''['' \<notin> set (u_host u)"
    and "NormalizeURL P raw \<noteq> []"
  shows "canonicalCrawlURL P raw = Inr (NormalizeURL P raw, NormalizeHostname P (u_host u))"
    and "v3HostnameRE (NormalizeHostname P (u_host u))"
proof -
  obtain v where v: "url_Parse P (NormalizeURL P raw) = Some v"
    "url_Hostname v = NormalizeHostname P (u_host u)" "v3HostnameRE (url_Hostname v)"
    "lower P (url_Hostname v) = url_Hostname v"
    using url_host_agrees [OF assms(1-3) refl assms(4)] by blast
  have "url_Hostname v \<noteq> []" using v(3) by (auto simp: v3HostnameRE_def)
  with v assms(4) show "canonicalCrawlURL P raw = Inr (NormalizeURL P raw, NormalizeHostname P (u_host u))"
    by (simp add: canonicalCrawlURL_def Let_def)
  from v show "v3HostnameRE (NormalizeHostname P (u_host u))" by simp
qed

lemma v3HostnameRE_text: "v3HostnameRE h \<Longrightarrow> texts_ok [h]"
proof -
  assume h: "v3HostnameRE h"
  then obtain e where e: "h = e @ ''.onion''" "list_all b32_char e" using v3HostnameRE_iff by blast
  have "list_all (\<lambda>c. byte c \<noteq> 0) e" using e(2) b32_char_plain by (fastforce simp: list_all_iff)
  moreover have "list_all (\<lambda>c. byte c \<noteq> 0) ''.onion''" by code_simp
  ultimately show ?thesis
    using e(1) solid_ascii [OF v3HostnameRE_solid [OF h]]
    by (simp add: texts_ok_def pg_text_ok_def ascii_valid_utf8)
qed


text \<open>
  C9. The back-off. A failure of a row that is not blocked schedules the next attempt between ten
  minutes and 48 hours later, exactly \<open>min(10 * 2^retry minutes, 48 hours)\<close>, and gives the
  row up (failed) exactly from the fifth recorded failure on.
\<close>

theorem backoff_schedule:
  assumes "db_ok d" and "n \<in> set (nodes d)" and "n_status n \<noteq> Blocked" and "n_retry n < 34"
    and "texts_ok [n_url n]"
  shows "fst (FailNodeWithRetry now (n_url n) (n_user n) d) = Inr () \<and>
    find_node (n_url n) (n_user n) (snd (FailNodeWithRetry now (n_url n) (n_user n) d)) =
         Some (n\<lparr>n_retry := Suc (n_retry n), n_status := (if 5 \<le> Suc (n_retry n) then Failed else Pending),
                 n_next := now + min (10 * 2 ^ n_retry n * Minute) (48 * Hour)\<rparr>) \<and>
    10 * Minute \<le> backoff (n_retry n) \<and> backoff (n_retry n) \<le> 48 * Hour"
proof (intro conjI)
  let ?hit = "\<lambda>m. node_at (n_url n) (n_user n) m \<and> n_status m \<noteq> Blocked"
  let ?d = "update_nodes ?hit (failed_row now) d"
  have ok: "nodes_ok d" "nodes_ok ?d"
    using assms(1) db_ok_update [OF assms(1), of "failed_row now" ?hit] by (simp_all add: db_ok_def)
  have "m = n" if "m \<in> set (nodes d)" "node_at (n_url n) (n_user n) m" for m
    using node_key_unique [OF ok(1) that(1) assms(2)] that(2) by (simp add: node_at_def)
  then have eq: "FailNodeWithRetry now (n_url n) (n_user n) d = (Inr (), ?d)"
    using assms(4,5) by (force simp: FailNodeWithRetry_def Let_def)
  then show "fst (FailNodeWithRetry now (n_url n) (n_user n) d) = Inr ()" by simp
  have "failed_row now n \<in> set (nodes ?d)"
    using assms(2,3) by (auto simp: in_update_where_cases node_at_def)
  then have "find_node (n_url n) (n_user n) ?d = Some (failed_row now n)"
    using find_node_eq [OF ok(2), of "failed_row now n"] by (simp add: failed_row_def)
  then show "find_node (n_url n) (n_user n) (snd (FailNodeWithRetry now (n_url n) (n_user n) d)) =
         Some (n\<lparr>n_retry := Suc (n_retry n), n_status := (if 5 \<le> Suc (n_retry n) then Failed else Pending),
                 n_next := now + min (10 * 2 ^ n_retry n * Minute) (48 * Hour)\<rparr>)"
    unfolding eq by (simp add: failed_row_def backoff_def)
  have "1 \<le> (2::int) ^ n_retry n" by simp
  then show "10 * Minute \<le> backoff (n_retry n)" "backoff (n_retry n) \<le> 48 * Hour"
    unfolding backoff_def by linarith+
qed

text \<open>Witnesses.\<close>

definition demo_row :: node_row where
  "demo_row = new_node 3 5 demo_url 1 (Some demo_host)"

definition demo_with :: "node_row \<Rightarrow> db" where
  "demo_with n = demo_db\<lparr>nodes := [n], next_id := 4\<rparr>"

definition demo_queue :: db where
  "demo_queue = demo_with demo_row"

lemma demo_queue_enqueue: "EnqueueURL demo_platform 5 demo_url 0 1 10 demo_db = (Inr (), demo_queue)"
  by code_simp


definition demo_blocked :: db where
  "demo_blocked = (demo_with (demo_row\<lparr>n_status := Blocked\<rparr>))\<lparr>blacklist := [(demo_host, 6)]\<rparr>"

lemma demo_blocked_add: "AddBlacklist demo_platform 6 demo_host demo_queue = (Inr (), demo_blocked)"
  by code_simp


theorem tenant_isolation_witness:
  "acts_for (Enqueue 6 demo_url 0 2 0) = Some 2 \<and>
   fst (rows_of_others 2 (q_apply demo_platform (Enqueue 6 demo_url 0 2 0) demo_queue)) = nodes demo_queue"
proof -
  have a: "acts_for (Enqueue 6 demo_url 0 2 0) = Some 2" by simp
  have "fst (rows_of_others 2 demo_queue) = nodes demo_queue" by code_simp
  with tenant_isolation [OF a, of demo_platform demo_queue] a show ?thesis by metis
qed

theorem enqueue_respects_quota_witness:
  "fst (EnqueueURL demo_platform 5 demo_url 0 1 1 demo_db) = Inr () \<and>
   int (CountPendingNodes 1 (snd (EnqueueURL demo_platform 5 demo_url 0 1 1 demo_db))) \<le> 1"
proof -
  have a: "EnqueueURL demo_platform 5 demo_url 0 1 1 demo_db =
      (Inr (), snd (EnqueueURL demo_platform 5 demo_url 0 1 1 demo_db))" by code_simp
  have b: "CountPendingNodes 1 demo_db = 0" by code_simp
  show ?thesis
    using enqueue_respects_quota [OF a] b a by (metis zero_less_one int_ops(1) zero_le_one fst_conv)
qed

definition demo_parsed :: url where
  "demo_parsed = \<lparr>u_scheme = ''http'', u_opaque = [], u_user = None, u_host = demo_host, u_path = ''/'',
     u_rawpath = [], u_omit_host = False, u_force_query = False, u_query = [], u_fragment = []\<rparr>"


theorem backoff_schedule_witness:
  "let n = hd (nodes demo_queue) in
   n_status n \<noteq> Blocked \<and> n_retry n = 0 \<and>
   find_node (n_url n) (n_user n) (snd (FailNodeWithRetry 100 (n_url n) (n_user n) demo_queue)) =
     Some (n\<lparr>n_retry := 1, n_status := Pending, n_next := 100 + 10 * Minute\<rparr>)"
proof -
  let ?n = "hd (nodes demo_queue)"
  have a: "db_ok demo_queue" "?n \<in> set (nodes demo_queue)" "n_status ?n \<noteq> Blocked" "n_retry ?n < 34"
    "texts_ok [n_url ?n]" by code_simp+
  have b: "n_retry ?n = 0" by code_simp
  show ?thesis
    using backoff_schedule [OF a, of 100] a(3) b unfolding Let_def b by simp
qed

subsection \<open>Deviations\<close>

text \<open>
  \<open>SaveNode\<close> inserts without the \<open>host\<close> column. A row it creates (the command-line
  crawler always does; a worker does when the row was deleted while its page was being
  fetched) is not reached by \<open>AddBlacklist\<close> and is claimed again although its host is
  blacklisted.
\<close>

theorem saved_row_escapes_blacklist:
  "let d1 = snd (SaveNode demo_platform 10 demo_url demo_result 1 demo_db);
       d2 = snd (AddBlacklist demo_platform 20 demo_host d1) in
   map n_host (nodes d1) = [None] \<and> blacklisted demo_host d2 \<and> map n_status (nodes d2) = [Completed] \<and>
   fst (fst (GetNextPendingNode (\<lambda>_. 0) (\<lambda>_. False) (10 + 8 * Day) d2)) = demo_url"
  by code_simp

text \<open>
  \<open>RequeueForCrawl\<close> checks the status in one statement and writes in another: a block
  placed in between is undone.
\<close>

theorem requeue_race_undoes_block:
  "Requeue_read demo_url 1 demo_queue = Inr (Some Pending) \<and>
   (let d = Requeue_write 9 demo_url 1 demo_blocked in
    blacklisted demo_host d \<and> map n_status (nodes d) = [Pending] \<and> \<not> blacklist_inv d)"
  by code_simp

text \<open>A node refused by robots.txt is \<open>failed\<close>, so \<open>ReviveFailedNodes\<close> brings it back.\<close>

theorem robots_refusal_is_revived:
  "let d1 = snd (MarkRobotsBlocked 10 demo_url 1 demo_queue);
       d2 = snd (ReviveFailedNodes (\<lambda>_. 0) (10 + 40 * Day) (7 * Day) 500 d1) in
   map n_status (nodes d1) = [Failed] \<and> map n_status (nodes d2) = [Pending]"
  by code_simp

text \<open>
  A successful crawl does not reset \<open>retry_count\<close>: after four failures in the past, the first
  failure after any number of successful crawls gives the node up.
\<close>

theorem success_keeps_retry_count:
  "let d1 = demo_with (demo_row\<lparr>n_status := Crawling, n_retry := 4\<rparr>);
       d2 = snd (SaveNode demo_platform 20 demo_url demo_result 1 d1) in
   map n_status (nodes d2) = [Completed] \<and> map n_retry (nodes d2) = [4] \<and>
   map n_status (nodes (snd (FailNodeWithRetry 30 demo_url 1 d2))) = [Failed]"
  by code_simp

text \<open>Moving text across the separator does not change the digest.\<close>

theorem content_hash_ambiguous: "ContentHash P ''A|B'' ''C'' = ContentHash P ''A'' ''B|C''"
  by (simp add: ContentHash_def)

end
