(* ===== verification/Account_Invariants.thy ===== *)
theory Account_Invariants
  imports Annotations Queue_Invariants
begin

section \<open>What sequences of account operations guarantee\<close>

text \<open>
  The operations of \<open>Accounts\<close> and \<open>Privacy\<close> as one datatype and a run over a list of them, in any
  order and with any arguments, each with the time at which the server executes it.
\<close>

datatype a_op =
    AddUser string string string string
  | Register string string string string
  | SetReset string string
  | Reset string string
  | Bump int
  | Upgrade int string string
  | Verify string
  | MigrateTokens
  | LogEvent string string string
  | PurgeLogs duration
  | NewSession int string string time
  | Touch string duration
  | Revoke int int
  | RevokeAll int string
  | RevokeTok string
  | SweepSessions
  | Stage int string
  | Confirm int int "string list"
  | Consume int int
  | UseCode int string
  | Disable int
  | SetPrivacy int int bool
  | RequestDel int duration
  | CancelDel int
  | Erase int string
  | PurgeAudit string

fun a_apply :: "platform \<Rightarrow> time \<times> a_op \<Rightarrow> db \<Rightarrow> db" where
  "a_apply P (now, AddUser email h role tok) d = snd (CreateUser P now email h role tok d)"
| "a_apply P (now, Register email h tok adm) d = snd (CreateRegisteredUser P now email h tok adm d)"
| "a_apply P (now, SetReset email tok) d = snd (SetResetToken P now email tok d)"
| "a_apply P (now, Reset tok h) d = snd (ResetPassword P now tok h d)"
| "a_apply P (now, Bump u) d = BumpTokenVersion u d"
| "a_apply P (now, Upgrade u old new) d = snd (UpgradePasswordHash u old new d)"
| "a_apply P (now, Verify tok) d = snd (VerifyUser P now tok d)"
| "a_apply P (now, MigrateTokens) d = migrateOpaqueTokens P d"
| "a_apply P (now, LogEvent ev er ir) d = LogAuthEvent now ev er ir d"
| "a_apply P (now, PurgeLogs age) d = snd (PurgeOldAuditLogs now age d)"
| "a_apply P (now, NewSession u tok label exp) d = snd (CreateSession now u tok label exp d)"
| "a_apply P (now, Touch tok stale) d = TouchSession now tok stale d"
| "a_apply P (now, Revoke u i) d = snd (RevokeSession now u i d)"
| "a_apply P (now, RevokeAll u keep) d = RevokeAllSessions now u keep d"
| "a_apply P (now, RevokeTok tok) d = RevokeSessionByToken now tok d"
| "a_apply P (now, SweepSessions) d = snd (DeleteExpiredSessions now d)"
| "a_apply P (now, Stage u secret) d = snd (StageTOTPSecret u secret d)"
| "a_apply P (now, Confirm u st hs) d = snd (ConfirmTOTP now u st hs d)"
| "a_apply P (now, Consume u st) d = snd (ConsumeTOTPStep u st d)"
| "a_apply P (now, UseCode u h) d = snd (ConsumeRecoveryCode now u h d)"
| "a_apply P (now, Disable u) d = DisableTOTP u d"
| "a_apply P (now, SetPrivacy u days keep) d = snd (SetPrivacySettings u days keep d)"
| "a_apply P (now, RequestDel u grace) d = snd (RequestAccountDeletion now u grace d)"
| "a_apply P (now, CancelDel u) d = snd (CancelAccountDeletion u d)"
| "a_apply P (now, Erase u ref) d = snd (DeleteAccount u ref d)"
| "a_apply P (now, PurgeAudit ref) d = snd (PurgeAuthAudit now ref d)"

definition a_run :: "platform \<Rightarrow> (time \<times> a_op) list \<Rightarrow> db \<Rightarrow> db" where
  "a_run P ops d = fold (a_apply P) ops d"

lemma a_run_simps [simp]: "a_run P [] d = d" "a_run P (x # ops) d = a_run P ops (a_apply P x d)"
  by (simp_all add: a_run_def)

lemma a_run_keeps:
  assumes "\<And>x e. x \<in> set ops \<Longrightarrow> I e \<Longrightarrow> I (a_apply P x e)" and "I d"
  shows "I (a_run P ops d)"
  using assms by (induction ops arbitrary: d) auto

subsection \<open>Frame lemmas\<close>

lemma update_users_fields [simp]:
  "users (update_users Q f d) = update_where Q f (users d)" "nodes (update_users Q f d) = nodes d"
  "sessions (update_users Q f d) = sessions d" "codes (update_users Q f d) = codes d"
  "edges (update_users Q f d) = edges d" "next_id (update_users Q f d) = next_id d"
  "audit (update_users Q f d) = audit d"
  by (simp_all add: update_users_def)

lemma update_sessions_fields [simp]:
  "sessions (update_sessions Q f d) = update_where Q f (sessions d)" "users (update_sessions Q f d) = users d"
  by (simp_all add: update_sessions_def)

definition keeps_user :: "(user_row \<Rightarrow> user_row) \<Rightarrow> bool" where
  "keeps_user f = (\<forall>r. us_id (f r) = us_id r \<and> us_email (f r) = us_email r)"

lemma users_ok_update: "users_ok d \<Longrightarrow> keeps_user f \<Longrightarrow> users_ok (update_users Q f d)"
  by (auto simp: users_ok_def keeps_user_def distinct_map_update_where list_all_iff in_update_where)

lemma users_ok_cong: "users_ok d \<Longrightarrow> users d' = users d \<Longrightarrow> next_id d' = next_id d \<Longrightarrow> users_ok d'"
  by (simp add: users_ok_def)

lemma find_user_update:
  assumes "users_ok d" and "keeps_user f"
  shows "find_user u (update_users Q f d) =
    (case find_user u d of None \<Rightarrow> None | Some r \<Rightarrow> Some (if Q r then f r else r))"
proof (cases "find_user u d")
  case None
  then have none: "\<forall>r \<in> set (users d). us_id r \<noteq> u" by (simp add: find_user_def first_where_None_iff)
  have "us_id x \<noteq> u" if "x \<in> set (users (update_users Q f d))" for x
    using that none assms(2) by (auto simp: in_update_where_cases keeps_user_def)
  then have "find_user u (update_users Q f d) = None"
    unfolding find_user_def by (simp only: first_where_None_iff) blast
  with None show ?thesis by simp
next
  case (Some r)
  then have r: "r \<in> set (users d)" "us_id r = u" using find_user_Some by blast+
  let ?r = "if Q r then f r else r"
  have id: "us_id ?r = u" using r assms(2) by (simp add: keeps_user_def)
  have "?r \<in> set (users (update_users Q f d))" using r by (auto simp: in_update_where)
  from find_user_eq [OF users_ok_update [OF assms] this] show ?thesis using Some id by simp
qed

lemma insert_user_ok:
  assumes "users_ok d" and "insert_user now email h role vt d = Inserted d'"
  shows "users_ok d'"
  using assms
  by (fastforce simp: insert_user_def users_ok_def new_user_def list_all_iff split: if_splits)


lemmas user_ops =
  SetResetToken_def ResetPassword_def BumpTokenVersion_def
  UpgradePasswordHash_def VerifyUser_def migrateOpaqueTokens_def LogAuthEvent_def PurgeOldAuditLogs_def
  CreateSession_def TouchSession_def RevokeSession_def RevokeAllSessions_def RevokeSessionByToken_def
  DeleteExpiredSessions_def StageTOTPSecret_def ConfirmTOTP_def ConsumeTOTPStep_def
  ConsumeRecoveryCode_def DisableTOTP_def SetPrivacySettings_def RequestAccountDeletion_def
  CancelAccountDeletion_def PurgeAuthAudit_def DeleteAccount_def

subsection \<open>How each operation changes the users\<close>

text \<open>
  An operation leaves the table, rewrites some rows by a change \<open>f\<close> that it is allowed to make,
  appends a fresh account or removes one. \<open>allowed\<close> is what the operation may do to a row.
\<close>

fun allowed :: "platform \<Rightarrow> time \<times> a_op \<Rightarrow> user_row \<Rightarrow> user_row \<Rightarrow> bool" where
  "allowed P (now, SetReset email tok) r r' = (\<exists>x. r' = r\<lparr>us_rtoken := Some (opaqueTokenHash P tok), us_rexp := x\<rparr>)"
| "allowed P (now, Reset tok h) r r' =
     (r' = r\<lparr>us_hash := h, us_rtoken := None, us_rexp := None, us_version := us_version r + 1\<rparr>)"
| "allowed P (now, Bump u) r r' = (r' = r\<lparr>us_version := us_version r + 1\<rparr>)"
| "allowed P (now, Upgrade u old new) r r' = (r' = r\<lparr>us_hash := new\<rparr>)"
| "allowed P (now, Verify tok) r r' = (r' = r\<lparr>us_verified := True, us_vtoken := None, us_vexp := None\<rparr>)"
| "allowed P (now, MigrateTokens) r r' =
     (r' = r\<lparr>us_vtoken := map_option (opaqueTokenHash P) (us_vtoken r),
             us_rtoken := map_option (opaqueTokenHash P) (us_rtoken r)\<rparr>)"
| "allowed P (now, Stage u secret) r r' =
     (us_id r = u \<and> \<not> us_totp_enabled r \<and> r' = r\<lparr>us_totp_secret := Some secret, us_totp_confirmed := None\<rparr>)"
| "allowed P (now, Confirm u st hs) r r' =
     (us_id r = u \<and> r' = r\<lparr>us_totp_enabled := True, us_totp_confirmed := Some now, us_totp_last := st\<rparr>)"
| "allowed P (now, Consume u st) r r' = (us_id r = u \<and> us_totp_last r < st \<and> r' = r\<lparr>us_totp_last := st\<rparr>)"
| "allowed P (now, Disable u) r r' =
     (us_id r = u \<and> r' = r\<lparr>us_totp_secret := None, us_totp_enabled := False, us_totp_confirmed := None, us_totp_last := 0\<rparr>)"
| "allowed P (now, SetPrivacy u days keep) r r' = (r' = r\<lparr>us_retention := days, us_store := keep\<rparr>)"
| "allowed P (now, RequestDel u g) r r' = (\<exists>t. r' = r\<lparr>us_del_req := Some now, us_del_for := Some t\<rparr>)"
| "allowed P (now, CancelDel u) r r' = (r' = r\<lparr>us_del_req := None, us_del_for := None\<rparr>)"
| "allowed P (now, _) r r' = False"

definition fresh_user :: "user_row \<Rightarrow> db \<Rightarrow> bool" where
  "fresh_user r d = (us_id r = int (next_id d) \<and> us_rtoken r = None \<and> us_totp_last r = 0)"

fun adds_user :: "time \<times> a_op \<Rightarrow> user_row \<Rightarrow> db \<Rightarrow> bool" where
  "adds_user (now, AddUser email h role tok) r d = (fresh_user r d \<and> us_role r = role)"
| "adds_user (now, Register email h tok adm) r d =
     (fresh_user r d \<and> (us_role r = ''admin'' \<longrightarrow> (\<forall>r' \<in> set (users d). us_role r' \<noteq> ''admin'')))"
| "adds_user (now, _) r d = False"

lemma new_user_fields [simp]:
  "fresh_user (new_user (next_id d) now e h role t) d" "us_role (new_user i now e h role t) = role"
  "us_email (new_user i now e h role t) = e"
  by (simp_all add: fresh_user_def new_user_def)

definition users_step :: "platform \<Rightarrow> time \<times> a_op \<Rightarrow> db \<Rightarrow> db \<Rightarrow> bool" where
  "users_step P x d d' \<longleftrightarrow>
     (users d' = users d \<and> next_id d \<le> next_id d') \<or>
     (\<exists>Q f. users d' = update_where Q f (users d) \<and> next_id d' = next_id d \<and>
        (\<forall>r \<in> set (users d). Q r \<longrightarrow> allowed P x r (f r))) \<or>
     (\<exists>r. users d' = users d @ [r] \<and> adds_user x r d \<and> next_id d' = Suc (next_id d) \<and>
        (\<forall>r' \<in> set (users d). us_email r' \<noteq> us_email r)) \<or>
     (\<exists>u ref. snd x = Erase u ref \<and> users d' = delete_where (\<lambda>r. us_id r = u) (users d) \<and> next_id d' = next_id d)"

lemma users_step_update:
  "(\<And>r. r \<in> set (users d) \<Longrightarrow> Q r \<Longrightarrow> allowed P x r (f r)) \<Longrightarrow> users_step P x d (update_users Q f d)"
  unfolding users_step_def by (auto simp: update_users_def)

lemma users_step_same: "users d' = users d \<Longrightarrow> next_id d \<le> next_id d' \<Longrightarrow> users_step P x d d'"
  by (simp add: users_step_def)

lemma users_step_more:
  "(\<And>r. r \<in> set (users d) \<Longrightarrow> Q r \<Longrightarrow> allowed P x r (f r)) \<Longrightarrow> users_step P x d (update_users Q f d\<lparr>codes := c\<rparr>)"
  "(\<And>r. r \<in> set (users d) \<Longrightarrow> Q r \<Longrightarrow> allowed P x r (f r)) \<Longrightarrow> users_step P x d (update_users Q f d\<lparr>migrations := m\<rparr>)"
  unfolding users_step_def by (auto simp: update_users_def)

lemma insert_user_step:
  assumes "insert_user now e h role t d = Inserted d'" and "adds_user x (new_user (next_id d) now e h role t) d"
  shows "users_step P x d d'"
  using assms unfolding users_step_def insert_user_def
  by (auto split: if_splits)

lemma a_apply_users: "users_step P x d (a_apply P x d)"
proof -
  obtain now op where x: "x = (now, op)" by (cases x)
  note upd = users_step_update and same = users_step_same
  show ?thesis
  proof (cases op)
    case (AddUser email h role tok)
    then show ?thesis
      unfolding x by (auto simp: CreateUser_def same split: insert_outcome.splits intro!: insert_user_step)
  next
    case (Register email h tok adm)
    then show ?thesis
      unfolding x by (auto simp: CreateRegisteredUser_def same Let_def split: insert_outcome.splits intro!: insert_user_step)
  next
    case (Erase u ref)
    then show ?thesis
      unfolding x users_step_def by (auto simp: DeleteAccount_def Let_def delete_user_fields)
  next
    case (Confirm u st hs)
    then show ?thesis
      unfolding x by (auto simp: ConfirmTOTP_def Let_def same intro!: users_step_more)
  next
    case (Disable u)
    then show ?thesis
      unfolding x by (auto simp: DisableTOTP_def intro!: users_step_more)
  next
    case MigrateTokens
    then show ?thesis
      unfolding x by (auto simp: migrateOpaqueTokens_def same intro!: users_step_more)
  qed (auto simp: x user_ops same Let_def update_sessions_def intro!: upd)
qed

subsection \<open>Accounts stay distinct\<close>

lemma allowed_keeps: "allowed P x r r' \<Longrightarrow> us_id r' = us_id r \<and> us_email r' = us_email r \<and> us_role r' = us_role r"
  by (cases "(P, x, r, r')" rule: allowed.cases) auto

lemma adds_user_fresh: "adds_user x r d \<Longrightarrow> fresh_user r d"
  by (cases "(x, r, d)" rule: adds_user.cases) auto

lemma map_update_allowed:
  assumes "\<forall>r \<in> set t. Q r \<longrightarrow> g (f r) = g r"
  shows "map g (update_where Q f t) = map g t"
  using assms by (induction t) auto

lemma a_apply_users_ok:
  assumes "users_ok d"
  shows "users_ok (a_apply P x d)"
  using a_apply_users [of P x d] unfolding users_step_def
proof (elim disjE exE conjE)
  assume "users (a_apply P x d) = users d" "next_id d \<le> next_id (a_apply P x d)"
  then show ?thesis using assms by (fastforce simp: users_ok_def list_all_iff)
next
  fix Q f
  assume u: "users (a_apply P x d) = update_where Q f (users d)" "next_id (a_apply P x d) = next_id d"
    and al: "\<forall>r \<in> set (users d). Q r \<longrightarrow> allowed P x r (f r)"
  have "map us_id (update_where Q f (users d)) = map us_id (users d)"
    "map us_email (update_where Q f (users d)) = map us_email (users d)"
    using al by (auto intro!: map_update_allowed dest: allowed_keeps)
  moreover have "us_id x < int (next_id d)" if "x \<in> set (update_where Q f (users d))" for x
    using that al assms allowed_keeps
    by (fastforce simp: in_update_where_cases users_ok_def list_all_iff)
  ultimately show ?thesis using assms u by (simp add: users_ok_def list_all_iff)
next
  fix r
  assume "users (a_apply P x d) = users d @ [r]" "adds_user x r d" "next_id (a_apply P x d) = Suc (next_id d)"
    "\<forall>r' \<in> set (users d). us_email r' \<noteq> us_email r"
  then show ?thesis
    using assms adds_user_fresh [of x r d] by (fastforce simp: users_ok_def list_all_iff fresh_user_def)
next
  fix u ref
  assume "users (a_apply P x d) = delete_where (\<lambda>r. us_id r = u) (users d)" "next_id (a_apply P x d) = next_id d"
  then show ?thesis using assms by (simp add: users_ok_def list_all_iff distinct_map_delete_where)
qed

lemma a_run_users_ok: "users_ok d \<Longrightarrow> users_ok (a_run P ops d)"
  using a_run_keeps [of ops users_ok P d] a_apply_users_ok by blast

subsection \<open>One administrator by registration\<close>

definition admins :: "db \<Rightarrow> nat" where
  "admins d = count_where (\<lambda>r. us_role r = ''admin'') (users d)"

fun grants_admin :: "time \<times> a_op \<Rightarrow> bool" where
  "grants_admin (now, AddUser email h role tok) = (role = ''admin'')"
| "grants_admin (now, _) = False"

lemma count_where_update_same:
  assumes "\<forall>r \<in> set t. Q r \<longrightarrow> R (f r) = R r"
  shows "count_where R (update_where Q f t) = count_where R t"
  using assms by (induction t) auto

lemma a_apply_admins:
  assumes "admins d \<le> 1" and "\<not> grants_admin x"
  shows "admins (a_apply P x d) \<le> 1"
  using a_apply_users [of P x d] unfolding users_step_def
proof (elim disjE exE conjE)
  assume "users (a_apply P x d) = users d"
  with assms show ?thesis by (simp add: admins_def)
next
  fix Q f
  assume "users (a_apply P x d) = update_where Q f (users d)"
    and al: "\<forall>r \<in> set (users d). Q r \<longrightarrow> allowed P x r (f r)"
  moreover have "count_where (\<lambda>r. us_role r = ''admin'') (update_where Q f (users d)) =
      count_where (\<lambda>r. us_role r = ''admin'') (users d)"
    by (rule count_where_update_same) (use al allowed_keeps [of P x] in metis)
  ultimately show ?thesis using assms by (simp add: admins_def)
next
  fix r
  assume u: "users (a_apply P x d) = users d @ [r]" and add: "adds_user x r d"
  have "us_role r = ''admin'' \<Longrightarrow> count_where (\<lambda>r. us_role r = ''admin'') (users d) = 0"
    using add assms(2) by (cases "(x, r, d)" rule: adds_user.cases) (auto simp: count_where_0_iff)
  with u assms show ?thesis by (auto simp: admins_def)
next
  fix u ref
  assume "users (a_apply P x d) = delete_where (\<lambda>r. us_id r = u) (users d)"
  with assms count_where_delete [of "\<lambda>r. us_role r = ''admin''" "\<lambda>r. us_id r = u" "users d"]
  show ?thesis by (simp add: admins_def)
qed

subsection \<open>Reset tokens\<close>

text \<open>At time \<open>t\<close> no account can be reset with a token of digest \<open>h\<close>, and the stored tokens are digests.\<close>

definition reset_dead :: "string \<Rightarrow> time \<Rightarrow> user_row \<Rightarrow> bool" where
  "reset_dead h t r = (us_rtoken r = Some h \<longrightarrow> (case us_rexp r of None \<Rightarrow> True | Some e \<Rightarrow> e \<le> t))"

definition reset_gone :: "string \<Rightarrow> time \<Rightarrow> db \<Rightarrow> bool" where
  "reset_gone h t d =
     (opaqueTokenMigration \<in> set (migrations d) \<and> (\<forall>r \<in> set (users d). reset_dead h t r))"

fun issues_reset :: "platform \<Rightarrow> string \<Rightarrow> time \<times> a_op \<Rightarrow> bool" where
  "issues_reset P h (now, SetReset email tok) = (opaqueTokenHash P tok = h)"
| "issues_reset P h (now, _) = False"

lemma delete_user_migrations [simp]: "migrations (delete_user u d) = migrations d"
  by (simp add: delete_user_def delete_nodes_def delete_watches_def Let_def)

lemma insert_user_migrations: "insert_user now e h role t d = Inserted d' \<Longrightarrow> migrations d' = migrations d"
  by (auto simp: insert_user_def split: if_splits)

lemma a_apply_migrations: "set (migrations d) \<subseteq> set (migrations (a_apply P x d))"
proof -
  obtain now op where x: "x = (now, op)" by (cases x)
  have ins: "migrations (case insert_user now e h role t d of Inserted d' \<Rightarrow> d' | _ \<Rightarrow> d) = migrations d" for e h role t
    by (auto simp: insert_user_migrations split: insert_outcome.split)
  show ?thesis
  proof (cases op)
    case (AddUser email h role tok)
    then show ?thesis
      unfolding x by (auto simp: CreateUser_def insert_user_migrations split: insert_outcome.split)
  next
    case (Register email h tok adm)
    then show ?thesis
      unfolding x by (auto simp: CreateRegisteredUser_def Let_def insert_user_migrations split: insert_outcome.split)
  qed (simp_all add: x user_ops Let_def update_users_def update_sessions_def subset_insertI)
qed

text \<open>A property of rows that every allowed change and every new row has survives an operation.\<close>

lemma a_apply_rows:
  assumes "\<forall>r \<in> set (users d). I r" and "\<And>r r'. allowed P x r r' \<Longrightarrow> I r \<Longrightarrow> I r'"
    and "\<And>r. adds_user x r d \<Longrightarrow> I r"
  shows "\<forall>r \<in> set (users (a_apply P x d)). I r"
  using a_apply_users [of P x d] unfolding users_step_def
proof (elim disjE exE conjE)
  fix Q f
  assume "users (a_apply P x d) = update_where Q f (users d)"
    and "\<forall>r \<in> set (users d). Q r \<longrightarrow> allowed P x r (f r)"
  then show ?thesis using assms(1,2) by (force simp: in_update_where_cases)
qed (use assms in auto)

lemma allowed_reset:
  "allowed P x r r' \<Longrightarrow> \<not> issues_reset P h x \<Longrightarrow> snd x \<noteq> MigrateTokens \<Longrightarrow> reset_dead h t r \<Longrightarrow> reset_dead h t r'"
  by (cases "(P, x, r, r')" rule: allowed.cases) (auto simp: reset_dead_def)

lemma a_apply_reset_gone:
  assumes "reset_gone h t d" and "\<not> issues_reset P h x"
  shows "reset_gone h t (a_apply P x d)"
proof (cases "snd x = MigrateTokens")
  case True
  then show ?thesis using assms by (cases x) (simp add: reset_gone_def migrateOpaqueTokens_def)
next
  case False
  have "\<forall>r \<in> set (users (a_apply P x d)). reset_dead h t r"
  proof (rule a_apply_rows)
    show "\<forall>r \<in> set (users d). reset_dead h t r" using assms(1) by (simp add: reset_gone_def)
    show "\<And>r r'. allowed P x r r' \<Longrightarrow> reset_dead h t r \<Longrightarrow> reset_dead h t r'"
      using allowed_reset assms(2) False by blast
    show "\<And>r. adds_user x r d \<Longrightarrow> reset_dead h t r"
      using adds_user_fresh by (fastforce simp: fresh_user_def reset_dead_def)
  qed
  with assms(1) a_apply_migrations [of d P x] show ?thesis unfolding reset_gone_def by blast
qed

lemma reset_gone_refuses:
  assumes "reset_gone (opaqueTokenHash P token) t d" and "t \<le> now"
  shows "fst (ResetPassword P now token h d) \<noteq> Inr () \<and> snd (ResetPassword P now token h d) = d"
proof -
  have "\<not> reset_hit P now token r" if "r \<in> set (users d)" for r
    using assms that by (fastforce simp: reset_gone_def reset_dead_def reset_hit_def split: option.splits)
  then have "rows_affected (reset_hit P now token) (users d) = 0" by (simp add: rows_affected_0_iff)
  then show ?thesis by (simp add: ResetPassword_def)
qed

subsection \<open>A monotone watermark\<close>

text \<open>
  What a single-use counter promises over operations of any kind: a value is accepted only above the
  mark and becomes the mark; without a reset the mark never falls.
\<close>

fun accepted_values :: "('op \<Rightarrow> 's \<Rightarrow> 's) \<Rightarrow> ('op \<Rightarrow> 's \<Rightarrow> int option) \<Rightarrow> 'op list \<Rightarrow> 's \<Rightarrow> int list" where
  "accepted_values app acc [] s = []"
| "accepted_values app acc (x # xs) s =
     (case acc x s of None \<Rightarrow> [] | Some n \<Rightarrow> [n]) @ accepted_values app acc xs (app x s)"

locale watermark =
  fixes app :: "'op \<Rightarrow> 's \<Rightarrow> 's"
    and accepts :: "'k \<Rightarrow> 'op \<Rightarrow> 's \<Rightarrow> int option"
    and mark :: "'k \<Rightarrow> 's \<Rightarrow> int"
    and resets :: "'k \<Rightarrow> 'op \<Rightarrow> bool"
    and ok :: "'s \<Rightarrow> bool"
  assumes ok_app: "ok s \<Longrightarrow> ok (app x s)"
    and accepted: "ok s \<Longrightarrow> accepts k x s = Some n \<Longrightarrow> mark k s < n \<and> mark k (app x s) = n"
    and kept: "ok s \<Longrightarrow> accepts k x s = None \<Longrightarrow> \<not> resets k x \<Longrightarrow> mark k s \<le> mark k (app x s)"
begin

lemma accepted_increasing:
  assumes "ok s" and "\<forall>x \<in> set xs. \<not> resets k x"
  shows "sorted_wrt (<) (accepted_values app (accepts k) xs s) \<and>
    (\<forall>n \<in> set (accepted_values app (accepts k) xs s). mark k s < n)"
  using assms
proof (induction xs arbitrary: s)
  case (Cons x xs)
  let ?rest = "accepted_values app (accepts k) xs (app x s)"
  have ih: "sorted_wrt (<) ?rest" "\<forall>n \<in> set ?rest. mark k (app x s) < n"
    using Cons.IH [OF ok_app [OF Cons.prems(1)]] Cons.prems(2) by auto
  show ?case
  proof (cases "accepts k x s")
    case None
    with ih kept [OF Cons.prems(1) None] Cons.prems(2) show ?thesis by fastforce
  next
    case (Some n)
    with ih accepted [OF Cons.prems(1) Some] show ?thesis by fastforce
  qed
qed simp

end

definition totp_mark :: "int \<Rightarrow> db \<Rightarrow> int" where
  "totp_mark u d = (case find_user u d of None \<Rightarrow> 0 | Some r \<Rightarrow> us_totp_last r)"

text \<open>The step a call of \<open>ConsumeTOTPStep\<close> accepts for the account.\<close>

fun consumed_step :: "int \<Rightarrow> time \<times> a_op \<Rightarrow> db \<Rightarrow> int option" where
  "consumed_step u (now, Consume u' step) d =
     (if u' = u \<and> fst (ConsumeTOTPStep u' step d) = Inr () then Some step else None)"
| "consumed_step u (now, _) d = None"

text \<open>Enrolling anew, disabling the second factor and erasing the account start the counter afresh.\<close>

fun resets_totp :: "int \<Rightarrow> time \<times> a_op \<Rightarrow> bool" where
  "resets_totp u (now, Confirm u' step hs) = (u' = u)"
| "resets_totp u (now, Disable u') = (u' = u)"
| "resets_totp u (now, Erase u' ref) = (u' = u)"
| "resets_totp u (now, _) = False"

lemma allowed_totp:
  "allowed P x r r' \<Longrightarrow> \<not> resets_totp (us_id r) x \<Longrightarrow>
    us_totp_last r' = us_totp_last r \<or> (\<exists>now st. x = (now, Consume (us_id r) st) \<and> us_totp_last r < st \<and> us_totp_last r' = st)"
  by (cases "(P, x, r, r')" rule: allowed.cases) auto

lemma find_user_update_where:
  assumes "users d' = update_where Q f (users d)" and "\<forall>r \<in> set (users d). Q r \<longrightarrow> us_id (f r) = us_id r"
    and "users_ok d" and "find_user u d = Some r"
  shows "find_user u d' = Some (if Q r then f r else r)"
proof -
  have r: "r \<in> set (users d)" "us_id r = u" using assms(4) find_user_Some by blast+
  have ids: "map us_id (users d') = map us_id (users d)" using assms(1,2) by (simp add: map_update_allowed)
  have u: "y = z" if "y \<in> set (users d')" "z \<in> set (users d')" "us_id y = us_id z" for y z
    using that ids assms(3) distinct_map_eqD [of us_id "users d'"] by (simp add: users_ok_def)
  let ?r = "if Q r then f r else r"
  have "?r \<in> set (users d')" using r assms(1) by (auto simp: in_update_where)
  moreover have "us_id ?r = u" using r assms(2) by simp
  ultimately show ?thesis unfolding find_user_def using u by (intro first_where_unique) auto
qed

lemma find_user_None_iff: "find_user u d = None \<longleftrightarrow> u \<notin> us_id ` set (users d)"
  by (auto simp: find_user_def first_where_None_iff)

text \<open>The row of an account after an operation that does not erase it.\<close>

lemma find_user_after:
  assumes "users_ok d" and "find_user u d = Some r" and "\<And>ref. snd x \<noteq> Erase u ref"
  shows "\<exists>r'. find_user u (a_apply P x d) = Some r' \<and> (r' = r \<or> allowed P x r r')"
  using a_apply_users [of P x d] unfolding users_step_def
proof (elim disjE exE conjE)
  assume "users (a_apply P x d) = users d"
  then show ?thesis using assms(2) by (simp add: find_user_def)
next
  fix Q f
  assume u: "users (a_apply P x d) = update_where Q f (users d)"
    and al: "\<forall>r \<in> set (users d). Q r \<longrightarrow> allowed P x r (f r)"
  have "\<forall>r \<in> set (users d). Q r \<longrightarrow> us_id (f r) = us_id r" using al allowed_keeps [of P x] by blast
  from find_user_update_where [OF u this assms(1,2)] al find_user_Some [OF assms(2)] show ?thesis by auto
next
  fix r'
  assume "users (a_apply P x d) = users d @ [r']"
  then show ?thesis using assms(2) by (simp add: find_user_def first_where_append)
next
  fix v ref
  assume e: "snd x = Erase v ref" and u: "users (a_apply P x d) = delete_where (\<lambda>r. us_id r = v) (users d)"
  have r: "r \<in> set (users d)" "us_id r = u" using find_user_Some [OF assms(2)] by auto
  have "v \<noteq> u" using e assms(3) by auto
  then have "find_user u (a_apply P x d) = Some r"
    unfolding find_user_def u using r user_id_unique [OF assms(1)] by (intro first_where_unique) auto
  then show ?thesis by simp
qed

lemma find_user_created:
  assumes "find_user u d = None"
  shows "find_user u (a_apply P x d) = None \<or> (\<exists>r. find_user u (a_apply P x d) = Some r \<and> fresh_user r d)"
proof (cases "find_user u (a_apply P x d)")
  case (Some r)
  then have r: "r \<in> set (users (a_apply P x d))" "us_id r = u" using find_user_Some by blast+
  have no: "\<forall>r \<in> set (users d). us_id r \<noteq> u" using assms by (simp add: find_user_def first_where_None_iff)
  have "fresh_user r d"
    using a_apply_users [of P x d] unfolding users_step_def
  proof (elim disjE exE conjE)
    fix Q f
    assume "users (a_apply P x d) = update_where Q f (users d)"
      and "\<forall>r \<in> set (users d). Q r \<longrightarrow> allowed P x r (f r)"
    then show ?thesis using r no allowed_keeps [of P x] by (force simp: in_update_where_cases)
  qed (use r no adds_user_fresh [of x _ d] in auto)
  with Some show ?thesis by simp
qed simp

lemma consume_accepts:
  assumes "users_ok d" and "consumed_step u x d = Some n"
  shows "totp_mark u d < n \<and> totp_mark u (a_apply P x d) = n"
proof -
  obtain now where x: "x = (now, Consume u n)" and c: "fst (ConsumeTOTPStep u n d) = Inr ()"
    using assms(2) by (cases "(u, x, d)" rule: consumed_step.cases) (auto split: if_splits)
  have "rows_affected (\<lambda>r. us_id r = u \<and> us_totp_last r < n) (users d) \<noteq> 0"
    using c by (auto simp: ConsumeTOTPStep_def Let_def split: if_splits)
  then obtain r where r: "r \<in> set (users d)" "us_id r = u" "us_totp_last r < n"
    by (auto simp: rows_affected_0_iff)
  have f: "find_user u d = Some r" using find_user_eq [OF assms(1) r(1)] r(2) by simp
  have d': "a_apply P x d = update_users (\<lambda>r. us_id r = u \<and> us_totp_last r < n) (\<lambda>r. r\<lparr>us_totp_last := n\<rparr>) d"
    using c by (auto simp: x ConsumeTOTPStep_def Let_def split: if_splits)
  have "find_user u (a_apply P x d) = Some (r\<lparr>us_totp_last := n\<rparr>)"
    unfolding d' using find_user_update_where [OF update_users_fields(1) _ assms(1) f] r by simp
  with f r show ?thesis by (simp add: totp_mark_def)
qed

lemma consume_keeps:
  assumes "users_ok d" and "consumed_step u x d = None" and "\<not> resets_totp u x"
  shows "totp_mark u d \<le> totp_mark u (a_apply P x d)"
proof (cases "find_user u d")
  case None
  with find_user_created [OF None, of P x] show ?thesis by (auto simp: totp_mark_def fresh_user_def)
next
  case (Some r)
  have "snd x \<noteq> Erase u ref" for ref using assms(3) by (cases x) auto
  from find_user_after [OF assms(1) Some this] obtain r'
    where r': "find_user u (a_apply P x d) = Some r'" "r' = r \<or> allowed P x r r'" by blast
  have "us_totp_last r \<le> us_totp_last r'"
    using r'(2) allowed_totp [of P x r r'] assms(3) find_user_Some [OF Some] by auto
  with Some r' show ?thesis by (simp add: totp_mark_def)
qed

interpretation totp: watermark "a_apply P" consumed_step totp_mark resets_totp users_ok for P
  by unfold_locales (fact a_apply_users_ok consume_accepts consume_keeps)+

subsection \<open>Recovery codes and sessions\<close>

definition code_spent :: "int \<Rightarrow> string \<Rightarrow> db \<Rightarrow> bool" where
  "code_spent u h d = (\<forall>c \<in> set (codes d). c_user c = u \<and> c_hash c = h \<longrightarrow> c_used c \<noteq> None)"

fun issues_codes :: "int \<Rightarrow> time \<times> a_op \<Rightarrow> bool" where
  "issues_codes u (now, Confirm u' step hs) = (u' = u)"
| "issues_codes u (now, _) = False"

definition session_over :: "string \<Rightarrow> db \<Rightarrow> bool" where
  "session_over tok d = (\<forall>s \<in> set (sessions d). s_token s = tok \<longrightarrow> s_revoked s \<noteq> None)"

fun opens_session :: "string \<Rightarrow> time \<times> a_op \<Rightarrow> bool" where
  "opens_session tok (now, NewSession u tok' label exp) = (tok' = tok)"
| "opens_session tok (now, _) = False"

lemma insert_user_others:
  "insert_user now e h role t d = Inserted d' \<Longrightarrow> sessions d' = sessions d \<and> codes d' = codes d"
  by (auto simp: insert_user_def split: if_splits)

lemma create_others [simp]:
  "sessions (snd (CreateUser P now email h role tok d)) = sessions d"
  "codes (snd (CreateUser P now email h role tok d)) = codes d"
  "sessions (snd (CreateRegisteredUser P now email h tok adm d)) = sessions d"
  "codes (snd (CreateRegisteredUser P now email h tok adm d)) = codes d"
  by (auto simp: CreateUser_def CreateRegisteredUser_def Let_def insert_user_others split: insert_outcome.split)

lemma delete_user_others:
  "sessions (delete_user u d) = delete_where (\<lambda>s. s_user s = u) (sessions d)"
  "codes (delete_user u d) = delete_where (\<lambda>c. c_user c = u) (codes d)"
  by (simp_all add: delete_user_def delete_watches_def delete_nodes_fields Let_def)

text \<open>Every row of the two tables after an operation comes from a row before, or is new.\<close>

definition session_from :: "session_row \<Rightarrow> session_row \<Rightarrow> bool" where
  "session_from s s' = (s_token s' = s_token s \<and> s_user s' = s_user s \<and> s_id s' = s_id s \<and>
     (s_revoked s \<noteq> None \<longrightarrow> s_revoked s' \<noteq> None))"

lemma session_from_refl [simp]: "session_from s s"
  by (simp add: session_from_def)

lemma sessions_update:
  assumes "s' \<in> set (update_where Q f t)" and "\<And>s. session_from s (f s)"
  shows "\<exists>s \<in> set t. session_from s s'"
  using assms session_from_refl by (force simp: in_update_where_cases)

lemma sessions_after:
  assumes "s' \<in> set (sessions (a_apply P x d))"
  shows "opens_session (s_token s') x \<or> (\<exists>s \<in> set (sessions d). session_from s s')"
proof -
  obtain now op where x: "x = (now, op)" by (cases x)
  note upd = sessions_update [where t = "sessions d" and s' = s']
  have own: "s' \<in> set (sessions d) \<Longrightarrow> \<exists>s \<in> set (sessions d). session_from s s'" using session_from_refl by blast
  have keep: ?thesis if "sessions (a_apply P x d) = sessions d" using that assms session_from_refl by metis
  show ?thesis
  proof (cases op)
    case (NewSession u tok label exp)
    then show ?thesis using assms own by (auto simp: x CreateSession_def split: if_splits)
  next
    case (Touch tok stale)
    with assms show ?thesis
      by (intro disjI2 upd) (auto simp: x TouchSession_def update_sessions_def session_from_def)
  next
    case (Revoke u i)
    with assms show ?thesis
      by (intro disjI2 upd) (auto simp: x RevokeSession_def Let_def update_sessions_def session_from_def)
  next
    case (RevokeAll u k)
    with assms show ?thesis
      by (intro disjI2 upd) (auto simp: x RevokeAllSessions_def update_sessions_def session_from_def)
  next
    case (RevokeTok tok)
    with assms show ?thesis
      by (intro disjI2 upd) (auto simp: x RevokeSessionByToken_def update_sessions_def session_from_def)
  next
    case SweepSessions
    with assms own show ?thesis by (auto simp: x DeleteExpiredSessions_def)
  next
    case (Erase u ref)
    with assms own show ?thesis by (auto simp: x DeleteAccount_def Let_def delete_user_others split: if_splits)
  qed (rule keep, simp add: x user_ops Let_def update_users_def)+
qed

lemma codes_after:
  assumes "c' \<in> set (codes (a_apply P x d))"
  shows "issues_codes (c_user c') x \<or>
    (\<exists>c \<in> set (codes d). c_user c' = c_user c \<and> c_hash c' = c_hash c \<and> (c_used c \<noteq> None \<longrightarrow> c_used c' \<noteq> None))"
proof -
  obtain now op where x: "x = (now, op)" by (cases x)
  have keep: ?thesis if "codes (a_apply P x d) = codes d" using that assms by auto
  show ?thesis
  proof (cases op)
    case (Confirm u st hs)
    then show ?thesis using assms by (auto simp: x ConfirmTOTP_def Let_def split: if_splits)
  next
    case (UseCode u h)
    then show ?thesis using assms by (auto simp: x ConsumeRecoveryCode_def Let_def in_update_where_cases split: if_splits)
  next
    case (Disable u)
    with assms show ?thesis by (auto simp: x DisableTOTP_def)
  next
    case (Erase u ref)
    with assms show ?thesis by (auto simp: x DeleteAccount_def Let_def delete_user_others split: if_splits)
  qed (rule keep, simp add: x user_ops Let_def update_users_def update_sessions_def)+
qed

lemma a_apply_session_over:
  "session_over tok d \<Longrightarrow> \<not> opens_session tok x \<Longrightarrow> session_over tok (a_apply P x d)"
  unfolding session_over_def using sessions_after [of _ P x d] by (fastforce simp: session_from_def)

lemma a_apply_code_spent:
  "code_spent u h d \<Longrightarrow> \<not> issues_codes u x \<Longrightarrow> code_spent u h (a_apply P x d)"
  unfolding code_spent_def using codes_after [of _ P x d] by fastforce

definition sessions_ok :: "db \<Rightarrow> bool" where
  "sessions_ok d = (distinct (map s_token (sessions d)) \<and> distinct (map s_id (sessions d)))"


subsection \<open>Properties\<close>

text \<open>
  C30. Email addresses and account ids stay unique under every sequence of account operations, and
  registration never creates a second administrator: unless an operation is asked to create one by
  role, there is at most one.
\<close>

theorem registration_is_sound:
  assumes "users_ok d" and "admins d \<le> 1" and "\<forall>x \<in> set ops. \<not> grants_admin x"
  shows "users_ok (a_run P ops d) \<and> admins (a_run P ops d) \<le> 1"
proof -
  have "admins (a_run P ops d) \<le> 1"
    by (rule a_run_keeps [where I = "\<lambda>d. admins d \<le> 1"]) (use assms a_apply_admins in blast)+
  with a_run_users_ok [OF assms(1)] show ?thesis by blast
qed

text \<open>
  C16. A password reset consumes its token: it raises the token version of the account, so that every
  session token issued before is refused, and whatever operations follow, the same token never
  resets a password again unless a new token with the same digest is issued.
\<close>

theorem reset_token_single_use:
  assumes "users_ok d" and "opaqueTokenMigration \<in> set (migrations d)"
    and "ResetPassword P now token newHash d = (Inr (), d')"
    and "\<forall>x \<in> set ops. \<not> issues_reset P (opaqueTokenHash P token) x"
  shows "(\<exists>r \<in> set (users d). GetUserAuthInfo (us_id r) d' = Some (us_email r, us_role r, us_version r + 1)) \<and>
    (\<forall>now' h'. now \<le> now' \<longrightarrow> fst (ResetPassword P now' token h' (a_run P ops d')) \<noteq> Inr () \<and>
      snd (ResetPassword P now' token h' (a_run P ops d')) = a_run P ops d')"
proof
  let ?hit = "reset_hit P now token"
  let ?f = "\<lambda>r. r\<lparr>us_hash := newHash, us_rtoken := None, us_rexp := None, us_version := us_version r + 1\<rparr>"
  have d': "d' = update_users ?hit ?f d" and n: "rows_affected ?hit (users d) \<noteq> 0"
    using assms(3) by (auto simp: ResetPassword_def split: if_splits)
  obtain r where r: "r \<in> set (users d)" "?hit r" using n by (auto simp: rows_affected_0_iff)
  have "find_user (us_id r) d' = Some (?f r)"
    unfolding d' using find_user_update_where [OF update_users_fields(1) _ assms(1) find_user_eq [OF assms(1) r(1)]] r
    by simp
  then have "GetUserAuthInfo (us_id r) d' = Some (us_email r, us_role r, us_version r + 1)"
    by (simp add: GetUserAuthInfo_def)
  with r show "\<exists>r \<in> set (users d). GetUserAuthInfo (us_id r) d' = Some (us_email r, us_role r, us_version r + 1)"
    by blast
  have "reset_dead (opaqueTokenHash P token) now x" if "x \<in> set (users d')" for x
    using that unfolding d'
    by (auto simp: in_update_where_cases reset_dead_def reset_hit_def split: option.splits)
  then have "reset_gone (opaqueTokenHash P token) now d'"
    using assms(2) by (simp add: reset_gone_def d' update_users_def)
  then have "reset_gone (opaqueTokenHash P token) now (a_run P ops d')"
    using a_run_keeps [where I = "reset_gone (opaqueTokenHash P token) now"] a_apply_reset_gone assms(4) by blast
  then show "\<forall>now' h'. now \<le> now' \<longrightarrow> fst (ResetPassword P now' token h' (a_run P ops d')) \<noteq> Inr () \<and>
      snd (ResetPassword P now' token h' (a_run P ops d')) = a_run P ops d'"
    using reset_gone_refuses by blast
qed


text \<open>
  C20. A recovery code works once: after \<open>ConsumeRecoveryCode\<close> accepted it, the same code is refused
  after any sequence of operations, until new codes are issued to the account.
\<close>

theorem recovery_code_single_use:
  assumes "fst (ConsumeRecoveryCode now u h d) = Inr True"
    and "\<forall>x \<in> set ops. \<not> issues_codes u x"
  shows "fst (ConsumeRecoveryCode now' u h (a_run P ops (snd (ConsumeRecoveryCode now u h d)))) = Inr False"
proof -
  let ?d = "snd (ConsumeRecoveryCode now u h d)"
  have ok: "texts_ok [h]" using assms(1) by (auto simp: ConsumeRecoveryCode_def Let_def split: if_splits)
  then have "codes ?d = update_where (\<lambda>c. c_user c = u \<and> c_hash c = h \<and> c_used c = None)
      (\<lambda>c. c\<lparr>c_used := Some now\<rparr>) (codes d)"
    by (simp add: ConsumeRecoveryCode_def Let_def)
  then have "c \<in> set (codes ?d) \<Longrightarrow> c_user c = u \<and> c_hash c = h \<longrightarrow> c_used c \<noteq> None" for c
    by (simp only:) (erule update_where_sets, simp_all)
  then have "code_spent u h ?d" by (simp add: code_spent_def)
  then have "code_spent u h (a_run P ops ?d)"
    using a_run_keeps [where I = "code_spent u h"] a_apply_code_spent assms(2) by blast
  then have "rows_affected (\<lambda>c. c_user c = u \<and> c_hash c = h \<and> c_used c = None) (codes (a_run P ops ?d)) = 0"
    by (auto simp: rows_affected_0_iff code_spent_def)
  with ok show ?thesis by (simp add: ConsumeRecoveryCode_def Let_def)
qed

text \<open>
  C17. Revocation is final. Once a session is revoked by its owner, with all others of the account or
  by its token, it is never active again: not at any time, not for any account, not after any
  sequence of operations that does not create a session with the very same token id.
\<close>

theorem revocation_is_final:
  assumes "sessions_ok d" and "s \<in> set (sessions d)"
    and "d' = RevokeSessionByToken now (s_token s) d \<or>
      d' = snd (RevokeSession now (s_user s) (int (s_id s)) d) \<or>
      (\<exists>keep. d' = RevokeAllSessions now (s_user s) keep d \<and> keep \<noteq> s_token s)"
    and "\<forall>x \<in> set ops. \<not> opens_session (s_token s) x"
  shows "\<not> SessionActive now' u (s_token s) (a_run P ops d')"
proof -
  have u: "s' = s" if "s' \<in> set (sessions d)" "s_token s' = s_token s" for s'
    using assms(1,2) that distinct_map_eqD [of s_token "sessions d"] by (simp add: sessions_ok_def)
  have "session_over (s_token s) d'"
    using assms(3) u unfolding session_over_def
    by (elim disjE exE conjE)
      (force simp: RevokeSessionByToken_def RevokeSession_def RevokeAllSessions_def Let_def
        update_sessions_def in_update_where_cases)+
  then have "session_over (s_token s) (a_run P ops d')"
    using a_run_keeps [where I = "session_over (s_token s)"] a_apply_session_over assms(4) by blast
  then show ?thesis by (auto simp: SessionActive_def session_over_def live_session_def)
qed

subsection \<open>Witnesses\<close>

theorem registration_is_sound_witness:
  "let ops = [(5, Register ''Root@b.c'' ''h'' ''tok'' ''root@b.c''), (6, Register ''root@b.c'' ''h'' ''tok'' ''root@b.c'')] in
   users_ok demo_db \<and> users_ok (a_run demo_platform ops demo_db) \<and> admins (a_run demo_platform ops demo_db) = 1"
proof -
  let ?ops = "[(5, Register ''Root@b.c'' ''h'' ''tok'' ''root@b.c''), (6, Register ''root@b.c'' ''h'' ''tok'' ''root@b.c'')]"
  have a: "users_ok demo_db" by code_simp
  have b: "admins demo_db \<le> 1" by code_simp
  have c: "admins (a_run demo_platform ?ops demo_db) = 1" by code_simp
  have d: "\<forall>x \<in> set ?ops. \<not> grants_admin x" by simp
  from registration_is_sound [OF a b d, of demo_platform] a c show ?thesis by (simp only: Let_def simp_thms)
qed

definition demo_token :: string where "demo_token = ''0123456789abcdef''"

definition demo_reset :: db where
  "demo_reset = demo_db\<lparr>users := [(demo_user 1 ''a@b.c'')\<lparr>us_rtoken := Some (opaqueTokenHash demo_platform demo_token),
     us_rexp := Some 100\<rparr>], migrations := [opaqueTokenMigration]\<rparr>"

definition demo_reset_done :: db where
  "demo_reset_done = demo_db\<lparr>users := [(demo_user 1 ''a@b.c'')\<lparr>us_hash := ''new'', us_version := 1\<rparr>],
     migrations := [opaqueTokenMigration]\<rparr>"

lemma demo_reset_step: "ResetPassword demo_platform 7 demo_token ''new'' demo_reset = (Inr (), demo_reset_done)"
  by code_simp

theorem reset_token_single_use_witness:
  "GetUserAuthInfo 1 demo_reset_done = Some (''a@b.c'', ''user'', 1) \<and>
   fst (ResetPassword demo_platform 8 demo_token ''x'' (a_run demo_platform [(8, Bump 1)] demo_reset_done)) \<noteq> Inr ()"
proof -
  have a: "users_ok demo_reset" by code_simp
  have b: "opaqueTokenMigration \<in> set (migrations demo_reset)" by code_simp
  have c: "\<forall>x \<in> set [(8, Bump 1)]. \<not> issues_reset demo_platform (opaqueTokenHash demo_platform demo_token) x" by simp
  have e: "GetUserAuthInfo 1 demo_reset_done = Some (''a@b.c'', ''user'', 1)" by code_simp
  from reset_token_single_use [OF a b demo_reset_step c]
  have "\<forall>now' h'. 7 \<le> now' \<longrightarrow>
    fst (ResetPassword demo_platform now' demo_token h' (a_run demo_platform [(8, Bump 1)] demo_reset_done)) \<noteq> Inr ()" by blast
  from this [rule_format, of 8 "''x''"] e show ?thesis by simp
qed


definition demo_codes :: db where
  "demo_codes = demo_db\<lparr>codes := [\<lparr>c_user = 1, c_hash = ''h'', c_used = None\<rparr>]\<rparr>"

theorem recovery_code_single_use_witness:
  "fst (ConsumeRecoveryCode 5 1 ''h'' demo_codes) = Inr True \<and>
   fst (ConsumeRecoveryCode 9 1 ''h'' (a_run demo_platform [(6, Bump 1)] (snd (ConsumeRecoveryCode 5 1 ''h'' demo_codes)))) = Inr False"
proof -
  have a: "fst (ConsumeRecoveryCode 5 1 ''h'' demo_codes) = Inr True" by code_simp
  have b: "\<forall>x \<in> set [(6, Bump 1)]. \<not> issues_codes 1 x" by simp
  from recovery_code_single_use [OF a b, of 9 demo_platform] a show ?thesis by blast
qed

definition demo_session :: session_row where
  "demo_session = \<lparr>s_id = 3, s_user = 1, s_token = ''t'', s_label = ''l'', s_created = 1, s_used = 1,
     s_expires = 100, s_revoked = None\<rparr>"

definition demo_sessions :: db where
  "demo_sessions = demo_db\<lparr>sessions := [demo_session], next_id := 4\<rparr>"

theorem revocation_is_final_witness:
  "SessionActive 5 1 ''t'' demo_sessions \<and>
   \<not> SessionActive 6 1 ''t'' (a_run demo_platform [(6, Touch ''t'' 0)] (RevokeAllSessions 5 1 [] demo_sessions))"
proof -
  have a: "sessions_ok demo_sessions" by code_simp
  have m: "demo_session \<in> set (sessions demo_sessions)" by (simp add: demo_sessions_def)
  have t: "s_token demo_session = ''t''" "s_user demo_session = 1" by (simp_all add: demo_session_def)
  have r: "RevokeAllSessions 5 1 [] demo_sessions = RevokeSessionByToken 5 (s_token demo_session) demo_sessions \<or>
      RevokeAllSessions 5 1 [] demo_sessions = snd (RevokeSession 5 (s_user demo_session) (int (s_id demo_session)) demo_sessions) \<or>
      (\<exists>keep. RevokeAllSessions 5 1 [] demo_sessions = RevokeAllSessions 5 (s_user demo_session) keep demo_sessions \<and>
        keep \<noteq> s_token demo_session)"
    using t by auto
  have o': "\<forall>x \<in> set [(6, Touch ''t'' 0)]. \<not> opens_session (s_token demo_session) x" by simp
  have act: "SessionActive 5 1 ''t'' demo_sessions" by code_simp
  from revocation_is_final [OF a m r o', of 6 1 demo_platform] act t show ?thesis by simp
qed

end
