(* ===== verification/Annotation_Invariants.thy ===== *)
theory Annotation_Invariants
  imports Account_Invariants
begin

section \<open>Invariants of the annotation tables\<close>

text \<open>
  Everything an account writes hangs on a node row of that same account, and stays so under the
  operations of every component; the tag limits; the change feed.
\<close>

definition owns :: "db \<Rightarrow> nat \<Rightarrow> int \<Rightarrow> bool" where
  "owns d i u = ((i, u) \<in> set (map (\<lambda>n. (n_id n, n_user n)) (nodes d)))"

definition tags_ok :: "db \<Rightarrow> bool" where
  "tags_ok d = (distinct (tags d) \<and> list_all (\<lambda>t. owns d (t_node t) (t_user t)) (tags d))"

definition notes_ok :: "db \<Rightarrow> bool" where
  "notes_ok d = (distinct (map (\<lambda>x. (o_user x, o_node x)) (site_notes d)) \<and>
     list_all (\<lambda>x. owns d (o_node x) (o_user x)) (site_notes d))"

definition watches_ok :: "db \<Rightarrow> bool" where
  "watches_ok d = (distinct (map w_id (watches d)) \<and> distinct (map (\<lambda>w. (w_user w, w_node w)) (watches d)) \<and>
     list_all (\<lambda>w. w_id w < next_id d \<and> owns d (w_node w) (w_user w)) (watches d))"

definition events_ok :: "db \<Rightarrow> bool" where
  "events_ok d = list_all (\<lambda>v. list_ex (\<lambda>w. w_id w = v_watch v \<and> w_user w = v_user v) (watches d)) (events d)"

definition annotations_ok :: "db \<Rightarrow> bool" where
  "annotations_ok d = (tags_ok d \<and> notes_ok d \<and> watches_ok d \<and> events_ok d)"

lemmas annotation_defs = annotations_ok_def tags_ok_def notes_ok_def watches_ok_def events_ok_def

lemma owns_iff: "owns d i u \<longleftrightarrow> (\<exists>n \<in> set (nodes d). n_id n = i \<and> n_user n = u)"
  by (auto simp: owns_def image_iff)

subsection \<open>Frames\<close>

definition same_annotations :: "db \<Rightarrow> db \<Rightarrow> bool" where
  "same_annotations d d' = (tags d' = tags d \<and> site_notes d' = site_notes d \<and> watches d' = watches d \<and>
     events d' = events d \<and> next_id d \<le> next_id d')"

lemma annotations_frame:
  assumes "annotations_ok d" and "same_annotations d d'" and "\<And>i u. owns d i u \<Longrightarrow> owns d' i u"
  shows "annotations_ok d'"
  using assms unfolding annotation_defs same_annotations_def list_all_iff
  by (auto intro: less_le_trans)

lemma same_annotations_nodes [simp]:
  "same_annotations d d" "same_annotations d (update_nodes Q f d)" "same_annotations d (insert_node n d)"
  "same_annotations d (d\<lparr>blacklist := b\<rparr>)" "same_annotations d (d\<lparr>edges := e\<rparr>)"
  "same_annotations d (update_nodes Q f (d\<lparr>blacklist := b\<rparr>))"
  by (simp_all add: same_annotations_def update_nodes_def insert_node_def)

lemma same_annotations_trans: "same_annotations d d' \<Longrightarrow> same_annotations d' d'' \<Longrightarrow> same_annotations d d''"
  by (simp add: same_annotations_def)

lemma owns_update: "keeps f \<Longrightarrow> owns d i u \<Longrightarrow> owns (update_nodes Q f d) i u"
  unfolding owns_def nodes_update by (subst map_update_where) (auto simp: keeps_def)

lemma owns_insert: "owns d i u \<Longrightarrow> owns (insert_node n d) i u"
  by (auto simp: owns_iff)

lemma owns_cong: "nodes d' = nodes d \<Longrightarrow> owns d' = owns d"
  by (simp add: owns_def fun_eq_iff)

text \<open>A queue operation that deletes nothing only adds owners.\<close>

definition grows :: "db \<Rightarrow> db \<Rightarrow> bool" where
  "grows d d' = (same_annotations d d' \<and> (\<forall>i u. owns d i u \<longrightarrow> owns d' i u))"

lemma grows_basic:
  "grows d d" "keeps f \<Longrightarrow> grows d (update_nodes Q f d)" "grows d (insert_node n d)"
  "grows d (d\<lparr>blacklist := b\<rparr>)" "grows d (d\<lparr>edges := e\<rparr>)"
  "keeps f \<Longrightarrow> grows d (update_nodes Q f (d\<lparr>blacklist := b\<rparr>))"
  using owns_update [of f "d\<lparr>blacklist := b\<rparr>"]
  by (auto simp: grows_def owns_update owns_insert owns_iff)

lemma grows_trans: "grows d d' \<Longrightarrow> grows d' d'' \<Longrightarrow> grows d d''"
  by (auto simp: grows_def intro: same_annotations_trans)

lemma grows_edge:
  "insert_edge now src tgt u d = Some d' \<Longrightarrow> grows d d'"
  "enqueue_target now tgt h dep u d = Some d' \<Longrightarrow> grows d d'"
  by (auto simp: insert_edge_def enqueue_target_def grows_basic split: if_splits option.splits)

lemma SaveEdge_grows: "grows d (snd (SaveEdge P now src tgt dep u d))"
  using SaveEdge_cases [of P now src tgt dep u d]
proof
  assume "\<exists>s hs t h d1 d2. canonicalCrawlURL P src = Inr (s, hs) \<and> canonicalCrawlURL P tgt = Inr (t, h) \<and>
     (if blacklisted h d then d1 = d else enqueue_target now t h dep u d = Some d1) \<and>
     insert_edge now s t u d1 = Some d2 \<and> SaveEdge P now src tgt dep u d = (Inr (), d2)"
  then obtain h t s d1 d2 where e: "if blacklisted h d then d1 = d else enqueue_target now t h dep u d = Some d1"
    "insert_edge now s t u d1 = Some d2" "SaveEdge P now src tgt dep u d = (Inr (), d2)" by blast
  have "grows d d1" using e(1) grows_edge(2) grows_basic(1) by (auto split: if_splits)
  with grows_edge(1) [OF e(2)] e(3) grows_trans show ?thesis by fastforce
qed (simp add: grows_basic)

fun deletes :: "q_op \<Rightarrow> bool" where
  "deletes (Purge Q) = True"
| "deletes (EraseUser u) = True"
| "deletes _ = False"

lemma q_apply_grows:
  assumes "\<not> deletes opn"
  shows "grows d (q_apply P opn d)"
proof (cases opn)
  case (Enqueue now raw dep u mx)
  then show ?thesis by (auto simp: EnqueueURL_def grows_basic split: sum.splits prod.splits)
next
  case (SaveRow now url r h u seen)
  then show ?thesis by (auto simp: SaveNode_write_def Let_def grows_basic split: option.splits)
next
  case (Claim rank locked now)
  then show ?thesis by (auto simp: GetNextPendingNode_def grows_basic split: list.splits)
next
  case (Requeue now url u)
  then show ?thesis
    by (auto simp: RequeueForCrawl_def Requeue_write_def grows_basic split: sum.splits option.splits)
qed (use assms in \<open>auto simp: SaveEdge_grows reset_crawling_def ResetStuckCrawling_def FailNodeWithRetry_def
    MarkRobotsBlocked_def ReviveFailedNodes_def AddBlacklist_def DeleteBlacklist_def Let_def grows_basic\<close>)

lemma grows_annotations: "annotations_ok d \<Longrightarrow> grows d d' \<Longrightarrow> annotations_ok d'"
  using annotations_frame [of d d'] by (auto simp: grows_def)

subsection \<open>Deleting nodes and accounts\<close>

lemma delete_watches_fields:
  "watches (delete_watches Q d) = delete_where Q (watches d)" "nodes (delete_watches Q d) = nodes d"
  "tags (delete_watches Q d) = tags d" "site_notes (delete_watches Q d) = site_notes d"
  "next_id (delete_watches Q d) = next_id d"
  "set (events (delete_watches Q d)) =
     {v \<in> set (events d). \<not> (\<exists>w \<in> set (watches d). Q w \<and> w_id w = v_watch v)}"
  by (auto simp: delete_watches_def Let_def image_iff)

lemma delete_watches_annotations:
  assumes "annotations_ok d"
  shows "annotations_ok (delete_watches Q d)"
proof -
  have "\<exists>w \<in> set (delete_where Q (watches d)). w_id w = v_watch v \<and> w_user w = v_user v"
    if "v \<in> set (events (delete_watches Q d))" for v
  proof -
    have v: "v \<in> set (events d)" "\<forall>w \<in> set (watches d). Q w \<longrightarrow> w_id w \<noteq> v_watch v"
      using that by (auto simp: delete_watches_fields)
    then obtain w where "w \<in> set (watches d)" "w_id w = v_watch v" "w_user w = v_user v"
      using assms by (auto simp: annotation_defs list_all_iff list_ex_iff)
    with v(2) show ?thesis by auto
  qed
  then show ?thesis
    using assms owns_cong [of "delete_watches Q d" d]
    by (auto simp: annotation_defs delete_watches_fields list_all_iff list_ex_iff distinct_map_delete_where)
qed

lemma delete_nodes_more:
  "tags (delete_nodes Q d) = delete_where (\<lambda>t. t_node t \<in> n_id ` {n \<in> set (nodes d). Q n}) (tags d)"
  "site_notes (delete_nodes Q d) = delete_where (\<lambda>x. o_node x \<in> n_id ` {n \<in> set (nodes d). Q n}) (site_notes d)"
  "watches (delete_nodes Q d) = delete_where (\<lambda>w. w_node w \<in> n_id ` {n \<in> set (nodes d). Q n}) (watches d)"
  by (simp_all add: delete_nodes_def delete_watches_def Let_def)

lemma owns_delete:
  assumes "nodes_ok d" and "owns d i u" and "i \<notin> n_id ` {n \<in> set (nodes d). Q n}"
  shows "owns (delete_nodes Q d) i u"
  using assms by (auto simp: owns_iff delete_nodes_fields)

lemma distinct_delete_where: "distinct t \<Longrightarrow> distinct (delete_where Q t)"
  by (simp add: delete_where_def)

lemma delete_nodes_annotations:
  assumes "nodes_ok d" and "annotations_ok d"
  shows "annotations_ok (delete_nodes Q d)"
proof -
  let ?ids = "n_id ` {n \<in> set (nodes d). Q n}"
  let ?d = "d\<lparr>nodes := delete_where Q (nodes d),
     edges := delete_where (\<lambda>e. (e_source e, e_user e) \<in> set (map n_key (filter Q (nodes d)))) (edges d),
     tags := delete_where (\<lambda>t. t_node t \<in> ?ids) (tags d),
     site_notes := delete_where (\<lambda>x. o_node x \<in> ?ids) (site_notes d)\<rparr>"
  have d: "delete_nodes Q d = delete_watches (\<lambda>w. w_node w \<in> ?ids) ?d"
    by (simp add: delete_nodes_def Let_def)
  have own: "owns (delete_nodes Q d) i u" if "owns d i u" "i \<notin> ?ids" for i u
    using owns_delete [OF assms(1) that] .
  have ev: "\<exists>w \<in> set (watches (delete_nodes Q d)). w_id w = v_watch v \<and> w_user w = v_user v"
    if "v \<in> set (events (delete_nodes Q d))" for v
  proof -
    have v: "v \<in> set (events d)" "\<forall>w \<in> set (watches d). w_node w \<in> ?ids \<longrightarrow> w_id w \<noteq> v_watch v"
      using that unfolding d delete_watches_fields by auto
    then obtain w where "w \<in> set (watches d)" "w_id w = v_watch v" "w_user w = v_user v"
      using assms(2) by (auto simp: annotation_defs list_all_iff list_ex_iff)
    with v(2) show ?thesis by (auto simp: delete_nodes_more)
  qed
  show ?thesis
    using assms(2) own ev
    by (auto simp: annotation_defs delete_nodes_more delete_nodes_fields list_all_iff list_ex_iff
        distinct_map_delete_where distinct_delete_where)
qed

text \<open>Under the invariant an account's annotations all hang on its own nodes.\<close>

lemma annotation_owner:
  assumes "nodes_ok d" and "owns d i u" and "owns d i v"
  shows "u = v"
  using assms node_id_unique unfolding owns_iff by metis

lemma delete_user_annotations:
  assumes "nodes_ok d" and "annotations_ok d"
  shows "annotations_ok (delete_user u d)"
proof -
  let ?d1 = "delete_nodes (\<lambda>n. n_user n = u) d"
  let ?d2 = "delete_watches (\<lambda>w. w_user w = u) ?d1"
  have ok: "annotations_ok ?d2" using assms delete_nodes_annotations delete_watches_annotations by blast
  have nodes: "nodes (delete_user u d) = nodes ?d2"
    by (simp add: delete_user_fields delete_watches_fields delete_nodes_fields)
  have "tags (delete_user u d) = delete_where (\<lambda>t. t_user t = u) (tags ?d2)"
    "site_notes (delete_user u d) = delete_where (\<lambda>x. o_user x = u) (site_notes ?d2)"
    "watches (delete_user u d) = watches ?d2" "next_id (delete_user u d) = next_id ?d2"
    "events (delete_user u d) = delete_where (\<lambda>v. v_user v = u) (events ?d2)"
    by (simp_all add: delete_user_def Let_def)
  with ok owns_cong [OF nodes] show ?thesis
    by (auto simp: annotation_defs list_all_iff distinct_map_delete_where distinct_delete_where)
qed

lemma q_apply_annotations:
  assumes "nodes_ok d" and "annotations_ok d"
  shows "annotations_ok (q_apply P opn d)"
proof (cases "deletes opn")
  case True
  then show ?thesis using assms delete_nodes_annotations delete_user_annotations by (cases opn) auto
qed (use assms grows_annotations q_apply_grows in blast)

subsection \<open>Account operations\<close>

text \<open>Apart from an erasure they leave the crawl and the annotation tables alone.\<close>

definition same_crawl :: "db \<Rightarrow> db \<Rightarrow> bool" where
  "same_crawl d d' = (nodes d' = nodes d \<and> edges d' = edges d \<and> blacklist d' = blacklist d \<and> same_annotations d d')"

lemma same_crawl_basic [simp]:
  "same_crawl d d" "same_crawl d (update_users Q f d)" "same_crawl d (update_sessions Q' g d)"
  "same_crawl d (d\<lparr>audit := a\<rparr>)" "same_crawl d (d\<lparr>sessions := s\<rparr>)" "same_crawl d (d\<lparr>codes := c\<rparr>)"
  "same_crawl d (d\<lparr>sessions := s, next_id := Suc (next_id d)\<rparr>)"
  "same_crawl d (update_users Q f d\<lparr>codes := c\<rparr>)" "same_crawl d (update_users Q f d\<lparr>migrations := m\<rparr>)"
  by (simp_all add: same_crawl_def same_annotations_def update_users_def update_sessions_def)

lemma insert_user_crawl: "insert_user now e h role t d = Inserted d' \<Longrightarrow> same_crawl d d'"
  by (auto simp: insert_user_def same_crawl_def same_annotations_def split: if_splits)

lemma a_apply_crawl:
  assumes "\<And>u ref. snd x \<noteq> Erase u ref"
  shows "same_crawl d (a_apply P x d)"
proof -
  obtain now op where x: "x = (now, op)" by (cases x)
  show ?thesis
  proof (cases op)
    case (AddUser email h role tok)
    then show ?thesis
      unfolding x by (auto simp: CreateUser_def insert_user_crawl split: insert_outcome.split)
  next
    case (Register email h tok adm)
    then show ?thesis
      unfolding x by (auto simp: CreateRegisteredUser_def Let_def insert_user_crawl split: insert_outcome.split)
  next
    case (Erase u ref)
    then show ?thesis using assms [of u ref] x by simp
  qed (simp_all add: x user_ops Let_def)
qed

lemma a_apply_user_exists:
  assumes "users_ok d" and "\<And>ref. snd x \<noteq> Erase u ref" and "user_exists u d"
  shows "user_exists u (a_apply P x d)"
proof -
  obtain r where "r \<in> set (users d)" "us_id r = u" using assms(3) by (auto simp: user_exists_def)
  then have "find_user u d = Some r" using find_user_eq [OF assms(1)] by blast
  from find_user_after [OF assms(1) this assms(2)] obtain r' where "find_user u (a_apply P x d) = Some r'" by blast
  then show ?thesis using find_user_Some by (auto simp: user_exists_def)
qed

lemma DeleteAccount_cases:
  "snd (DeleteAccount u ref d) = d \<or> (\<exists>a. snd (DeleteAccount u ref d) = delete_user u (d\<lparr>audit := a\<rparr>))"
proof (cases "ref = []")
  case True
  then have "snd (DeleteAccount u ref d) = delete_user u (d\<lparr>audit := audit d\<rparr>)" by (simp add: DeleteAccount_def)
  then show ?thesis by blast
next
  case False
  then show ?thesis by (auto simp: DeleteAccount_def)
qed

lemma db_ok_audit: "db_ok (d\<lparr>audit := a\<rparr>) = db_ok d"
  by (simp add: db_ok_def nodes_ok_def edges_ok_def users_ok_def user_exists_def)

lemma annotations_ok_audit: "annotations_ok (d\<lparr>audit := a\<rparr>) = annotations_ok d"
  by (simp add: annotation_defs owns_def)

lemma a_apply_all:
  assumes "db_ok d" and "blacklist_inv d" and "annotations_ok d"
  shows "db_ok (a_apply P x d) \<and> blacklist_inv (a_apply P x d) \<and> annotations_ok (a_apply P x d)"
proof (cases "\<exists>u ref. snd x = Erase u ref")
  case True
  then obtain now u ref where x: "x = (now, Erase u ref)" by (cases x) auto
  have n: "nodes_ok (d\<lparr>audit := a\<rparr>)" for a using assms(1) by (simp add: db_ok_def nodes_ok_def user_exists_def)
  have "db_ok (delete_user u (d\<lparr>audit := a\<rparr>)) \<and> blacklist_inv (delete_user u (d\<lparr>audit := a\<rparr>)) \<and>
      annotations_ok (delete_user u (d\<lparr>audit := a\<rparr>))" for a
    using assms delete_user_ok [of "d\<lparr>audit := a\<rparr>"] delete_user_annotations [OF n]
      blacklist_inv_shrink [OF assms(2), of "delete_user u (d\<lparr>audit := a\<rparr>)"]
    by (auto simp: db_ok_audit annotations_ok_audit delete_user_fields)
  with DeleteAccount_cases [of u ref d] assms show ?thesis by (auto simp: x)
next
  case False
  then have c: "same_crawl d (a_apply P x d)" using a_apply_crawl by blast
  then have n: "nodes (a_apply P x d) = nodes d" "edges (a_apply P x d) = edges d"
    "blacklist (a_apply P x d) = blacklist d" "next_id d \<le> next_id (a_apply P x d)"
    by (simp_all add: same_crawl_def same_annotations_def)
  have u: "users_ok d" using assms(1) by (simp add: db_ok_def)
  have "user_exists v d \<Longrightarrow> user_exists v (a_apply P x d)" for v using a_apply_user_exists [OF u] False by blast
  then have "nodes_ok (a_apply P x d)"
    using assms(1) n by (auto simp: db_ok_def nodes_ok_def list_all_iff intro: less_le_trans)
  moreover have "edges_ok (a_apply P x d)" using assms(1) n by (simp add: db_ok_def edges_ok_def)
  ultimately have "db_ok (a_apply P x d)" using a_apply_users_ok [OF u] by (simp add: db_ok_def)
  moreover have "blacklist_inv (a_apply P x d)" using blacklist_inv_shrink [OF assms(2)] n by simp
  moreover have "annotations_ok (a_apply P x d)"
    using annotations_frame [OF assms(3)] c owns_cong [OF n(1)] by (simp add: same_crawl_def)
  ultimately show ?thesis by blast
qed

subsection \<open>Annotation operations\<close>

datatype n_op =
    TagAdd string int string
  | TagDrop string int string
  | Note time string int string
  | WatchOn time string int int
  | WatchOff string int
  | Observe time string int bool int
  | SeenAll time int
  | PurgeText int
  | Retain "node_row \<Rightarrow> nat" "int \<Rightarrow> time" int bool

fun n_apply :: "platform \<Rightarrow> n_op \<Rightarrow> db \<Rightarrow> db" where
  "n_apply P (TagAdd url u tag) d = snd (AddTag P url u tag d)"
| "n_apply P (TagDrop url u tag) d = snd (RemoveTag P url u tag d)"
| "n_apply P (Note now url u body) d = snd (SetNote P now url u body d)"
| "n_apply P (WatchOn now url u days) d = snd (StartWatch P now url u days d)"
| "n_apply P (WatchOff url u) d = snd (StopWatch P url u d)"
| "n_apply P (Observe now url u reach code) d = snd (RecordWatchObservation P now url u reach code d)"
| "n_apply P (SeenAll now u) d = snd (MarkWatchEventsSeen now u d)"
| "n_apply P (PurgeText u) d = snd (PurgeStoredContent u d)"
| "n_apply P (Retain rank clock batch dry) d = snd (ApplyRetention rank clock batch dry d)"

lemma nodeIDFor_owns:
  assumes "nodeIDFor P url u d = Inr i"
  shows "owns d i u"
  using assms find_node_Some
  by (fastforce simp: nodeIDFor_def owns_iff split: sum.splits option.splits if_splits)

lemma annotations_update:
  "annotations_ok d \<Longrightarrow> (\<And>n. n_id (f n) = n_id n \<and> n_user (f n) = n_user n) \<Longrightarrow> annotations_ok (update_nodes Q f d)"
  by (rule annotations_frame) (auto simp: owns_def map_update_where)

lemma AddTag_annotations: "annotations_ok d \<Longrightarrow> annotations_ok (snd (AddTag P url u tag d))"
  by (auto simp: AddTag_def Let_def annotation_defs owns_def tag_at_def list_all_iff
      dest!: nodeIDFor_owns split: sum.splits)

lemma RemoveTag_annotations: "annotations_ok d \<Longrightarrow> annotations_ok (snd (RemoveTag P url u tag d))"
  by (auto simp: RemoveTag_def annotation_defs owns_def list_all_iff distinct_delete_where split: sum.splits)

lemma SetNote_annotations:
  assumes "annotations_ok d"
  shows "annotations_ok (snd (SetNote P now url u body d))"
proof (cases "nodeIDFor P url u d")
  case (Inl e)
  then show ?thesis using assms by (simp add: SetNote_def Let_def)
next
  case (Inr i)
  note own = nodeIDFor_owns [OF Inr]
  have "\<forall>x \<in> set (update_where (note_at u i) (\<lambda>x. x\<lparr>o_body := b, o_at := now\<rparr>) (site_notes d)). owns d (o_node x) (o_user x)" for b
    using assms by (auto elim!: update_where_sets simp: annotation_defs list_all_iff)
  then show ?thesis
    using assms own Inr
    by (auto simp: SetNote_def Let_def annotation_defs owns_def list_all_iff distinct_map_delete_where
        distinct_map_update_where note_at_def)
qed

lemma watch_ref_update:
  assumes "\<And>w. w_id (f w) = w_id w \<and> w_user (f w) = w_user w"
  shows "(\<exists>w \<in> set (update_where Q f t). w_id w = i \<and> w_user w = v) \<longleftrightarrow> (\<exists>w \<in> set t. w_id w = i \<and> w_user w = v)"
  using ex_update_where [of "\<lambda>w. (w_id w, w_user w)" f Q t "(i, v)"] assms by simp

lemma upsert_watch_annotations:
  assumes "annotations_ok d" and "owns d i u"
  shows "annotations_ok (upsert_watch now u i days d)"
proof -
  have ids: "w_id w \<noteq> next_id d" if "w \<in> set (watches d)" for w
    using assms(1) that by (auto simp: annotation_defs list_all_iff)
  have "\<forall>w \<in> set (update_where (watch_at u i) (\<lambda>w. w\<lparr>w_interval := days\<rparr>) (watches d)).
      w_id w < next_id d \<and> owns d (w_node w) (w_user w)"
    using assms(1) by (auto elim!: update_where_sets simp: annotation_defs list_all_iff)
  moreover have "\<exists>w \<in> set (update_where (watch_at u i) (\<lambda>w. w\<lparr>w_interval := days\<rparr>) (watches d)).
      w_id w = v_watch v \<and> w_user w = v_user v" if v: "v \<in> set (events d)" for v
    by (subst watch_ref_update) (use assms(1) v in \<open>auto simp: annotation_defs list_all_iff list_ex_iff\<close>)
  ultimately show ?thesis
    using assms ids
    by (auto simp: upsert_watch_def annotation_defs owns_def list_all_iff list_ex_iff watch_at_def
        distinct_map_update_where less_SucI)
qed

lemma StartWatch_annotations: "annotations_ok d \<Longrightarrow> annotations_ok (snd (StartWatch P now url u days d))"
  using annotations_update upsert_watch_annotations
  by (auto simp: StartWatch_def Let_def watched_row_def dest!: nodeIDFor_owns split: sum.splits)

lemma fold_insert_event:
  "watches (fold (insert_event now w u code) ks d) = watches d" "nodes (fold (insert_event now w u code) ks d) = nodes d"
  "tags (fold (insert_event now w u code) ks d) = tags d" "site_notes (fold (insert_event now w u code) ks d) = site_notes d"
  "next_id (fold (insert_event now w u code) ks d) = next_id d + length ks"
  "users (fold (insert_event now w u code) ks d) = users d" "edges (fold (insert_event now w u code) ks d) = edges d"
  "blacklist (fold (insert_event now w u code) ks d) = blacklist d"
  by (induction ks arbitrary: d) (simp_all add: insert_event_def)

lemma events_insert_event:
  "events (fold (insert_event now w u code) ks d) =
     events d @ map (\<lambda>(i, k). \<lparr>v_id = i, v_watch = w_id w, v_user = u, v_kind = k, v_code = code, v_at = now, v_seen = None\<rparr>)
       (zip [next_id d..<next_id d + length ks] ks)"
proof (induction ks arbitrary: d)
  case (Cons k ks)
  have "[next_id d..<next_id d + length (k # ks)] = next_id d # [Suc (next_id d)..<Suc (next_id d) + length ks]"
    using upt_conv_Cons [of "next_id d" "next_id d + length (k # ks)"] by simp
  with Cons show ?case by (simp add: insert_event_def del: upt_Suc)
qed simp

lemma watch_nodes_iff: "(w, n) \<in> set (watch_nodes d) \<longleftrightarrow> w \<in> set (watches d) \<and> n \<in> set (nodes d) \<and> n_id n = w_node w"
  by (auto simp: watch_nodes_def)

lemma observation_annotations:
  assumes "annotations_ok d" and "w \<in> set (watches d)" and "w_user w = u"
    and f: "\<And>w. w_id (f w) = w_id w \<and> w_user (f w) = w_user w \<and> w_node (f w) = w_node w"
  shows "annotations_ok (let d1 = fold (insert_event now w u code) ks d in d1\<lparr>watches := update_where Q f (watches d1)\<rparr>)"
proof -
  let ?W = "update_where Q f (watches d)"
  let ?E = "events (fold (insert_event now w u code) ks d)"
  have ws: "\<exists>w' \<in> set ?W. w_id w' = i \<and> w_user w' = v" if "\<exists>w' \<in> set (watches d). w_id w' = i \<and> w_user w' = v" for i v
    using that f by (subst watch_ref_update) auto
  have ev: "\<exists>w' \<in> set (watches d). w_id w' = v_watch v \<and> w_user w' = v_user v" if "v \<in> set ?E" for v
    using that assms(1-3)
    by (auto simp: events_insert_event annotation_defs list_all_iff list_ex_iff dest!: set_zip_rightD in_set_zipE)
  have own: "\<forall>w \<in> set ?W. w_id w < next_id d \<and> owns d (w_node w) (w_user w)"
    using assms(1) f by (auto elim!: update_where_sets simp: annotation_defs list_all_iff)
  show ?thesis
    using assms(1) f ws ev own
    by (auto simp: annotation_defs Let_def fold_insert_event owns_def list_all_iff list_ex_iff
        distinct_map_update_where trans_less_add1)
qed

lemma RecordWatchObservation_cases:
  "snd (RecordWatchObservation P now url u reach code d) = d \<or>
   (\<exists>canonical h w n. canonicalCrawlURL P url = Inr (canonical, h) \<and>
      first_where (\<lambda>(w, n). w_user w = u \<and> n_url n = canonical) (watch_nodes d) = Some (w, n) \<and>
      snd (RecordWatchObservation P now url u reach code d) =
        (let d1 = fold (insert_event now w u code)
                    (watch_kinds (w_reach w) (w_hash w) (now_reachable reach code) (n_hash n)) d
         in d1\<lparr>watches := update_where (\<lambda>w'. w_id w' = w_id w)
              (observed_row now (now_reachable reach code) code (n_hash n)) (watches d1)\<rparr>))"
  by (auto simp: RecordWatchObservation_def Let_def split: sum.split option.split prod.split)

lemma Observe_annotations:
  assumes "annotations_ok d"
  shows "annotations_ok (snd (RecordWatchObservation P now url u reach code d))"
  using RecordWatchObservation_cases [of P now url u reach code d]
proof (elim disjE exE conjE)
  fix canonical w n
  assume f: "first_where (\<lambda>(w, n). w_user w = u \<and> n_url n = canonical) (watch_nodes d) = Some (w, n)"
    and s: "snd (RecordWatchObservation P now url u reach code d) =
        (let d1 = fold (insert_event now w u code)
                    (watch_kinds (w_reach w) (w_hash w) (now_reachable reach code) (n_hash n)) d
         in d1\<lparr>watches := update_where (\<lambda>w'. w_id w' = w_id w)
              (observed_row now (now_reachable reach code) code (n_hash n)) (watches d1)\<rparr>)"
  have w: "w \<in> set (watches d)" "w_user w = u" using first_where_Some [OF f] by (auto simp: watch_nodes_iff)
  show ?thesis unfolding s by (rule observation_annotations [OF assms w]) (simp add: observed_row_def)
qed (use assms in simp)

lemma SeenAll_annotations: "annotations_ok d \<Longrightarrow> annotations_ok (snd (MarkWatchEventsSeen now u d))"
  by (auto simp: MarkWatchEventsSeen_def Let_def annotation_defs owns_def list_all_iff elim!: update_where_sets)

subsection \<open>Retention\<close>

lemma retention_step_snd:
  "snd (retention_step rank clock batch p (rep, d)) =
     (if DryRun rep then d
      else delete_nodes (\<lambda>n. n_id n \<in> set (retention_ids rank (fst p) (retention_cutoff (clock (fst p)) (snd p)) batch d)) d)"
  "DryRun (fst (retention_step rank clock batch p (rep, d))) = DryRun rep"
  by (simp_all add: retention_step_def Let_def)

lemma retention_fold_keeps:
  assumes "\<And>Q e. I e \<Longrightarrow> I (delete_nodes Q e)" and "I d"
  shows "I (snd (fold (retention_step rank clock batch) ps (rep, d)))"
  using assms(2)
proof (induction ps arbitrary: rep d)
  case (Cons p ps)
  have "I (snd (retention_step rank clock batch p (rep, d)))" using Cons.prems assms(1) by (simp add: retention_step_snd)
  then show ?case using Cons.IH by (cases "retention_step rank clock batch p (rep, d)") simp
qed simp

lemma ApplyRetention_keeps:
  "(\<And>Q e. I e \<Longrightarrow> I (delete_nodes Q e)) \<Longrightarrow> I d \<Longrightarrow> I (snd (ApplyRetention rank clock batch dry d))"
  unfolding ApplyRetention_def Let_def by (rule retention_fold_keeps)

subsection \<open>All tables together\<close>

definition sys_ok :: "db \<Rightarrow> bool" where
  "sys_ok d = (db_ok d \<and> blacklist_inv d \<and> annotations_ok d)"

lemma db_ok_nodes: "db_ok d \<Longrightarrow> nodes_ok d"
  by (simp add: db_ok_def)

lemma db_ok_frame:
  assumes "db_ok d" and "nodes d' = nodes d" and "users d' = users d" and "edges d' = edges d"
    and "blacklist d' = blacklist d" and "next_id d \<le> next_id d'" and "blacklist_inv d"
  shows "db_ok d' \<and> blacklist_inv d'"
proof
  show "db_ok d'"
    using assms by (auto simp: db_ok_def nodes_ok_def edges_ok_def users_ok_def user_exists_def list_all_iff
        intro: less_le_trans)
  show "blacklist_inv d'" using assms blacklist_inv_shrink [of d d'] by simp
qed

lemma node_change_ok:
  assumes "db_ok d" and "blacklist_inv d" and "keeps f" and "\<And>n. n_status (f n) = n_status n"
  shows "db_ok (update_nodes Q f d) \<and> blacklist_inv (update_nodes Q f d)"
proof
  show "db_ok (update_nodes Q f d)" using db_ok_update assms by blast
  show "blacklist_inv (update_nodes Q f d)"
    unfolding blacklist_inv_iff
  proof (intro ballI allI impI)
    fix n h
    assume n: "n \<in> set (nodes (update_nodes Q f d))" and h: "n_host n = Some h" "blacklisted h (update_nodes Q f d)"
    obtain m where "m \<in> set (nodes d)" "n_host m = n_host n" "n_status m = n_status n"
      using n assms(3,4) by (auto simp: in_update_where_cases keeps_def)
    then show "n_status n = Blocked"
      using assms(2) h by (auto simp: blacklist_inv_iff blacklisted_def)
  qed
qed

lemma StartWatch_db:
  assumes "db_ok d" and "blacklist_inv d"
  shows "db_ok (snd (StartWatch P now url u days d)) \<and> blacklist_inv (snd (StartWatch P now url u days d))"
proof -
  have "db_ok (upsert_watch now u i days d) \<and> blacklist_inv (upsert_watch now u i days d)" for i
    by (rule db_ok_frame [OF assms(1)]) (simp_all add: upsert_watch_def assms(2))
  moreover have "keeps (watched_row now days)" "\<And>n. n_status (watched_row now days n) = n_status n"
    by (simp_all add: keeps_def watched_row_def)
  ultimately show ?thesis
    using assms node_change_ok by (auto simp: StartWatch_def Let_def split: sum.split)
qed

lemma n_apply_db:
  assumes "db_ok d" and "blacklist_inv d"
  shows "db_ok (n_apply P opn d) \<and> blacklist_inv (n_apply P opn d)"
proof -
  note frame = db_ok_frame [OF assms(1) _ _ _ _ _ assms(2)]
  show ?thesis
  proof (cases opn)
    case (WatchOn now url u days)
    then show ?thesis using StartWatch_db assms by simp
  next
    case (PurgeText u)
    moreover have "keeps (\<lambda>n. n\<lparr>n_content := None, n_hash := None\<rparr>)" by (simp add: keeps_def)
    ultimately show ?thesis using node_change_ok [OF assms] by (simp add: PurgeStoredContent_def Let_def)
  next
    case (Retain rank clock batch dry)
    show ?thesis
      unfolding Retain n_apply.simps
      by (rule ApplyRetention_keeps [where I = "\<lambda>d. db_ok d \<and> blacklist_inv d"])
        (auto simp: assms delete_nodes_ok delete_nodes_fields intro: blacklist_inv_shrink)
  next
    case (Observe now url u reach code)
    have "nodes (n_apply P opn d) = nodes d \<and> users (n_apply P opn d) = users d \<and> edges (n_apply P opn d) = edges d \<and>
        blacklist (n_apply P opn d) = blacklist d \<and> next_id d \<le> next_id (n_apply P opn d)"
      using RecordWatchObservation_cases [of P now url u reach code d]
      by (auto simp: Observe Let_def fold_insert_event)
    then show ?thesis using frame by blast
  next
    case (TagAdd url u tag)
    then show ?thesis by (intro frame) (auto simp: AddTag_def Let_def split: sum.split)
  next
    case (TagDrop url u tag)
    then show ?thesis by (intro frame) (auto simp: RemoveTag_def split: sum.split)
  next
    case (Note now url u body)
    then show ?thesis by (intro frame) (auto simp: SetNote_def Let_def split: sum.split)
  next
    case (WatchOff url u)
    then show ?thesis by (intro frame) (auto simp: StopWatch_def delete_watches_def Let_def split: sum.split)
  next
    case (SeenAll now u)
    then show ?thesis by (intro frame) (auto simp: MarkWatchEventsSeen_def Let_def)
  qed
qed

lemma n_apply_annotations:
  assumes "db_ok d" and "annotations_ok d"
  shows "annotations_ok (n_apply P opn d)"
proof (cases opn)
  case (WatchOff url u)
  then show ?thesis using assms delete_watches_annotations by (auto simp: StopWatch_def split: sum.split)
next
  case (PurgeText u)
  then show ?thesis using assms annotations_update by (simp add: PurgeStoredContent_def Let_def)
next
  case (Retain rank clock batch dry)
  have "db_ok (snd (ApplyRetention rank clock batch dry d)) \<and> annotations_ok (snd (ApplyRetention rank clock batch dry d))"
    by (rule ApplyRetention_keeps [where I = "\<lambda>d. db_ok d \<and> annotations_ok d"])
      (auto simp: assms delete_nodes_ok delete_nodes_annotations db_ok_nodes)
  with Retain show ?thesis by simp
qed (use assms AddTag_annotations RemoveTag_annotations SetNote_annotations StartWatch_annotations
    Observe_annotations SeenAll_annotations in simp_all)

datatype sys_op = Queue q_op | Account "time \<times> a_op" | Annotate n_op

fun sys_apply :: "platform \<Rightarrow> sys_op \<Rightarrow> db \<Rightarrow> db" where
  "sys_apply P (Queue x) d = q_apply P x d"
| "sys_apply P (Account x) d = a_apply P x d"
| "sys_apply P (Annotate x) d = n_apply P x d"

definition sys_run :: "platform \<Rightarrow> sys_op list \<Rightarrow> db \<Rightarrow> db" where
  "sys_run P ops d = fold (sys_apply P) ops d"

lemma sys_apply_ok: "sys_ok d \<Longrightarrow> sys_ok (sys_apply P x d)"
  using q_apply_ok q_apply_inv q_apply_annotations a_apply_all n_apply_db n_apply_annotations
  by (cases x) (auto simp: sys_ok_def db_ok_nodes)

end
