(* ===== verification/Engine_Properties.thy ===== *)
theory Engine_Properties
  imports Engine Queue_Invariants Account_Invariants Annotation_Invariants
begin

section \<open>Properties of the crawl\<close>

text \<open>
  Any number of workers interleaved with the API and the sweepers: what they contact, what they do to the
  database, and that a claimed page is worked off.
\<close>

subsection \<open>Interleavings\<close>

text \<open>
  What else may touch the database meanwhile: any operation of the API or of a sweeper. Only workers save
  edges, and a submission starts at depth 0.
\<close>

fun from_outside :: "sys_op \<Rightarrow> bool" where
  "from_outside (Queue (Enqueue _ _ depth _ _)) = (depth = 0)"
| "from_outside (Queue (Link _ _ _ _ _)) = False"
| "from_outside _ = True"

inductive crawl_step :: "crawler \<Rightarrow> engine \<times> phase list \<Rightarrow> engine \<times> phase list \<Rightarrow> bool" for C :: crawler where
  work: "k < length ws \<Longrightarrow> worker_step C i (ws ! k) e = (ph, e') \<Longrightarrow> crawl_step C (e, ws) (e', ws[k := ph])"
| outside: "from_outside x \<Longrightarrow> crawl_step C (e, ws) (e\<lparr>e_db := sys_apply (c_plat C) x (e_db e)\<rparr>, ws)"
| cleanup: "crawl_step C (e, ws) (e\<lparr>e_access := domain_cleanup now (e_access e)\<rparr>, ws)"

inductive crawl_reach :: "crawler \<Rightarrow> engine \<times> phase list \<Rightarrow> engine \<times> phase list \<Rightarrow> bool" for C :: crawler where
  init: "crawl_reach C s s"
| step: "crawl_reach C s s' \<Longrightarrow> crawl_step C s' s'' \<Longrightarrow> crawl_reach C s s''"

inductive_cases crawl_stepE: "crawl_step C (e, ws) s'"

text \<open>An invariant of the shared state and one of every phase, kept by every step.\<close>

lemma crawl_reach_invariant:
  assumes "crawl_reach C s s'" and "I (fst s)" and "\<forall>ph \<in> set (snd s). J ph"
    and "\<And>i ph e ph' e'. I e \<Longrightarrow> J ph \<Longrightarrow> worker_step C i ph e = (ph', e') \<Longrightarrow> I e' \<and> J ph'"
    and "\<And>x e. I e \<Longrightarrow> from_outside x \<Longrightarrow> I (e\<lparr>e_db := sys_apply (c_plat C) x (e_db e)\<rparr>)"
    and "\<And>now e. I e \<Longrightarrow> I (e\<lparr>e_access := domain_cleanup now (e_access e)\<rparr>)"
  shows "I (fst s') \<and> (\<forall>ph \<in> set (snd s'). J ph)"
  using assms(1-3)
proof (induction rule: crawl_reach.induct)
  case (step s s' s'')
  then have I: "I (fst s')" and J: "\<forall>ph \<in> set (snd s'). J ph" by simp_all
  from step(2) show ?case
  proof (cases rule: crawl_step.cases)
    case (work k ws i e ph e')
    then have "J (ws ! k)" using J by simp
    with work I have "I e' \<and> J ph" using assms(4) [of e "ws ! k" i ph e'] by simp
    then show ?thesis using work J set_update_subset_insert [of ws k ph] by auto
  qed (use I J assms(5,6) in auto)
qed simp

subsection \<open>The database is only changed by the operations of the store\<close>

lemma worker_step_db:
  assumes "worker_step C i ph e = (ph', e')"
  shows "e_db e' = e_db e \<or> (\<exists>x. e_db e' = sys_apply (c_plat C) x (e_db e) \<and>
    (\<forall>now src tgt dep u. x = Queue (Link now src tgt dep u) \<longrightarrow> (\<exists>url depth l ls.
       ph = Linking url depth u (l # ls) \<and> dep = depth + 1 \<or> ph = Mapping url u (l # ls) \<and> dep = 1)) \<and>
    (\<forall>now raw dep u mx. x \<noteq> Queue (Enqueue now raw dep u mx)))"
proof (cases "(C, i, ph, e)" rule: worker_step.cases)
  case (1 C i e)
  then show ?thesis using assms
    by (auto simp: split_beta Let_def split: if_splits intro!: disjI2 exI [of _ "Queue (Claim (i_rank i) (i_locked i) (i_now i))"])
next
  case (3 C i url uid e)
  then show ?thesis using assms by (auto intro!: disjI2 exI [of _ "Queue (RobotsBlock (i_now i) url uid)"])
next
  case (6 C i url uid e)
  then show ?thesis using assms by (auto intro!: disjI2 exI [of _ "Queue (FailNode (i_now i) url uid)"])
next
  case (7 C i url uid e)
  then show ?thesis using assms by (auto intro!: disjI2 exI [of _ "Annotate (Observe (i_now i) url uid False 0)"])
next
  case (8 C i e)
  then show ?thesis using assms
    by (auto simp: onNetworkError_def Let_def split: if_splits option.splits prod.splits sum.splits bool.splits)
next
  case (10 C i url depth uid r seen e)
  show ?thesis
  proof (cases "canonicalCrawlURL (c_plat C) url")
    case (Inr c)
    let ?cr = "crawl_result_of r"
    have "e_db e' = sys_apply (c_plat C) (Queue (SaveRow (i_now i) (fst c) ?cr
        (ContentHash (c_plat C) (cr_title ?cr) (cr_content ?cr)) uid seen)) (e_db e)"
      using 10 assms Inr by (auto simp: Let_def split_beta split: if_splits)
    then show ?thesis using 10 by blast
  qed (use 10 assms in auto)
next
  case (11 C i url depth uid r e)
  then show ?thesis using assms by (auto intro!: disjI2 exI [of _ "Queue (FailNode (i_now i) url uid)"])
next
  case (12 C i url depth uid r e)
  then show ?thesis using assms by (auto intro!: disjI2 exI [of _ "Annotate (Observe (i_now i) url uid True (StatusCode r))"])
next
  case (13 C i url depth uid l ls e)
  then show ?thesis using assms by (auto intro!: disjI2 exI [of _ "Queue (Link (i_now i) url l (depth + 1) uid)"])
next
  case (16 C i url uid l ls e)
  then show ?thesis using assms by (auto intro!: disjI2 exI [of _ "Queue (Link (i_now i) url l 1 uid)"])
qed (use assms in \<open>auto simp: Let_def split_beta split: if_splits option.splits sum.splits prod.splits scrape.splits\<close>)

subsection \<open>Only onion services are contacted\<close>

text \<open>
  What the workers ask the client for: a v3 URL, or robots.txt and sitemap.xml at the host of one; what the
  client then contacts: that URL, or one its redirects lead to, which is a v3 URL at the same host name.
\<close>

definition requested :: "platform \<Rightarrow> string \<Rightarrow> bool" where
  "requested P s = (IsV3URL P s \<or>
     (\<exists>sc h. (sc = ''http'' \<or> sc = ''https'') \<and> IsV3Host P h \<and>
        (s = sc @ ''://'' @ h @ ''/robots.txt'' \<or> s = sc @ ''://'' @ h @ ''/sitemap.xml'')))"

definition contact_ok :: "platform \<Rightarrow> url \<Rightarrow> bool" where
  "contact_ok P u = (\<exists>s first. requested P s \<and> url_Parse P s = Some first \<and>
     (u = first \<or> IsV3URL P (url_String u) \<and> fold_eq P (url_Hostname u) (url_Hostname first)))"

lemma client_Do_contacts:
  assumes "requested P s"
  shows "length (snd (client_Do P wire s)) \<le> 3 \<and> (\<forall>u \<in> set (snd (client_Do P wire s)). contact_ok P u)"
proof (cases "url_Parse P s")
  case (Some first)
  obtain res us where c: "client_loop P wire [] first = (res, us)" by force
  have "length us \<le> 3 \<and> (\<forall>u \<in> set us. contact_ok P u)"
    by (rule client_loop_contacts [OF c, of first]) (use assms Some in \<open>auto simp: contact_ok_def\<close>)
  then show ?thesis by (simp add: client_Do_def Some c)
qed (simp add: client_Do_def)

lemma host_file_requested:
  assumes "IsV3URL P t" and "url_Parse P t = Some v"
  shows "requested P (u_scheme v @ ''://'' @ u_host v @ ''/robots.txt'')"
    "requested P (u_scheme v @ ''://'' @ u_host v @ ''/sitemap.xml'')"
  using IsV3URL_Some [OF assms(1)] assms(2) by (auto simp: requested_def)

lemma NormalizeURL_requested: "NormalizeURL P raw \<noteq> [] \<Longrightarrow> requested P (NormalizeURL P raw)"
  using NormalizeURL_Some [OF refl] by (metis requested_def)

lemma index_loop_contacts:
  assumes "\<And>raw u. NormalizeURL P raw \<noteq> [] \<Longrightarrow> u \<in> set (snd (fetch (NormalizeURL P raw))) \<Longrightarrow> Q u"
    and "\<forall>u \<in> set us. Q u"
  shows "\<forall>u \<in> set (snd (index_loop P fetch i result us locs)). Q u"
  using assms
proof (induction P fetch i result us locs rule: index_loop.induct)
  case (2 P fetch i result us loc locs)
  obtain sub us' where f: "fetch (NormalizeURL P loc) = (sub, us')" by force
  show ?case
  proof (cases "i \<ge> maxChildSitemaps \<or> NormalizeURL P loc = []")
    case True
    then show ?thesis using 2(1,3,4) by auto
  next
    case ok: False
    have us: "\<forall>u \<in> set (us @ us'). Q u" using 2(3) [of loc] 2(4) ok f by auto
    show ?thesis
      using 2(2) [of "NormalizeURL P loc" "(sub, us')" sub us' "result @ sub"] 2(3) us ok f
      by (cases "length (result @ sub) \<ge> maxSitemapURLs") (simp_all add: Let_def)
  qed
qed simp

lemma fetch_sitemap_contacts:
  assumes "requested P u" and "\<And>fetch raw v. child = Some fetch \<Longrightarrow> NormalizeURL P raw \<noteq> [] \<Longrightarrow>
      v \<in> set (snd (fetch (NormalizeURL P raw))) \<Longrightarrow> contact_ok P v"
  shows "\<forall>v \<in> set (snd (fetch_sitemap P xml wire child u)). contact_ok P v"
proof (cases rule: fetch_sitemap_cases [of P xml wire child u])
  case (index fetch locs)
  have "\<forall>v \<in> set (snd (index_loop P fetch 0 [] (snd (client_Do P wire u)) locs)). contact_ok P v"
    by (rule index_loop_contacts) (use assms(2) index(1) client_Do_contacts [OF assms(1)] in blast)+
  then show ?thesis by (simp only: index(2))
qed (use client_Do_contacts [OF assms(1)] in simp_all)

lemma sitemap_contacts:
  assumes "IsV3URL P t"
  shows "\<forall>u \<in> set (snd (FetchSitemapURLs P xml wire t)). contact_ok P u"
proof -
  obtain v where v: "url_Parse P t = Some v" using IsV3URL_Some [OF assms] by blast
  have leaf: "\<forall>w \<in> set (snd (fetch_sitemap P xml wire None (NormalizeURL P raw))). contact_ok P w"
    if "NormalizeURL P raw \<noteq> []" for raw
    by (rule fetch_sitemap_contacts) (use NormalizeURL_requested [OF that] in auto)
  show ?thesis
    unfolding FetchSitemapURLs_def v option.case fetchAndParseSitemap_def
    by (rule fetch_sitemap_contacts) (use host_file_requested(2) [OF assms v] leaf in auto)
qed

lemma robots_contacts_ok:
  assumes "IsV3URL P t"
  shows "\<forall>u \<in> set (robots_contacts P wire now t m). contact_ok P u"
proof -
  obtain v where v: "url_Parse P t = Some v" using IsV3URL_Some [OF assms] by blast
  show ?thesis
    unfolding robots_contacts_def v option.case using client_Do_contacts [OF host_file_requested(1) [OF assms v]] by simp
qed

lemma ScrapePage_contacts:
  assumes "IsV3URL P t"
  shows "\<forall>u \<in> set (snd (ScrapePage P wire html t)). contact_ok P u"
proof -
  obtain res us where c: "client_Do P wire t = (res, us)" by force
  have "requested P t" using assms by (simp add: requested_def)
  from client_Do_contacts [OF this, of wire] show ?thesis
    by (auto simp: ScrapePage_def c split: option.split)
qed

subsection \<open>Depth\<close>

definition depth_ok :: "int \<Rightarrow> db \<Rightarrow> bool" where
  "depth_ok m d = (\<forall>n \<in> set (nodes d). 0 \<le> n_depth n \<and> n_depth n \<le> m)"

lemma depth_update: "depth_ok m d \<Longrightarrow> (\<And>n. n_depth (f n) = n_depth n) \<Longrightarrow> depth_ok m (update_nodes Q f d)"
  by (auto simp: depth_ok_def update_nodes_def in_update_where_cases)

lemma depth_insert: "depth_ok m d \<Longrightarrow> 0 \<le> n_depth n \<Longrightarrow> n_depth n \<le> m \<Longrightarrow> depth_ok m (insert_node n d)"
  by (auto simp: depth_ok_def insert_node_def)

lemma depth_subset: "depth_ok m d \<Longrightarrow> set (nodes d') \<subseteq> set (nodes d) \<Longrightarrow> depth_ok m d'"
  by (auto simp: depth_ok_def)

lemma row_depths [simp]:
  "n_depth (saved_row now r st h n) = n_depth n" "n_depth (touched_row now r n) = n_depth n"
  "n_depth (claim_row now n) = n_depth n" "n_depth (failed_row now n) = n_depth n"
  "n_depth (new_node k now url u ho) = 0"
  by (simp_all add: saved_row_def touched_row_def claim_row_def failed_row_def new_node_def)

lemma depth_target:
  assumes "depth_ok m d" "0 \<le> dep" "dep \<le> m" "enqueue_target now t h dep u d = Some d'"
  shows "depth_ok m d'"
proof -
  have "depth_ok m (update_nodes Q (\<lambda>n. n\<lparr>n_depth := dep\<rparr>) d)" for Q
    using assms(1-3) by (auto simp: depth_ok_def update_nodes_def in_update_where_cases)
  with assms show ?thesis by (auto simp: enqueue_target_def depth_insert split: if_splits option.splits)
qed

lemma depth_SaveEdge:
  assumes "depth_ok m d" "0 \<le> dep" "dep \<le> m"
  shows "depth_ok m (snd (SaveEdge P now src tgt dep u d))"
  using SaveEdge_cases [of P now src tgt dep u d]
proof
  assume "\<exists>s hs t h d1 d2. canonicalCrawlURL P src = Inr (s, hs) \<and> canonicalCrawlURL P tgt = Inr (t, h) \<and>
     (if blacklisted h d then d1 = d else enqueue_target now t h dep u d = Some d1) \<and>
     insert_edge now s t u d1 = Some d2 \<and> SaveEdge P now src tgt dep u d = (Inr (), d2)"
  then obtain h t s d1 d2 where e: "if blacklisted h d then d1 = d else enqueue_target now t h dep u d = Some d1"
    "insert_edge now s t u d1 = Some d2" "SaveEdge P now src tgt dep u d = (Inr (), d2)" by blast
  have "depth_ok m d1" using e(1) depth_target [OF assms] assms(1) by (auto split: if_splits)
  then show ?thesis using e(2,3) by (auto simp: insert_edge_def depth_ok_def split: if_splits)
qed (use assms in simp)

fun bounded_op :: "int \<Rightarrow> sys_op \<Rightarrow> bool" where
  "bounded_op m (Queue (Enqueue _ _ dep _ _)) = (0 \<le> dep \<and> dep \<le> m)"
| "bounded_op m (Queue (Link _ _ _ dep _)) = (0 \<le> dep \<and> dep \<le> m)"
| "bounded_op m _ = True"

lemma q_apply_depth:
  assumes "depth_ok m d" "bounded_op m (Queue x)" "0 \<le> m"
  shows "depth_ok m (q_apply P x d)"
proof (cases x)
  case (Enqueue now raw dep u mx)
  then show ?thesis using assms by (auto simp: EnqueueURL_def depth_insert split: sum.splits)
next
  case (Link now src tgt dep u)
  then show ?thesis using assms depth_SaveEdge by simp
next
  case (SaveRow now url r h u seen)
  then show ?thesis using assms
    by (auto simp: SaveNode_write_def Let_def intro!: depth_update depth_insert split: option.splits)
next
  case (Claim rank locked now)
  then show ?thesis using assms by (auto simp: GetNextPendingNode_def intro!: depth_update split: list.splits)
next
  case (Requeue now url u)
  then show ?thesis using assms
    by (auto simp: RequeueForCrawl_def Requeue_write_def intro!: depth_update split: sum.splits option.splits)
next
  case (Block now dmn)
  have "depth_ok m (update_nodes Q (\<lambda>n. n\<lparr>n_status := Blocked\<rparr>) (d\<lparr>blacklist := b\<rparr>))" for Q b
    using assms(1) by (intro depth_update) (simp_all add: depth_ok_def)
  then show ?thesis using assms(1) Block by (auto simp: AddBlacklist_def Let_def depth_ok_def)
next
  case (Unblock now dmn)
  have "depth_ok m (update_nodes Q f (d\<lparr>blacklist := b\<rparr>))" if "\<And>n. n_depth (f n) = n_depth n" for Q f b
    using assms(1) that by (intro depth_update) (simp_all add: depth_ok_def)
  then show ?thesis using assms(1) Unblock by (auto simp: DeleteBlacklist_def Let_def)
qed (use assms(1) in \<open>auto simp: reset_crawling_def ResetStuckCrawling_def FailNodeWithRetry_def MarkRobotsBlocked_def
    ReviveFailedNodes_def Let_def delete_nodes_fields delete_user_fields intro!: depth_update intro: depth_subset\<close>)

lemma a_apply_depth:
  assumes "depth_ok m d"
  shows "depth_ok m (a_apply P x d)"
proof (cases "\<exists>u ref. snd x = Erase u ref")
  case True
  then obtain now u ref where "x = (now, Erase u ref)" by (cases x) auto
  then show ?thesis using assms DeleteAccount_cases [of u ref d]
    by (auto simp: depth_ok_def delete_user_fields)
next
  case False
  then have "same_crawl d (a_apply P x d)" using a_apply_crawl by blast
  then show ?thesis using assms by (simp add: same_crawl_def depth_ok_def)
qed

lemma n_apply_depth:
  assumes "depth_ok m d"
  shows "depth_ok m (n_apply P x d)"
proof (cases x)
  case (Retain rank clock batch dry)
  show ?thesis
    unfolding Retain n_apply.simps
    by (rule ApplyRetention_keeps [where I = "depth_ok m"]) (auto simp: assms delete_nodes_fields intro: depth_subset)
next
  case (Observe now url u reach code)
  then show ?thesis
    using RecordWatchObservation_cases [of P now url u reach code d] assms by (auto simp: Let_def fold_insert_event depth_ok_def)
next
  case (WatchOn now url u days)
  have "depth_ok m (upsert_watch now u k days d)" for k using assms by (simp add: depth_ok_def upsert_watch_def)
  then have "depth_ok m (update_nodes Q (watched_row now days) (upsert_watch now u k days d))" for Q k
    by (rule depth_update) (simp add: watched_row_def)
  then show ?thesis using assms WatchOn by (simp add: StartWatch_def Let_def split: sum.split)
qed (use assms in \<open>auto simp: AddTag_def RemoveTag_def SetNote_def StopWatch_def delete_watches_def MarkWatchEventsSeen_def
    PurgeStoredContent_def Let_def depth_ok_def update_nodes_def in_update_where_cases split: sum.split\<close>)

lemma sys_apply_depth: "depth_ok m d \<Longrightarrow> bounded_op m x \<Longrightarrow> 0 \<le> m \<Longrightarrow> depth_ok m (sys_apply P x d)"
  by (cases x) (simp_all add: q_apply_depth a_apply_depth n_apply_depth)

subsection \<open>Invariants of the engine\<close>

fun phase_ok :: "crawler \<Rightarrow> phase \<Rightarrow> bool" where
  "phase_ok C (Claimed url depth uid) = (0 \<le> depth \<and> depth \<le> MaxDepth C)"
| "phase_ok C (Allowed url depth uid) = (IsV3URL (c_plat C) url \<and> 0 \<le> depth \<and> depth \<le> MaxDepth C)"
| "phase_ok C (Waiting url depth uid slot) = (IsV3URL (c_plat C) url \<and> 0 \<le> depth \<and> depth \<le> MaxDepth C)"
| "phase_ok C (Crawled url depth uid r) =
     (IsV3URL (c_plat C) url \<and> 0 \<le> depth \<and> depth \<le> MaxDepth C \<and> length (FoundOnions r) \<le> maxFoundOnions)"
| "phase_ok C (Saving url depth uid r seen) =
     (IsV3URL (c_plat C) url \<and> 0 \<le> depth \<and> depth \<le> MaxDepth C \<and> length (FoundOnions r) \<le> maxFoundOnions)"
| "phase_ok C (SaveFailed url depth uid r) =
     (IsV3URL (c_plat C) url \<and> 0 \<le> depth \<and> depth \<le> MaxDepth C \<and> length (FoundOnions r) \<le> maxFoundOnions)"
| "phase_ok C (Saved url depth uid r) =
     (IsV3URL (c_plat C) url \<and> 0 \<le> depth \<and> depth \<le> MaxDepth C \<and> length (FoundOnions r) \<le> maxFoundOnions)"
| "phase_ok C (Linking url depth uid ls) =
     (IsV3URL (c_plat C) url \<and> 0 \<le> depth \<and> depth < MaxDepth C \<and> length ls \<le> maxFoundOnions)"
| "phase_ok C (ReadSitemap url uid) = (IsV3URL (c_plat C) url \<and> 0 < MaxDepth C)"
| "phase_ok C (Mapping url uid ls) = (0 < MaxDepth C \<and> length ls \<le> maxSitemapURLs)"
| "phase_ok C _ = True"

definition engine_ok :: "crawler \<Rightarrow> engine \<Rightarrow> bool" where
  "engine_ok C e = (sys_ok (e_db e) \<and> depth_ok (MaxDepth C) (e_db e) \<and> (\<forall>u \<in> set (e_contacts e). contact_ok (c_plat C) u))"

lemma claimed_depth:
  assumes "depth_ok m d" and "fst (fst (GetNextPendingNode rank locked now d)) \<noteq> []"
  shows "0 \<le> fst (snd (fst (GetNextPendingNode rank locked now d))) \<and> fst (snd (fst (GetNextPendingNode rank locked now d))) \<le> m"
proof (cases rule: claim_cases [of rank locked now d])
  case (some n)
  then show ?thesis using assms(1) by (simp add: depth_ok_def)
qed (use assms in simp)

lemma worker_step_phase:
  assumes "phase_ok C ph" and "depth_ok (MaxDepth C) (e_db e)" and "worker_step C i ph e = (ph', e')"
  shows "phase_ok C ph'"
proof (cases "(C, i, ph, e)" rule: worker_step.cases)
  case (1 C i e)
  then show ?thesis using assms claimed_depth [OF assms(2)] by (auto simp: split_beta Let_def split: if_splits)
next
  case (5 C i url depth uid slot e)
  obtain res us where s: "ScrapePage (c_plat C) (i_wire i) (c_html C) url = (res, us)" by force
  have "length (FoundOnions r) \<le> maxFoundOnions" if "res = Scraped r" for r
    using ScrapePage_links s that by blast
  then show ?thesis using 5 assms(1,3) s by (auto split: if_splits scrape.splits)
next
  case (15 C i url uid e)
  then show ?thesis using assms FetchSitemapURLs_ok [of "c_plat C" "c_xml C" "i_wire i" url] by (auto simp: split_beta Let_def)
qed (use assms in \<open>auto simp: Let_def split_beta split: if_splits sum.splits prod.splits\<close>)

lemma worker_step_contacts:
  assumes "phase_ok C ph" and "\<forall>u \<in> set (e_contacts e). contact_ok (c_plat C) u" and "worker_step C i ph e = (ph', e')"
  shows "\<forall>u \<in> set (e_contacts e'). contact_ok (c_plat C) u"
proof (cases "(C, i, ph, e)" rule: worker_step.cases)
  case (2 C i url depth uid e)
  then show ?thesis using assms robots_contacts_ok [of "c_plat C" url "i_wire i" "i_now i" "e_robots e"]
    by (auto simp: Let_def split_beta split: if_splits)
next
  case (4 C i url depth uid e)
  then show ?thesis using assms robots_contacts_ok [of "c_plat C" url "i_wire i" "i_now i" "e_robots e"]
    by (auto simp: Let_def split_beta split: if_splits)
next
  case (5 C i url depth uid slot e)
  obtain res us where s: "ScrapePage (c_plat C) (i_wire i) (c_html C) url = (res, us)" by force
  have us: "\<forall>u \<in> set us. contact_ok (c_plat C) u"
    using ScrapePage_contacts [of "c_plat C" url "i_wire i" "c_html C"] 5 assms(1) s by simp
  then show ?thesis using 5 assms(2,3) s by (auto split: if_splits scrape.splits)
next
  case (8 C i e)
  then show ?thesis using assms
    by (auto simp: onNetworkError_def Let_def split: if_splits option.splits prod.splits sum.splits bool.splits)
next
  case (15 C i url uid e)
  then show ?thesis using assms sitemap_contacts [of "c_plat C" url "c_xml C" "i_wire i"] by (auto simp: split_beta Let_def)
qed (use assms in \<open>auto simp: Let_def split_beta split: if_splits sum.splits prod.splits\<close>)

lemma worker_step_ok:
  assumes "engine_ok C e" and "phase_ok C ph" and "0 < MaxDepth C" and "worker_step C i ph e = (ph', e')"
  shows "engine_ok C e' \<and> phase_ok C ph'"
proof -
  have c: "\<forall>u \<in> set (e_contacts e'). contact_ok (c_plat C) u" "phase_ok C ph'"
    using worker_step_contacts [OF assms(2) _ assms(4)] worker_step_phase [OF assms(2) _ assms(4)] assms(1)
    by (simp_all add: engine_ok_def)
  have "sys_ok (e_db e') \<and> depth_ok (MaxDepth C) (e_db e')"
    using worker_step_db [OF assms(4)]
  proof (elim disjE exE conjE)
    assume "e_db e' = e_db e"
    then show ?thesis using assms(1) by (simp add: engine_ok_def)
  next
    fix x assume x: "e_db e' = sys_apply (c_plat C) x (e_db e)"
      and l: "\<forall>now src tgt dep u. x = Queue (Link now src tgt dep u) \<longrightarrow> (\<exists>url depth l ls.
         ph = Linking url depth u (l # ls) \<and> dep = depth + 1 \<or> ph = Mapping url u (l # ls) \<and> dep = 1)"
      and n: "\<forall>now raw dep u mx. x \<noteq> Queue (Enqueue now raw dep u mx)"
    have "0 \<le> dep \<and> dep \<le> MaxDepth C" if lk: "x = Queue (Link now src tgt dep u)" for now src tgt dep u
    proof -
      obtain url depth k ls where "ph = Linking url depth u (k # ls) \<and> dep = depth + 1 \<or> ph = Mapping url u (k # ls) \<and> dep = 1"
        using l lk by blast
      then show ?thesis using assms(2) by auto
    qed
    then have "bounded_op (MaxDepth C) x"
      using n by (cases "(MaxDepth C, x)" rule: bounded_op.cases) simp_all
    then show ?thesis using x assms(1,3) sys_apply_ok sys_apply_depth by (auto simp: engine_ok_def)
  qed
  with c show ?thesis by (simp add: engine_ok_def)
qed

lemma crawl_invariant:
  assumes "crawl_reach C s s'" and "engine_ok C (fst s)" and "\<forall>ph \<in> set (snd s). phase_ok C ph" and "0 < MaxDepth C"
  shows "engine_ok C (fst s') \<and> (\<forall>ph \<in> set (snd s'). phase_ok C ph)"
proof (rule crawl_reach_invariant [where I = "engine_ok C" and J = "phase_ok C", OF assms(1-3)])
  fix x e assume e: "engine_ok C e" and x: "from_outside x"
  have "bounded_op (MaxDepth C) x" using x assms(4) by (cases "x" rule: from_outside.cases) auto
  then show "engine_ok C (e\<lparr>e_db := sys_apply (c_plat C) x (e_db e)\<rparr>)"
    using e assms(4) sys_apply_ok sys_apply_depth by (simp add: engine_ok_def)
next
  fix i ph e ph' e' assume "engine_ok C e" "phase_ok C ph" "worker_step C i ph e = (ph', e')"
  then show "engine_ok C e' \<and> phase_ok C ph'" using worker_step_ok assms(4) by blast
qed (simp add: engine_ok_def)

lemma NewEngine_ok:
  assumes "sys_ok d" and "depth_ok (MaxDepth C) d"
  shows "engine_ok C (fst (NewEngine d tor k)) \<and> (\<forall>ph \<in> set (snd (NewEngine d tor k)). phase_ok C ph)"
  using assms by (simp add: NewEngine_def engine_ok_def)

lemma crawl_reached_ok:
  assumes "sys_ok d" and "depth_ok (MaxDepth C) d" and "0 < MaxDepth C"
    and "crawl_reach C (NewEngine d tor workers) (e, ws)"
  shows "engine_ok C e"
proof -
  note new = NewEngine_ok [OF assms(1,2), of tor workers]
  from crawl_invariant [OF assms(4) conjunct1 [OF new] conjunct2 [OF new] assms(3)] show ?thesis by simp
qed


text \<open>
  In the same interleavings the database stays well formed, and the crawl stays within the configured depth:
  no row is ever queued deeper than that.
\<close>

theorem crawl_keeps_the_database:
  assumes "sys_ok d" and "depth_ok (MaxDepth C) d" and "0 < MaxDepth C"
    and "crawl_reach C (NewEngine d tor workers) (e, ws)"
  shows "sys_ok (e_db e) \<and> (\<forall>n \<in> set (nodes (e_db e)). n_depth n \<le> MaxDepth C)"
  using crawl_reached_ok [OF assms] by (simp add: engine_ok_def depth_ok_def)

subsection \<open>A claim is worked off\<close>

fun work_left :: "phase \<Rightarrow> nat" where
  "work_left (Claimed url depth uid) = 612"
| "work_left (Refused url uid) = 1"
| "work_left (Allowed url depth uid) = 611"
| "work_left (Waiting url depth uid slot) = 610"
| "work_left (ScrapeFailed url uid) = 3"
| "work_left (Unreachable url uid) = 2"
| "work_left CountError = 1"
| "work_left (Crawled url depth uid r) = 307 + length (FoundOnions r)"
| "work_left (Saving url depth uid r seen) = 306 + length (FoundOnions r)"
| "work_left (SaveFailed url depth uid r) = 305 + length (FoundOnions r)"
| "work_left (Saved url depth uid r) = 304 + length (FoundOnions r)"
| "work_left (Linking url depth uid ls) = 303 + length ls"
| "work_left (ReadSitemap url uid) = 302"
| "work_left (Mapping url uid ls) = 1 + length ls"
| "work_left Idle = 0" | "work_left Stopped = 0" | "work_left Crashed = 0"

fun ready :: "phase \<Rightarrow> inputs \<Rightarrow> bool" where
  "ready (Waiting url depth uid slot) i = (slot \<le> i_now i)"
| "ready _ i = True"

lemma worker_step_progress:
  assumes "work_left ph \<noteq> 0" and "ready ph i" and "worker_step C i ph e = (ph', e')"
  shows "work_left ph' < work_left ph"
proof (cases "(C, i, ph, e)" rule: worker_step.cases)
  case (5 C i url depth uid slot e)
  obtain res us where s: "ScrapePage (c_plat C) (i_wire i) (c_html C) url = (res, us)" by force
  have "length (FoundOnions r) \<le> 300" if "res = Scraped r" for r using ScrapePage_links s that by (simp add: maxFoundOnions_def)
  then show ?thesis using 5 assms s by (fastforce split: if_splits scrape.splits)
next
  case (15 C i url uid e)
  then show ?thesis using assms FetchSitemapURLs_ok [of "c_plat C" "c_xml C" "i_wire i" url]
    by (auto simp: split_beta Let_def maxSitemapURLs_def)
qed (use assms in \<open>auto simp: Let_def split_beta split: if_splits sum.splits prod.splits\<close>)

text \<open>
  One worker among others: at each of its steps it meets some inputs and some shared state. A schedule is
  on time when no step comes before the slot the worker waits for.
\<close>

fun drive :: "crawler \<Rightarrow> (inputs \<times> engine) list \<Rightarrow> phase \<Rightarrow> phase" where
  "drive C [] ph = ph"
| "drive C ((i, e) # xs) ph = drive C xs (fst (worker_step C i ph e))"

fun on_time :: "crawler \<Rightarrow> (inputs \<times> engine) list \<Rightarrow> phase \<Rightarrow> bool" where
  "on_time C [] ph = True"
| "on_time C ((i, e) # xs) ph = (ready ph i \<and> on_time C xs (fst (worker_step C i ph e)))"

lemma drive_ends:
  assumes "on_time C xs ph" and "work_left ph \<le> length xs"
  shows "\<exists>n \<le> work_left ph. work_left (drive C (take n xs) ph) = 0"
  using assms
proof (induction C xs ph rule: drive.induct)
  case (2 C i e xs ph)
  show ?case
  proof (cases "work_left ph = 0")
    case False
    let ?ph = "fst (worker_step C i ph e)"
    have lt: "work_left ?ph < work_left ph"
      using worker_step_progress [OF False _ prod.collapse [symmetric]] 2(2) by simp
    obtain n where "n \<le> work_left ?ph" "work_left (drive C (take n xs) ?ph) = 0" using 2 lt by force
    then show ?thesis using lt by (intro exI [of _ "Suc n"]) simp
  qed (auto intro: exI [of _ 0])
qed (auto intro: exI [of _ 0])


subsection \<open>A crawl on a concrete site\<close>

definition demo_page :: page where
  "demo_page = \<lparr>pg_title = ''Wiki'', pg_text = ''guide faq'', pg_metas = [], pg_hrefs = [''/a''], pg_areas = [], pg_links = [],
     pg_actions = [], pg_refresh = []\<rparr>"

definition demo_crawler :: crawler where
  "demo_crawler = \<lparr>c_plat = demo_platform, c_html = (\<lambda>_. Some demo_page),
     c_xml = \<lparr>sm_index = (\<lambda>_. None), sm_urlset = (\<lambda>_. None)\<rparr>, MaxDepth = 2, domainDelay = 0\<rparr>"

definition demo_wire :: wire where
  "demo_wire u = Some \<lparr>hr_status = (if u_path u = ''/robots.txt'' then 404 else 200),
     hr_header = (\<lambda>h. if h = ''Server'' then ''nginx'' else []), hr_body = []\<rparr>"

definition demo_inputs :: "time \<Rightarrow> wire \<Rightarrow> bool \<Rightarrow> inputs" where
  "demo_inputs t w stop = \<lparr>i_now = t, i_later = t, i_wire = w, i_rank = (\<lambda>_. 0), i_locked = (\<lambda>_. False),
     i_talk = (\<lambda>_. None), i_cookie = None, i_cancelled = stop\<rparr>"

fun solo :: "crawler \<Rightarrow> inputs list \<Rightarrow> phase \<times> engine \<Rightarrow> phase \<times> engine" where
  "solo C [] s = s"
| "solo C (i # is) s = solo C is (worker_step C i (fst s) (snd s))"

lemma crawl_step_reach:
  assumes "crawl_reach C s' s''" and "crawl_step C s s'"
  shows "crawl_reach C s s''"
  using assms by (induction rule: crawl_reach.induct) (auto intro: crawl_reach.intros)

lemma solo_reach: "crawl_reach C (snd s, [fst s]) (snd (solo C is s), [fst (solo C is s)])"
proof (induction C "is" s rule: solo.induct)
  case (2 C i "is" s)
  have "crawl_step C (snd s, [fst s]) (snd (worker_step C i (fst s) (snd s)), [fst s][0 := fst (worker_step C i (fst s) (snd s))])"
    by (rule crawl_step.work [where i = i]) simp_all
  with 2 show ?case by (auto intro: crawl_step_reach)
qed (auto intro: crawl_reach.init)

abbreviation demo_crawl :: "phase \<times> engine" where
  "demo_crawl \<equiv> solo demo_crawler (replicate 4 (demo_inputs 5 demo_wire False)) (Idle, fst (NewEngine demo_queue None 1))"

lemma demo_crawl_reach:
  "crawl_reach demo_crawler (NewEngine demo_queue None 1) (snd demo_crawl, [fst demo_crawl])"
proof -
  have n: "(fst (NewEngine demo_queue None 1), [Idle]) = NewEngine demo_queue None 1" by (simp add: NewEngine_def)
  show ?thesis
    using solo_reach [of demo_crawler "(Idle, fst (NewEngine demo_queue None 1))" "replicate 4 (demo_inputs 5 demo_wire False)"]
    unfolding fst_conv snd_conv n .
qed

lemma demo_crawl_result:
  "(map u_path (e_contacts (snd demo_crawl)), map (\<lambda>n. (n_depth n, n_status n)) (nodes (e_db (snd demo_crawl)))) =
   ([''/robots.txt'', ''/''], [(0, Crawling)])"
  by code_simp

lemma demo_queue_ok: "sys_ok demo_queue" "depth_ok (MaxDepth demo_crawler) demo_queue" "0 < MaxDepth demo_crawler"
  by code_simp+



theorem crawl_keeps_the_database_witness:
  "map (\<lambda>n. (n_depth n, n_status n)) (nodes (e_db (snd demo_crawl))) = [(0, Crawling)] \<and>
   sys_ok (e_db (snd demo_crawl))"
  using demo_crawl_result crawl_keeps_the_database [OF demo_queue_ok demo_crawl_reach] by blast

lemma on_time_append: "on_time C (xs @ ys) ph \<longleftrightarrow> on_time C xs ph \<and> on_time C ys (drive C xs ph)"
  by (induction C xs ph rule: on_time.induct) auto

lemma on_time_Stopped: "on_time C (replicate n x) Stopped"
  by (induction n) (cases x; simp)+


subsection \<open>Two ways in which a site gets the better of the crawler\<close>

text \<open>
  U+023A has two bytes and its lower case U+2C65 three. The position of \<open>url=\<close> in the lower-cased content of a
  refresh then lies beyond the end of the content, and the slice panics; nothing recovers in a worker, so the
  process ends.
\<close>

fun lower_023A :: "string \<Rightarrow> string" where
  "lower_023A (a # b # s) =
     (if byte a = 200 \<and> byte b = 186 then map chr [226, 177, 165] @ lower_023A s else lower_char a # lower_023A (b # s))"
| "lower_023A s = map lower_char s"

definition hostile_crawler :: crawler where
  "hostile_crawler = demo_crawler\<lparr>c_plat := demo_platform\<lparr>uni_lower := lower_023A\<rparr>,
     c_html := (\<lambda>_. Some (demo_page\<lparr>pg_refresh := [concat (replicate 5 [chr 200, chr 186]) @ ''url='']\<rparr>))\<rparr>"

theorem refresh_crashes_the_worker:
  "fst (worker_step hostile_crawler (demo_inputs 5 demo_wire False) (Waiting demo_url 0 1 5) (fst (NewEngine demo_queue None 1))) = Crashed"
  by code_simp

text \<open>
  Cutting a valid header of a hundred bytes and more leaves the first byte of a two-byte character at its end,
  which the database does not accept: the page cannot be saved.
\<close>

theorem truncated_header_is_unstorable:
  "let header = replicate 99 (CHR ''a'') @ map chr [195, 169];
       r = \<lparr>cr_title = [], cr_server = truncateUTF8 header 100, cr_code = 200, cr_status = Completed, cr_meta = ''{}'',
            cr_content = [], cr_category = ''unknown''\<rparr> in
   valid_utf8 header \<and> fst (SaveNode demo_platform 5 demo_url r 1 demo_queue) = (True, Some ErrSQL)"
  by code_simp

end
