(* ===== verification/Go_Net.thy ===== *)
theory Go_Net
  imports Go_Url
begin

section \<open>IP addresses: what the API uses of Go's net package\<close>

text \<open>
  \<open>net.ParseIP\<close>, \<open>IP.String\<close>, \<open>IsLoopback\<close>, \<open>IsPrivate\<close> and \<open>JoinHostPort\<close>. An address is
  the list of its sixteen bytes, an IPv4 address mapped the way \<open>ParseIP\<close> returns it.
\<close>

type_synonym ip = "nat list"

definition v4_prefix :: "nat list" where "v4_prefix = replicate 10 0 @ [255, 255]"

text \<open>One decimal field of a dotted address: no sign, no leading zero, at most 255.\<close>

definition ip4_field :: "string \<Rightarrow> nat option" where
  "ip4_field s =
     (if s = [] \<or> \<not> list_all is_digit s \<or> (length s > 1 \<and> hd s = CHR ''0'') \<or> digits_val s > 255
      then None else Some (digits_val s))"

fun all_some :: "'a option list \<Rightarrow> 'a list option" where
  "all_some [] = Some []"
| "all_some (None # xs) = None"
| "all_some (Some x # xs) = map_option (Cons x) (all_some xs)"

definition parseIPv4 :: "string \<Rightarrow> nat list option" where
  "parseIPv4 s = (let fs = Split CHR ''.'' s in if length fs = 4 then all_some (map ip4_field fs) else None)"

text \<open>A group of one to four hexadecimal digits, as its two bytes.\<close>

definition ip6_group :: "string \<Rightarrow> nat list option" where
  "ip6_group s =
     (if s = [] \<or> length s > 4 \<or> \<not> list_all ishex s then None
      else let v = of_digits 16 (map unhex s) in Some [v div 256, v mod 256])"

text \<open>
  The groups of one side of the ellipsis; the last group of the address may be a dotted IPv4 address.
\<close>

definition ip6_side :: "bool \<Rightarrow> string \<Rightarrow> nat list option" where
  "ip6_side closing s =
     (if s = [] then Some []
      else let gs = Split CHR '':'' s in
        map_option concat (all_some (map ip6_group (butlast gs) @
          [if closing \<and> CHR ''.'' \<in> set (last gs) then parseIPv4 (last gs) else ip6_group (last gs)])))"

text \<open>\<open>strings.Cut\<close> around the first \<open>::\<close>.\<close>

fun cut_ellipsis :: "string \<Rightarrow> (string \<times> string) option" where
  "cut_ellipsis (a # b # s) =
     (if a = CHR '':'' \<and> b = CHR '':'' then Some ([], s)
      else map_option (\<lambda>(l, r). (a # l, r)) (cut_ellipsis (b # s)))"
| "cut_ellipsis _ = None"

definition parseIPv6 :: "string \<Rightarrow> ip option" where
  "parseIPv6 s =
     (case cut_ellipsis s of
        None \<Rightarrow> (case ip6_side True s of Some bs \<Rightarrow> if length bs = 16 then Some bs else None | None \<Rightarrow> None)
      | Some (l, r) \<Rightarrow>
          (case (ip6_side False l, ip6_side True r) of
             (Some a, Some b) \<Rightarrow>
               if length a + length b \<le> 14 then Some (a @ replicate (16 - length a - length b) 0 @ b) else None
           | _ \<Rightarrow> None))"

text \<open>A zone makes \<open>ParseIP\<close> fail. The first \<open>.\<close> or \<open>:\<close> decides the family.\<close>

definition ParseIP :: "string \<Rightarrow> ip option" where
  "ParseIP s =
     (if CHR ''%'' \<in> set s then None
      else case filter (\<lambda>c. c = CHR ''.'' \<or> c = CHR '':'') s of
        [] \<Rightarrow> None
      | c # _ \<Rightarrow> if c = CHR ''.'' then map_option ((@) v4_prefix) (parseIPv4 s) else parseIPv6 s)"

definition ip_v4 :: "ip \<Rightarrow> nat list option" where
  "ip_v4 a = (if take 12 a = v4_prefix then Some (drop 12 a) else None)"

fun ip_groups :: "nat list \<Rightarrow> nat list" where
  "ip_groups (a # b # bs) = (256 * a + b) # ip_groups bs"
| "ip_groups _ = []"

text \<open>Hexadecimal without leading zeros.\<close>

definition hex_group :: "nat \<Rightarrow> string" where
  "hex_group n =
     (let ds = dropWhile (\<lambda>d. d = 0) (to_digits 16 4 n) in
      if ds = [] then ''0'' else map hex_digit ds)"

text \<open>The longest run of at least two zero groups, the leftmost of the longest.\<close>

definition zero_run :: "nat list \<Rightarrow> nat \<Rightarrow> nat" where
  "zero_run gs i = length (takeWhile (\<lambda>g. g = 0) (drop i gs))"

definition longest_run :: "nat list \<Rightarrow> (nat \<times> nat) option" where
  "longest_run gs =
     (let best = fold (\<lambda>i b. if zero_run gs i > snd b then (i, zero_run gs i) else b) [0..<length gs] (0, 1) in
      if snd best \<ge> 2 then Some best else None)"

definition IP_String :: "ip \<Rightarrow> string" where
  "IP_String a =
     (case ip_v4 a of
        Some bs \<Rightarrow> Join (map nat_str bs) ''.''
      | None \<Rightarrow>
          let gs = ip_groups a in
          (case longest_run gs of
             None \<Rightarrow> Join (map hex_group gs) '':''
           | Some (i, n) \<Rightarrow>
               Join (map hex_group (take i gs)) '':'' @ ''::'' @ Join (map hex_group (drop (i + n) gs)) '':''))"

definition IsLoopback :: "ip \<Rightarrow> bool" where
  "IsLoopback a = (case ip_v4 a of Some bs \<Rightarrow> hd bs = 127 | None \<Rightarrow> a = replicate 15 0 @ [1])"

definition IsPrivate :: "ip \<Rightarrow> bool" where
  "IsPrivate a =
     (case ip_v4 a of
        Some (x # y # _) \<Rightarrow> x = 10 \<or> (x = 172 \<and> y div 16 = 1) \<or> (x = 192 \<and> y = 168)
      | Some _ \<Rightarrow> False
      | None \<Rightarrow> hd a div 2 = 126)"

definition JoinHostPort :: "string \<Rightarrow> string \<Rightarrow> string" where
  "JoinHostPort host port =
     (if CHR '':'' \<in> set host then ''['' @ host @ '']:'' @ port else host @ '':'' @ port)"

subsection \<open>The client address survives its own printing\<close>

lemma IP_String_examples:
  "map_option IP_String (ParseIP ''192.168.1.10'') = Some ''192.168.1.10''"
  "map_option IP_String (ParseIP ''2001:DB8:0:0:1:0:0:1'') = Some ''2001:db8::1:0:0:1''"
  "map_option IP_String (ParseIP ''::ffff:10.0.0.1'') = Some ''10.0.0.1''"
  "map_option IP_String (ParseIP ''::'') = Some ''::''" "ParseIP ''010.0.0.1'' = None"
  "ParseIP ''1::2::3'' = None" "ParseIP ''fe80::1%eth0'' = None"
  "map_option IsPrivate (ParseIP ''172.31.0.1'') = Some True"
  "map_option IsPrivate (ParseIP ''fd00::1'') = Some True"
  by code_simp+

end
