(* ===== verification/Password.thy ===== *)
theory Password
  imports Accounts
begin

section \<open>Passwords and session tokens: internal/auth/auth.go\<close>

text \<open>
  Password hashes in the PHC string format: the printer, the parser with the scanner of
  \<open>fmt.Sscanf\<close> and the decoder of \<open>base64.RawStdEncoding\<close>, the check and the decision to
  rehash. Session tokens: the claims, their validation and the two calls of the JWT package, which is
  an argument. Random bytes are arguments, the secret of the environment is the argument \<open>secret\<close>.
\<close>

subsection \<open>base64.RawStdEncoding\<close>

definition b64_char :: "nat \<Rightarrow> char" where
  "b64_char v = (if v < 26 then chr (65 + v) else if v < 52 then chr (71 + v)
     else if v < 62 then chr (v - 4) else if v = 62 then chr 43 else chr 47)"

definition b64_val :: "char \<Rightarrow> nat option" where
  "b64_val c = (if is_upper c then Some (byte c - 65) else if is_lower c then Some (byte c - 71)
     else if is_digit c then Some (byte c + 4) else if byte c = 43 then Some 62
     else if byte c = 47 then Some 63 else None)"

fun b64_encode :: "bytes \<Rightarrow> string" where
  "b64_encode (a # b # c # s) = map b64_char (to_digits 64 4 (of_digits 256 (map byte [a, b, c]))) @ b64_encode s"
| "b64_encode [a, b] = map b64_char (to_digits 64 3 (of_digits 256 (map byte [a, b]) * 4))"
| "b64_encode [a] = map b64_char (to_digits 64 2 (byte a * 16))"
| "b64_encode [] = []"

fun b64_vals :: "string \<Rightarrow> nat list option" where
  "b64_vals [] = Some []"
| "b64_vals (c # s) = (case b64_val c of None \<Rightarrow> None | Some v \<Rightarrow> map_option (Cons v) (b64_vals s))"

text \<open>The last quantum may have two or three characters, whose spare bits are ignored; one is an error.\<close>

fun b64_pack :: "nat list \<Rightarrow> bytes option" where
  "b64_pack (a # b # c # d # vs) =
     map_option ((@) (map chr (to_digits 256 3 (of_digits 64 [a, b, c, d])))) (b64_pack vs)"
| "b64_pack [a, b, c] = Some (map chr (to_digits 256 2 (of_digits 64 [a, b, c] div 4)))"
| "b64_pack [a, b] = Some (map chr (to_digits 256 1 (of_digits 64 [a, b] div 16)))"
| "b64_pack [a] = None"
| "b64_pack [] = Some []"

definition b64_decode :: "string \<Rightarrow> bytes option" where
  "b64_decode s = Option.bind (b64_vals (filter (\<lambda>c. byte c \<noteq> 10 \<and> byte c \<noteq> 13) s)) b64_pack"

subsection \<open>fmt.Sscanf\<close>

text \<open>\<open>SkipSpace\<close> of a scan that does not accept newlines; a newline is an error.\<close>

function skip_space :: "string \<Rightarrow> string option" where
  "skip_space s =
     (case s of
        [] \<Rightarrow> Some []
      | c # t \<Rightarrow>
          if byte c = 13 \<and> t \<noteq> [] \<and> byte (hd t) = 10 then None
          else if byte c = 10 then None
          else if leading_space s = 0 then Some s
          else skip_space (drop (leading_space s) s))"
  by pat_completeness auto

termination
proof (relation "measure length")
  fix s :: string and c t
  assume "s = c # t" "leading_space s \<noteq> 0"
  then show "(drop (leading_space s) s, s) \<in> measure length" by simp
qed simp

declare skip_space.simps [simp del]

definition scan_literal :: "string \<Rightarrow> string \<Rightarrow> string option" where
  "scan_literal lit s = (if prefix lit s then Some (drop (length lit) s) else None)"

definition scan_digits :: "string \<Rightarrow> (nat \<times> string) option" where
  "scan_digits s = (let ds = takeWhile is_digit s in
     if ds = [] then None else Some (digits_val ds, dropWhile is_digit s))"

text \<open>\<open>%d\<close> into an unsigned integer of the given width.\<close>

definition scan_uint :: "nat \<Rightarrow> string \<Rightarrow> (nat \<times> string) option" where
  "scan_uint bits s =
     (case skip_space s of None \<Rightarrow> None
      | Some t \<Rightarrow> (case scan_digits t of None \<Rightarrow> None
          | Some (n, rest) \<Rightarrow> if n < 2 ^ bits then Some (n, rest) else None))"

text \<open>\<open>%d\<close> into an \<open>int\<close>, which takes a sign.\<close>

definition scan_int :: "string \<Rightarrow> (int \<times> string) option" where
  "scan_int s =
     (case skip_space s of None \<Rightarrow> None
      | Some t \<Rightarrow>
          let neg = prefix ''-'' t; u = (if prefix ''-'' t \<or> prefix ''+'' t then tl t else t) in
          (case scan_digits u of None \<Rightarrow> None
           | Some (n, rest) \<Rightarrow>
               let i = (if neg then - int n else int n) in
               if - (2 ^ 63) \<le> i \<and> i < 2 ^ 63 then Some (i, rest) else None))"

subsection \<open>Argon2id hashes\<close>

definition argonTime :: nat where "argonTime = 3"
definition argonMemory :: nat where "argonMemory = 64 * 1024"
definition argonThreads :: nat where "argonThreads = 4"
definition argonKeyLen :: nat where "argonKeyLen = 32"
definition argonSaltLen :: nat where "argonSaltLen = 16"
definition argon2_Version :: nat where "argon2_Version = 19"
definition MaxPasswordLen :: nat where "MaxPasswordLen = 1024"

record argonParams =
  ar_memory :: nat
  ar_time :: nat
  ar_threads :: nat

definition phc_prefix :: string where "phc_prefix = ''$argon2id$''"

text \<open>The hash of a password under a random salt; None is \<open>ErrPasswordTooLong\<close>.\<close>

definition HashPassword :: "platform \<Rightarrow> bytes \<Rightarrow> bytes \<Rightarrow> string option" where
  "HashPassword P salt password =
     (if length password > MaxPasswordLen then None
      else let key = argon2_key P password salt argonTime argonMemory argonThreads argonKeyLen in
        Some (''$argon2id$v='' @ nat_str argon2_Version @ ''$m='' @ nat_str argonMemory @ '',t='' @ nat_str argonTime @
          '',p='' @ nat_str argonThreads @ ''$'' @ b64_encode salt @ ''$'' @ b64_encode key))"

definition scan_params :: "string \<Rightarrow> argonParams option" where
  "scan_params s =
     Option.bind (scan_literal ''m='' s) (\<lambda>s1. Option.bind (scan_uint 32 s1) (\<lambda>(m, s2).
     Option.bind (scan_literal '',t='' s2) (\<lambda>s3. Option.bind (scan_uint 32 s3) (\<lambda>(t, s4).
     Option.bind (scan_literal '',p='' s4) (\<lambda>s5. Option.bind (scan_uint 8 s5) (\<lambda>(p, _).
       Some \<lparr>ar_memory = m, ar_time = t, ar_threads = p\<rparr>))))))"

definition parseArgon2id :: "string \<Rightarrow> (argonParams \<times> bytes \<times> bytes) option" where
  "parseArgon2id hash =
     (let parts = Split CHR ''$'' hash in
      if length parts \<noteq> 6 \<or> parts ! 1 \<noteq> ''argon2id'' then None
      else case Option.bind (scan_literal ''v='' (parts ! 2)) scan_int of
        None \<Rightarrow> None
      | Some (version, _) \<Rightarrow>
          if version \<noteq> int argon2_Version then None
          else case scan_params (parts ! 3) of
            None \<Rightarrow> None
          | Some p \<Rightarrow>
              if ar_memory p = 0 \<or> ar_time p = 0 \<or> ar_threads p = 0 then None
              else if ar_memory p > 1024 * 1024 \<or> ar_time p > 16 then None
              else (case b64_decode (parts ! 4) of
                  None \<Rightarrow> None
                | Some salt \<Rightarrow>
                    if salt = [] then None
                    else (case b64_decode (parts ! 5) of
                        None \<Rightarrow> None
                      | Some key \<Rightarrow> if key = [] then None else Some (p, salt, key))))"

definition checkArgon2id :: "platform \<Rightarrow> bytes \<Rightarrow> string \<Rightarrow> bool" where
  "checkArgon2id P password hash =
     (case parseArgon2id hash of
        None \<Rightarrow> False
      | Some (p, salt, want) \<Rightarrow>
          argon2_key P password salt (ar_time p) (ar_memory p) (ar_threads p) (length want) = want)"

definition CheckPasswordHash :: "platform \<Rightarrow> bytes \<Rightarrow> string \<Rightarrow> bool" where
  "CheckPasswordHash P password hash =
     (if length password > MaxPasswordLen then False
      else if prefix phc_prefix hash then checkArgon2id P password hash
      else if length password > 72 then False
      else bcrypt_ok P hash password)"

definition NeedsRehash :: "string \<Rightarrow> bool" where
  "NeedsRehash hash =
     (if \<not> prefix phc_prefix hash then True
      else case parseArgon2id hash of
        None \<Rightarrow> True
      | Some (p, _, _) \<Rightarrow>
          ar_memory p < argonMemory \<or> ar_time p < argonTime \<or> ar_threads p < argonThreads)"

subsection \<open>Random handles and audit references\<close>

definition NewSessionID :: "bytes \<Rightarrow> string" where "NewSessionID b = hex_encode b"

definition GenerateVerificationToken :: "bytes \<Rightarrow> string" where "GenerateVerificationToken b = hex_encode b"

definition audit_message :: "string \<Rightarrow> string \<Rightarrow> bytes" where
  "audit_message kind v = ''onion-spider/auth-audit/v1'' @ [chr 0] @ kind @ [chr 0] @ v"

definition AuditReference :: "platform \<Rightarrow> bytes \<Rightarrow> string \<Rightarrow> string \<Rightarrow> string" where
  "AuditReference P secret kind v = ''hmac-sha256:v1:'' @ hex_encode (hmac_sha256 P secret (audit_message kind v))"

subsection \<open>Session tokens\<close>

definition MinSecretLen :: nat where "MinSecretLen = 32"
definition TokenTTL :: duration where "TokenTTL = 4 * Hour"
definition tokenIssuer :: string where "tokenIssuer = ''onion-spider''"
definition tokenAudience :: string where "tokenAudience = ''onion-spider-api''"

text \<open>\<open>getJWTSecret\<close>: None is the exit of the process.\<close>

definition getJWTSecret :: "string \<Rightarrow> bytes option" where
  "getJWTSecret env = (if length env < MinSecretLen then None else Some env)"

record Claims =
  UserID :: int
  cl_version :: int
  cl_session :: string
  Issuer :: string
  Audience :: "string list"
  ExpiresAt :: "time option"
  IssuedAt :: "time option"
  NotBefore :: "time option"

definition Claims_Validate :: "Claims \<Rightarrow> bool" where
  "Claims_Validate c =
     (if UserID c \<le> 0 then False
      else if cl_version c < 0 then False
      else case (IssuedAt c, NotBefore c) of
        (Some issued, Some _) \<Rightarrow>
          (case ExpiresAt c of None \<Rightarrow> True | Some e \<Rightarrow> \<not> e - issued > TokenTTL)
      | _ \<Rightarrow> False)"

text \<open>
  The JWT package: \<open>jwt_sign secret c\<close> is the HS256 token of the claims, \<open>jwt_parse secret now s\<close> is
  \<open>ParseWithClaims\<close> with the options of \<open>ValidateToken\<close> before the claims' own \<open>Validate\<close>.
\<close>

record jwt_lib =
  jwt_sign :: "bytes \<Rightarrow> Claims \<Rightarrow> string"
  jwt_parse :: "bytes \<Rightarrow> time \<Rightarrow> string \<Rightarrow> Claims option"

text \<open>\<open>jwt.NewNumericDate\<close> keeps whole seconds.\<close>

definition NumericDate :: "time \<Rightarrow> time" where
  "NumericDate t = t div Second * Second"

definition session_claims :: "time \<Rightarrow> int \<Rightarrow> int \<Rightarrow> string \<Rightarrow> Claims" where
  "session_claims now userID tokenVersion sessionID =
     \<lparr>UserID = userID, cl_version = tokenVersion, cl_session = sessionID, Issuer = tokenIssuer,
      Audience = [tokenAudience], ExpiresAt = Some (NumericDate (now + TokenTTL)),
      IssuedAt = Some (NumericDate now), NotBefore = Some (NumericDate now)\<rparr>"

definition GenerateToken :: "jwt_lib \<Rightarrow> bytes \<Rightarrow> time \<Rightarrow> int \<Rightarrow> int \<Rightarrow> string \<Rightarrow> string" where
  "GenerateToken J secret now userID tokenVersion sessionID =
     jwt_sign J secret (session_claims now userID tokenVersion sessionID)"

definition ValidateToken :: "jwt_lib \<Rightarrow> bytes \<Rightarrow> time \<Rightarrow> string \<Rightarrow> Claims option" where
  "ValidateToken J secret now tokenString =
     (case jwt_parse J secret now tokenString of
        None \<Rightarrow> None
      | Some c \<Rightarrow> if Claims_Validate c then Some c else None)"


subsection \<open>base64 round trip\<close>

lemma b64_val_char [simp]: "v < 64 \<Longrightarrow> b64_val (b64_char v) = Some v"
  by (auto simp: b64_val_def b64_char_def is_upper_def is_lower_def is_digit_def)

lemma b64_char_plain: "v < 64 \<Longrightarrow> byte (b64_char v) \<noteq> 10 \<and> byte (b64_char v) \<noteq> 13 \<and> b64_char v \<noteq> CHR ''$''"
proof -
  have "byte CHR ''$'' = 36" by code_simp
  then show "v < 64 \<Longrightarrow> byte (b64_char v) \<noteq> 10 \<and> byte (b64_char v) \<noteq> 13 \<and> b64_char v \<noteq> CHR ''$''"
    by (auto simp: b64_char_def simp flip: byte_inject)
qed

lemma b64_vals_map: "(\<And>v. v \<in> set vs \<Longrightarrow> v < 64) \<Longrightarrow> b64_vals (map b64_char vs) = Some vs"
  by (induction vs) auto

lemma of_digits_256:
  "of_digits 256 (map byte [a, b, c]) < 64 ^ 4" "of_digits 256 (map byte [a, b]) < 65536"
proof -
  have "\<And>d. d \<in> set (map byte [a, b, c]) \<Longrightarrow> d < 256" "\<And>d. d \<in> set (map byte [a, b]) \<Longrightarrow> d < 256"
    using byte_less by auto
  from of_digits_less [of "map byte [a, b, c]", OF this(1)] of_digits_less [of "map byte [a, b]", OF this(2)]
  show "of_digits 256 (map byte [a, b, c]) < 64 ^ 4" "of_digits 256 (map byte [a, b]) < 65536" by simp_all
qed

lemma to_digits_small:
  "to_digits B 4 n = [n div B div B div B mod B, n div B div B mod B, n div B mod B, n mod B]"
  "to_digits B 3 n = [n div B div B mod B, n div B mod B, n mod B]"
  "to_digits B 2 n = [n div B mod B, n mod B]"
  by (simp_all add: numeral_eq_Suc)

lemma to_of_bytes: "length s = k \<Longrightarrow> map chr (to_digits 256 k (of_digits 256 (map byte s))) = s"
proof -
  assume "length s = k"
  then have "to_digits 256 k (of_digits 256 (map byte s)) = map byte s"
    by (intro to_of_digits) (use byte_less in auto)
  then show ?thesis by (simp add: comp_def)
qed

lemma b64_encode_vals:
  "\<exists>vs. b64_encode s = map b64_char vs \<and> (\<forall>v \<in> set vs. v < 64) \<and> b64_pack vs = Some s"
proof (induction s rule: b64_encode.induct)
  case (1 a b c s)
  then obtain vs where vs: "b64_encode s = map b64_char vs" "\<forall>v \<in> set vs. v < 64" "b64_pack vs = Some s" by blast
  let ?n = "of_digits 256 (map byte [a, b, c])"
  let ?ds = "to_digits 64 4 ?n"
  obtain w x y z where ds: "?ds = [w, x, y, z]"
    using to_digits_small(1) by blast
  have lt: "\<forall>v \<in> set ?ds. v < 64" using to_digits_less [of 64] by auto
  have "of_digits 64 ?ds = ?n" using of_to_digits of_digits_256(1) by blast
  then have "map chr (to_digits 256 3 (of_digits 64 [w, x, y, z])) = [a, b, c]"
    using to_of_bytes [of "[a, b, c]" 3] unfolding ds [symmetric] by simp
  then show ?case using vs lt ds by (intro exI [of _ "?ds @ vs"]) auto
next
  case (2 a b)
  let ?n = "of_digits 256 (map byte [a, b])"
  let ?ds = "to_digits 64 3 (?n * 4)"
  obtain x y z where ds: "?ds = [x, y, z]"
    using to_digits_small(2) by blast
  have lt: "\<forall>v \<in> set ?ds. v < 64" using to_digits_less [of 64] by auto
  have "of_digits 64 ?ds = ?n * 4" using of_to_digits [of "?n * 4" 64 3] of_digits_256(2) [of a b] by simp
  then have "map chr (to_digits 256 2 (of_digits 64 [x, y, z] div 4)) = [a, b]"
    using to_of_bytes [of "[a, b]" 2] unfolding ds [symmetric] by simp
  then show ?case using lt ds by (intro exI [of _ ?ds]) auto
next
  case (3 a)
  let ?ds = "to_digits 64 2 (byte a * 16)"
  obtain y z where ds: "?ds = [y, z]" using to_digits_small(3) by blast
  have lt: "\<forall>v \<in> set ?ds. v < 64" using to_digits_less [of 64] by auto
  have "of_digits 64 ?ds = byte a * 16" using of_to_digits [of "byte a * 16" 64 2] byte_less [of a] by simp
  then have "map chr (to_digits 256 1 (of_digits 64 [y, z] div 16)) = [a]"
    unfolding ds [symmetric] by simp
  then show ?case using lt ds by (intro exI [of _ ?ds]) auto
next
  case 4
  show ?case by (intro exI [of _ "[]"]) simp
qed

lemma b64_decode_encode: "b64_decode (b64_encode s) = Some s"
proof -
  obtain vs where vs: "b64_encode s = map b64_char vs" "\<forall>v \<in> set vs. v < 64" "b64_pack vs = Some s"
    using b64_encode_vals by blast
  have "filter (\<lambda>c. byte c \<noteq> 10 \<and> byte c \<noteq> 13) (b64_encode s) = b64_encode s"
    unfolding vs(1) using vs(2) b64_char_plain by (auto simp: filter_id_conv)
  then show ?thesis using vs b64_vals_map [of vs] by (simp add: b64_decode_def)
qed

lemma b64_encode_plain: "CHR ''$'' \<notin> set (b64_encode s)"
  using b64_encode_vals [of s] b64_char_plain by fastforce

subsection \<open>Scanning printed numbers\<close>

lemma takeWhile_digits:
  assumes "rest = [] \<or> \<not> is_digit (hd rest)"
  shows "takeWhile is_digit (nat_str n @ rest) = nat_str n" "dropWhile is_digit (nat_str n @ rest) = rest"
proof -
  have d: "\<forall>c \<in> set (nat_str n). is_digit c" using nat_str_digits by (auto simp: list_all_iff)
  show "takeWhile is_digit (nat_str n @ rest) = nat_str n" "dropWhile is_digit (nat_str n @ rest) = rest"
    using assms d by (cases rest; simp add: takeWhile_append dropWhile_append)+
qed

lemma scan_digits_nat_str: "rest = [] \<or> \<not> is_digit (hd rest) \<Longrightarrow> scan_digits (nat_str n @ rest) = Some (n, rest)"
  using takeWhile_digits [of rest n] nat_str_digits [of n] by (simp add: scan_digits_def digits_val_nat_str)

lemma skip_space_nat_str: "skip_space (nat_str n @ rest) = Some (nat_str n @ rest)"
proof -
  obtain c t where s: "nat_str n = c # t" "is_digit c" using nat_str_digits [of n] by (cases "nat_str n") auto
  have "leading_space ((c # t) @ rest) = 0"
    using s(2) leading_space_ascii_0 [of c "t @ rest"] by (auto simp: is_digit_def is_ascii_def)
  with s show ?thesis by (subst skip_space.simps) (auto simp: is_digit_def)
qed

lemma scan_uint_nat_str:
  "n < 2 ^ bits \<Longrightarrow> rest = [] \<or> \<not> is_digit (hd rest) \<Longrightarrow> scan_uint bits (nat_str n @ rest) = Some (n, rest)"
  by (simp add: scan_uint_def skip_space_nat_str scan_digits_nat_str)

lemma scan_int_nat_str:
  assumes "int n < 2 ^ 63" and "rest = [] \<or> \<not> is_digit (hd rest)"
  shows "scan_int (nat_str n @ rest) = Some (int n, rest)"
proof -
  obtain c t where s: "nat_str n = c # t" "is_digit c" using nat_str_digits [of n] by (cases "nat_str n") auto
  have "\<not> is_digit CHR ''-''" "\<not> is_digit CHR ''+''" by code_simp+
  then have "c \<noteq> CHR ''-''" "c \<noteq> CHR ''+''" using s(2) by auto
  then have "\<not> prefix ''-'' (nat_str n @ rest)" "\<not> prefix ''+'' (nat_str n @ rest)" using s by auto
  with assms show ?thesis by (simp add: scan_int_def skip_space_nat_str scan_digits_nat_str Let_def)
qed

subsection \<open>Printing and parsing a hash\<close>

lemma argon_numbers: "nat_str argon2_Version = ''19''" "nat_str argonMemory = ''65536''" "nat_str argonTime = ''3''"
  "nat_str argonThreads = ''4''"
  by code_simp+

lemma digit_free: "\<not> is_digit CHR '',''" "\<not> is_digit CHR ''$''"
  by code_simp+

lemma scan_params_printed:
  assumes "m < 2 ^ 32" and "t < 2 ^ 32" and "p < 2 ^ 8"
  shows "scan_params (''m='' @ nat_str m @ '',t='' @ nat_str t @ '',p='' @ nat_str p) =
    Some \<lparr>ar_memory = m, ar_time = t, ar_threads = p\<rparr>"
proof -
  have lit: "scan_literal l (l @ s) = Some s" for l s by (simp add: scan_literal_def)
  have m: "scan_uint 32 (nat_str m @ '',t='' @ s) = Some (m, '',t='' @ s)" for s
    by (rule scan_uint_nat_str) (use assms digit_free in auto)
  have t: "scan_uint 32 (nat_str t @ '',p='' @ s) = Some (t, '',p='' @ s)" for s
    by (rule scan_uint_nat_str) (use assms digit_free in auto)
  have p: "scan_uint 8 (nat_str p) = Some (p, [])" using scan_uint_nat_str [of p 8 "[]"] assms by simp
  show ?thesis unfolding scan_params_def lit m t p bind.simps prod.case ..
qed

lemma Split_phc:
  assumes "CHR ''$'' \<notin> set v" "CHR ''$'' \<notin> set ps" "CHR ''$'' \<notin> set s" "CHR ''$'' \<notin> set k"
  shows "Split CHR ''$'' (''$argon2id$'' @ v @ ''$'' @ ps @ ''$'' @ s @ ''$'' @ k) = [[], ''argon2id'', v, ps, s, k]"
proof -
  have cut: "Split CHR ''$'' (x @ ''$'' @ y) = x # Split CHR ''$'' y" if "CHR ''$'' \<notin> set x" for x y
    using Split_append [OF that] by simp
  have "Split CHR ''$'' (''$argon2id$'' @ r) = [] # ''argon2id'' # Split CHR ''$'' r" for r
    using cut [of "[]" "''argon2id'' @ ''$'' @ r"] cut [of "''argon2id''" r] by simp
  with cut [OF assms(1)] cut [OF assms(2)] cut [OF assms(3)] Split_notin [OF assms(4)] show ?thesis by simp
qed

lemma parse_printed:
  assumes "salt \<noteq> []" and "key \<noteq> []"
  shows "parseArgon2id (''$argon2id$v='' @ nat_str argon2_Version @ ''$m='' @ nat_str argonMemory @ '',t='' @
      nat_str argonTime @ '',p='' @ nat_str argonThreads @ ''$'' @ b64_encode salt @ ''$'' @ b64_encode key) =
    Some (\<lparr>ar_memory = argonMemory, ar_time = argonTime, ar_threads = argonThreads\<rparr>, salt, key)"
proof -
  let ?v = "''v='' @ nat_str argon2_Version"
  let ?p = "''m='' @ nat_str argonMemory @ '',t='' @ nat_str argonTime @ '',p='' @ nat_str argonThreads"
  have nd: "CHR ''$'' \<notin> set ?v" "CHR ''$'' \<notin> set ?p" by (simp_all add: argon_numbers)
  have "scan_int (nat_str argon2_Version @ []) = Some (int argon2_Version, [])"
    by (rule scan_int_nat_str) (simp_all add: argon2_Version_def)
  then have v: "Option.bind (scan_literal ''v='' ?v) scan_int = Some (int argon2_Version, [])"
    by (simp add: scan_literal_def)
  have p: "scan_params ?p = Some \<lparr>ar_memory = argonMemory, ar_time = argonTime, ar_threads = argonThreads\<rparr>"
    by (rule scan_params_printed) (simp_all add: argonMemory_def argonTime_def argonThreads_def)
  have "Split CHR ''$'' (''$argon2id$'' @ ?v @ ''$'' @ ?p @ ''$'' @ b64_encode salt @ ''$'' @ b64_encode key) =
      [[], ''argon2id'', ?v, ?p, b64_encode salt, b64_encode key]"
    by (rule Split_phc [OF nd b64_encode_plain b64_encode_plain])
  with v p assms show ?thesis
    by (simp add: parseArgon2id_def Let_def b64_decode_encode argonMemory_def argonTime_def argonThreads_def)
qed

text \<open>
  C26. A stored password hash verifies exactly the passwords with the same Argon2id key: the hash made
  for a password is parsed back to the parameters, salt and key it was made from, so checking any
  password against it compares the two keys; the password itself is accepted, and the hash needs no
  upgrade. Relies on Argon2id returning as many bytes as asked for.
\<close>

theorem password_round_trip:
  assumes "length salt = argonSaltLen" and "\<And>pw s. length (argon2_key P pw s argonTime argonMemory argonThreads argonKeyLen) = argonKeyLen"
    and "HashPassword P salt password = Some h" and "length other \<le> MaxPasswordLen"
  shows "CheckPasswordHash P password h \<and> \<not> NeedsRehash h \<and>
    (CheckPasswordHash P other h \<longleftrightarrow>
      argon2_key P other salt argonTime argonMemory argonThreads argonKeyLen =
      argon2_key P password salt argonTime argonMemory argonThreads argonKeyLen)"
proof -
  let ?key = "argon2_key P password salt argonTime argonMemory argonThreads argonKeyLen"
  have len: "length password \<le> MaxPasswordLen" and h: "h = ''$argon2id$v='' @ nat_str argon2_Version @ ''$m='' @
      nat_str argonMemory @ '',t='' @ nat_str argonTime @ '',p='' @ nat_str argonThreads @ ''$'' @ b64_encode salt @ ''$'' @ b64_encode ?key"
    using assms(3) by (auto simp: HashPassword_def Let_def split: if_splits)
  have "salt \<noteq> []" "?key \<noteq> []" using assms(1) assms(2) [of password salt] by (auto simp: argonSaltLen_def argonKeyLen_def)
  then have p: "parseArgon2id h = Some (\<lparr>ar_memory = argonMemory, ar_time = argonTime, ar_threads = argonThreads\<rparr>, salt, ?key)"
    unfolding h by (rule parse_printed)
  have "prefix phc_prefix h" by (simp add: h phc_prefix_def)
  with p len assms(2,4) show ?thesis by (simp add: CheckPasswordHash_def checkArgon2id_def NeedsRehash_def)
qed

lemma parseArgon2id_Some:
  assumes "parseArgon2id h = Some (p, salt, key)"
  shows "ar_memory p \<noteq> 0 \<and> ar_time p \<noteq> 0 \<and> ar_threads p \<noteq> 0 \<and> ar_memory p \<le> 1024 * 1024 \<and> ar_time p \<le> 16 \<and>
    (\<exists>s. scan_params s = Some p) \<and> salt \<noteq> [] \<and> key \<noteq> []"
  using assms by (auto simp: parseArgon2id_def Let_def split: if_splits option.splits)

lemma scan_uint_bound: "scan_uint bits s = Some (n, r) \<Longrightarrow> n < 2 ^ bits"
  by (auto simp: scan_uint_def split: option.splits if_splits)

lemma scan_params_threads: "scan_params s = Some p \<Longrightarrow> ar_threads p < 256"
  by (auto simp: scan_params_def bind_eq_Some_conv dest: scan_uint_bound)

text \<open>
  C27. Checking a password costs bounded resources whatever the stored string says: a hash that is parsed
  at all asks for between 1 KiB and 1 GiB of memory, at most 16 passes and at most 255 lanes, and no
  password of more than 1024 bytes is hashed or accepted.
\<close>

theorem password_check_bounded:
  "(\<forall>h p salt key. parseArgon2id h = Some (p, salt, key) \<longrightarrow>
      ar_memory p \<in> {1..1048576} \<and> ar_time p \<in> {1..16} \<and> ar_threads p \<in> {1..255} \<and> salt \<noteq> [] \<and> key \<noteq> []) \<and>
   (\<forall>P pw h salt. length pw > 1024 \<longrightarrow> \<not> CheckPasswordHash P pw h \<and> HashPassword P salt pw = None)"
proof -
  have "ar_memory p \<in> {1..1048576} \<and> ar_time p \<in> {1..16} \<and> ar_threads p \<in> {1..255} \<and> salt \<noteq> [] \<and> key \<noteq> []"
    if h: "parseArgon2id h = Some (p, salt, key)" for h p salt key
  proof -
    obtain s where s: "scan_params s = Some p" using parseArgon2id_Some [OF h] by blast
    show ?thesis using parseArgon2id_Some [OF h] scan_params_threads [OF s] by simp
  qed
  then show ?thesis by (simp add: CheckPasswordHash_def HashPassword_def MaxPasswordLen_def)
qed

subsection \<open>Session tokens\<close>

text \<open>
  What the code relies on: for a token the package signed itself, parsing applies the configured checks
  (issuer, audience, a required expiry, the three times with a leeway of 30 seconds) and returns the
  claims.
\<close>

definition token_leeway :: duration where "token_leeway = 30 * Second"

definition times_ok :: "time \<Rightarrow> Claims \<Rightarrow> bool" where
  "times_ok now c =
     (Issuer c = tokenIssuer \<and> tokenAudience \<in> set (Audience c) \<and>
      (case ExpiresAt c of None \<Rightarrow> False | Some e \<Rightarrow> now < e + token_leeway) \<and>
      (case IssuedAt c of None \<Rightarrow> True | Some i \<Rightarrow> i - token_leeway \<le> now) \<and>
      (case NotBefore c of None \<Rightarrow> True | Some b \<Rightarrow> b - token_leeway \<le> now))"

definition jwt_honest :: "jwt_lib \<Rightarrow> bytes \<Rightarrow> Claims \<Rightarrow> bool" where
  "jwt_honest J secret c \<longleftrightarrow>
     (\<forall>now. jwt_parse J secret now (jwt_sign J secret c) = (if times_ok now c then Some c else None))"

lemma NumericDate_diff: "NumericDate (t + TokenTTL) = NumericDate t + TokenTTL"
proof -
  have "(t + TokenTTL) div Second = t div Second + 14400" unfolding TokenTTL_def by simp
  then show ?thesis by (simp add: NumericDate_def TokenTTL_def)
qed

lemma session_claims_valid: "0 < u \<Longrightarrow> 0 \<le> v \<Longrightarrow> Claims_Validate (session_claims now u v sid)"
  by (simp add: Claims_Validate_def session_claims_def NumericDate_diff)


text \<open>The messages of two audit references differ when kind or value differ.\<close>

lemma audit_message_inject:
  assumes "chr 0 \<notin> set kind" and "chr 0 \<notin> set kind'"
  shows "audit_message kind v = audit_message kind' v' \<longleftrightarrow> kind = kind' \<and> v = v'"
proof -
  have cut: "takeWhile (\<lambda>x. x \<noteq> chr 0) (k @ chr 0 # w) = k" if "chr 0 \<notin> set k" for k w
    using takeWhile_cut [OF that] .
  show ?thesis
    unfolding audit_message_def using cut [OF assms(1), of v] cut [OF assms(2), of v'] by auto
qed

subsection \<open>Witnesses\<close>

theorem password_round_trip_witness:
  "\<exists>h. HashPassword demo_platform (replicate 16 (chr 7)) ''Correct-Horse1'' = Some h \<and>
     CheckPasswordHash demo_platform ''Correct-Horse1'' h \<and> \<not> NeedsRehash h \<and>
     \<not> CheckPasswordHash demo_platform ''Wrong'' h"
proof -
  let ?salt = "replicate 16 (chr 7)"
  obtain h where h: "HashPassword demo_platform ?salt ''Correct-Horse1'' = Some h"
    by (simp add: HashPassword_def MaxPasswordLen_def Let_def)
  have s: "length ?salt = argonSaltLen" by (simp add: argonSaltLen_def)
  have k: "length (argon2_key demo_platform pw s argonTime argonMemory argonThreads argonKeyLen) = argonKeyLen" for pw s
    by (simp add: demo_platform_def)
  have l: "length ''Wrong'' \<le> MaxPasswordLen" by (simp add: MaxPasswordLen_def)
  have ne: "argon2_key demo_platform ''Wrong'' ?salt argonTime argonMemory argonThreads argonKeyLen \<noteq>
      argon2_key demo_platform ''Correct-Horse1'' ?salt argonTime argonMemory argonThreads argonKeyLen"
    by code_simp
  from password_round_trip [OF s k h l] ne h show ?thesis by blast
qed

theorem password_check_bounded_witness:
  "(case parseArgon2id ''$argon2id$v=19$m=1048576,t=16,p=255$AAAA$BBBB'' of
      None \<Rightarrow> False | Some (p, salt, key) \<Rightarrow> ar_memory p = 1048576 \<and> ar_threads p \<in> {1..255} \<and> salt \<noteq> []) \<and>
   parseArgon2id ''$argon2id$v=19$m=1048577,t=16,p=255$AAAA$BBBB'' = None \<and>
   \<not> CheckPasswordHash demo_platform (replicate 1025 (CHR ''a'')) ''''"
proof -
  let ?h = "''$argon2id$v=19$m=1048576,t=16,p=255$AAAA$BBBB''"
  have h: "parseArgon2id ?h = Some (\<lparr>ar_memory = 1048576, ar_time = 16, ar_threads = 255\<rparr>, [chr 0, chr 0, chr 0], [chr 4, chr 16, chr 65])"
    by code_simp
  have h': "parseArgon2id ''$argon2id$v=19$m=1048577,t=16,p=255$AAAA$BBBB'' = None" by code_simp
  have l: "length (replicate 1025 (CHR ''a'')) > 1024" by simp
  from password_check_bounded h h' l show ?thesis by simp
qed

definition demo_claims :: Claims where "demo_claims = session_claims 0 1 0 ''sid''"

definition demo_jwt :: jwt_lib where
  "demo_jwt = \<lparr>jwt_sign = (\<lambda>k c. ''token''),
     jwt_parse = (\<lambda>k now s. if s = ''token'' \<and> times_ok now demo_claims then Some demo_claims else None)\<rparr>"

lemma demo_jwt_honest: "jwt_honest demo_jwt k demo_claims"
  by (simp add: jwt_honest_def demo_jwt_def)


end
