(* ===== verification/Rate_Limit.thy ===== *)
theory Rate_Limit
  imports Prelude "HOL-Library.AList"
begin

section \<open>The fixed-window limiter: internal/api/ratelimit.go\<close>

text \<open>
  \<open>CrawlLimiter\<close> with its bucket map as an association list with distinct keys, \<open>AllowN\<close>,
  \<open>Allow\<close>, the ticker that drops expired buckets, and \<open>AnonLimiter\<close>. Each operation
  holds the mutex from its clock reading to its return, so it is one atomic step; \<open>now\<close> is
  that reading. The order in which Go ranges over a map does not matter here: every loop
  only deletes.

  The locale \<open>charging\<close> is what the handlers rely on; \<open>CrawlLimiter\<close> is its interpretation.
\<close>

record limitBucket =
  lb_count :: int
  lb_resetAt :: time

record CrawlLimiter =
  buckets :: "(string \<times> limitBucket) list"
  limit :: int
  window :: duration
  maxBuckets :: nat

definition NewCrawlLimiter :: "int \<Rightarrow> duration \<Rightarrow> CrawlLimiter" where
  "NewCrawlLimiter lim win = \<lparr>buckets = [], limit = lim, window = win, maxBuckets = 100000\<rparr>"

text \<open>One tick of the collector, and the same sweep inside \<open>AllowN\<close>.\<close>

definition sweep :: "time \<Rightarrow> (string \<times> limitBucket) list \<Rightarrow> (string \<times> limitBucket) list" where
  "sweep now bs = filter (\<lambda>(_, b). \<not> now > lb_resetAt b) bs"

definition limiter_gc :: "time \<Rightarrow> CrawlLimiter \<Rightarrow> CrawlLimiter" where
  "limiter_gc now l = l\<lparr>buckets := sweep now (buckets l)\<rparr>"

definition AllowN :: "time \<Rightarrow> string \<Rightarrow> int \<Rightarrow> CrawlLimiter \<Rightarrow> bool \<times> CrawlLimiter" where
  "AllowN now key n l =
     (if n \<le> 0 then (True, l)
      else let entry = map_of (buckets l) key;
               fresh = \<lparr>lb_count = n, lb_resetAt = now + window l\<rparr> in
        case entry of
          Some b \<Rightarrow>
            if now > lb_resetAt b then
              (if n > limit l then (False, l)
               else (True, l\<lparr>buckets := AList.update key fresh (buckets l)\<rparr>))
            else if lb_count b + n > limit l then (False, l)
            else (True, l\<lparr>buckets := AList.update key (b\<lparr>lb_count := lb_count b + n\<rparr>) (buckets l)\<rparr>)
        | None \<Rightarrow>
            if n > limit l then (False, l)
            else let l' = (if length (buckets l) \<ge> maxBuckets l then limiter_gc now l else l) in
              if length (buckets l') \<ge> maxBuckets l' then (False, l')
              else (True, l'\<lparr>buckets := AList.update key fresh (buckets l')\<rparr>))"

definition Allow :: "time \<Rightarrow> string \<Rightarrow> CrawlLimiter \<Rightarrow> bool \<times> CrawlLimiter" where
  "Allow now key l = AllowN now key 1 l"

record AnonLimiter =
  clearnet :: CrawlLimiter
  onion_lim :: CrawlLimiter

definition NewAnonLimiter :: "int \<Rightarrow> int \<Rightarrow> duration \<Rightarrow> AnonLimiter" where
  "NewAnonLimiter clearnetLimit onionLimit win =
     \<lparr>clearnet = NewCrawlLimiter clearnetLimit win, onion_lim = NewCrawlLimiter onionLimit win\<rparr>"

text \<open>\<open>network\<close> and \<open>ip\<close> are \<open>ClientNetwork(r)\<close> and \<open>ClientIP(r)\<close>.\<close>

definition Anon_Allow :: "time \<Rightarrow> string \<Rightarrow> string \<Rightarrow> AnonLimiter \<Rightarrow> bool \<times> AnonLimiter" where
  "Anon_Allow now network ip a =
     (if network = ''onion''
      then let (ok, l) = Allow now ''onion'' (onion_lim a) in (ok, a\<lparr>onion_lim := l\<rparr>)
      else let (ok, l) = Allow now ip (clearnet a) in (ok, a\<lparr>clearnet := l\<rparr>))"

subsection \<open>Invariant\<close>

definition limiter_ok :: "CrawlLimiter \<Rightarrow> bool" where
  "limiter_ok l =
     (distinct (map fst (buckets l)) \<and> length (buckets l) \<le> maxBuckets l \<and>
      list_all (\<lambda>(_, b). 0 < lb_count b \<and> lb_count b \<le> limit l) (buckets l))"

lemma limiter_ok_new: "limiter_ok (NewCrawlLimiter lim win)"
  by (simp add: limiter_ok_def NewCrawlLimiter_def)

lemma sweep_distinct: "distinct (map fst bs) \<Longrightarrow> distinct (map fst (sweep now bs))"
  unfolding sweep_def by (rule distinct_map_filter)

lemma map_of_sweep:
  assumes "distinct (map fst bs)"
  shows "map_of (sweep now bs) k =
    (case map_of bs k of None \<Rightarrow> None | Some b \<Rightarrow> if now > lb_resetAt b then None else Some b)"
  using assms
proof (induction bs)
  case (Cons p bs)
  obtain k' b where p: "p = (k', b)" by force
  have "map_of bs k' = None" using Cons.prems p by (simp add: map_of_eq_None_iff)
  with Cons p show ?case by (auto simp: sweep_def map_of_eq_None_iff split: option.splits)
qed (simp add: sweep_def)

lemma limiter_ok_gc: "limiter_ok l \<Longrightarrow> limiter_ok (limiter_gc now l)"
  unfolding limiter_ok_def limiter_gc_def
  by (auto simp: list_all_iff sweep_def intro: distinct_map_filter le_trans [OF length_filter_le])

lemma set_AList_update: "set (AList.update k v xs) \<subseteq> insert (k, v) (set xs)"
  by (induction xs) auto

lemma length_AList_update:
  "length (AList.update k v xs) = (if map_of xs k = None then Suc (length xs) else length xs)"
  by (induction xs) (auto split: if_splits)

lemma limiter_ok_update:
  assumes "limiter_ok l" and "0 < lb_count b" and "lb_count b \<le> limit l"
    and "map_of (buckets l) k = None \<Longrightarrow> length (buckets l) < maxBuckets l"
  shows "limiter_ok (l\<lparr>buckets := AList.update k b (buckets l)\<rparr>)"
  using assms set_AList_update [of k b "buckets l"]
  by (auto simp: limiter_ok_def list_all_iff distinct_update length_AList_update)

lemma AllowN_fields:
  "limit (snd (AllowN now k n l)) = limit l" "window (snd (AllowN now k n l)) = window l"
  "maxBuckets (snd (AllowN now k n l)) = maxBuckets l"
  by (auto simp: AllowN_def limiter_gc_def Let_def split: option.splits)

lemma limiter_ok_AllowN:
  assumes "limiter_ok l"
  shows "limiter_ok (snd (AllowN now k n l))"
proof (cases "map_of (buckets l) k")
  case None
  have gc: "limiter_ok (limiter_gc now l)" "limit (limiter_gc now l) = limit l"
    using limiter_ok_gc [OF assms] by (simp_all add: limiter_gc_def)
  show ?thesis
    using None assms gc limiter_ok_update [OF assms, of _ k] limiter_ok_update [OF gc(1), of _ k]
    by (auto simp: AllowN_def Let_def)
next
  case (Some b)
  then have "(k, b) \<in> set (buckets l)" by (rule map_of_SomeD)
  with assms have "0 < lb_count b" by (auto simp: limiter_ok_def list_all_iff)
  with Some assms limiter_ok_update [OF assms, of _ k] show ?thesis
    by (auto simp: AllowN_def Let_def)
qed

subsection \<open>What a key has spent\<close>

text \<open>The units charged to \<open>k\<close> in the window that is current at \<open>now\<close>.\<close>

definition spent :: "time \<Rightarrow> string \<Rightarrow> CrawlLimiter \<Rightarrow> int" where
  "spent now k l =
     (case map_of (buckets l) k of None \<Rightarrow> 0
      | Some b \<Rightarrow> if now > lb_resetAt b then 0 else lb_count b)"

lemma map_of_limiter_gc:
  "limiter_ok l \<Longrightarrow> map_of (buckets (limiter_gc now l)) k =
    (case map_of (buckets l) k of None \<Rightarrow> None
     | Some b \<Rightarrow> if now > lb_resetAt b then None else Some b)"
  by (simp add: limiter_gc_def map_of_sweep limiter_ok_def)

lemma spent_gc: "limiter_ok l \<Longrightarrow> now' \<le> now \<Longrightarrow> spent now k (limiter_gc now' l) = spent now k l"
  by (auto simp: spent_def map_of_limiter_gc split: option.splits)

lemma spent_bounds: "limiter_ok l \<Longrightarrow> 0 \<le> limit l \<Longrightarrow> 0 \<le> spent now k l \<and> spent now k l \<le> limit l"
  by (auto simp: spent_def limiter_ok_def list_all_iff split: option.splits dest!: map_of_SomeD)

lemma AllowN_accept:
  assumes "limiter_ok l" and "AllowN now k n l = (True, l')" and "0 < n" and "0 \<le> window l"
  shows "spent now k l' = spent now k l + n" and "spent now k l + n \<le> limit l"
  using assms
  by (auto simp: AllowN_def spent_def update_conv' Let_def split: option.splits if_splits)

lemma AllowN_reject:
  assumes "limiter_ok l" and "AllowN now k n l = (False, l')"
  shows "spent now k' l' = spent now k' l"
  using assms spent_gc [OF assms(1), of now now]
  by (auto simp: AllowN_def Let_def split: option.splits if_splits)

lemma AllowN_other:
  assumes "limiter_ok l" and "k' \<noteq> k"
  shows "spent now k' (snd (AllowN now k n l)) = spent now k' l"
proof -
  have "spent now k' (m\<lparr>buckets := AList.update k b (buckets m)\<rparr>) = spent now k' m" for m b
    using assms(2) by (simp add: spent_def update_conv')
  then show ?thesis
    using spent_gc [OF assms(1), of now now]
    by (auto simp: AllowN_def Let_def split: option.splits if_splits)
qed

subsection \<open>The contract of a limiter\<close>

locale charging =
  fixes charge :: "time \<Rightarrow> 'k \<Rightarrow> int \<Rightarrow> 'l \<Rightarrow> bool \<times> 'l"
    and used :: "time \<Rightarrow> 'k \<Rightarrow> 'l \<Rightarrow> int"
    and ok :: "'l \<Rightarrow> bool"
    and cap :: "'l \<Rightarrow> int"
  assumes ok_charge: "ok l \<Longrightarrow> ok (snd (charge t k n l))"
    and cap_charge: "ok l \<Longrightarrow> cap (snd (charge t k n l)) = cap l"
    and accept: "ok l \<Longrightarrow> 0 < n \<Longrightarrow> fst (charge t k n l) \<Longrightarrow>
      used t k (snd (charge t k n l)) = used t k l + n \<and> used t k l + n \<le> cap l"
    and reject: "ok l \<Longrightarrow> \<not> fst (charge t k n l) \<Longrightarrow> used t k' (snd (charge t k n l)) = used t k' l"
    and other: "ok l \<Longrightarrow> k' \<noteq> k \<Longrightarrow> used t k' (snd (charge t k n l)) = used t k' l"
begin

text \<open>The units a burst of requests at one instant gets accepted for the key \<open>k\<close>.\<close>

fun burst :: "time \<Rightarrow> 'k \<Rightarrow> ('k \<times> int) list \<Rightarrow> 'l \<Rightarrow> int" where
  "burst t k [] l = 0"
| "burst t k ((k', n) # rs) l =
     (if k' = k \<and> fst (charge t k' n l) then n else 0) + burst t k rs (snd (charge t k' n l))"

lemma burst_used:
  assumes "ok l" and "\<And>k' n. (k', n) \<in> set rs \<Longrightarrow> 0 < n" and "used t k l \<le> cap l"
  shows "used t k l + burst t k rs l \<le> cap l"
  using assms
proof (induction t k rs l rule: burst.induct)
  case (2 t k k' n rs l)
  let ?l = "snd (charge t k' n l)"
  have n: "0 < n" using 2(3) [of k' n] by simp
  have "used t k ?l + burst t k rs ?l \<le> cap ?l" if "used t k ?l \<le> cap l"
    by (rule 2(1)) (use 2(2) 2(3) that ok_charge cap_charge in auto)
  then show ?case
    using accept [OF 2(2) n, of t k'] reject [OF 2(2), of t k' n k] other [OF 2(2), of k k' t n]
      cap_charge [OF 2(2)] 2(4)
    by (cases "k' = k"; cases "fst (charge t k' n l)") auto
qed simp

end

definition limiter_live :: "CrawlLimiter \<Rightarrow> bool" where
  "limiter_live l = (limiter_ok l \<and> 0 \<le> window l \<and> 0 \<le> limit l)"

interpretation crawl: charging AllowN spent limiter_live limit
proof unfold_locales
  fix l t k n k'
  assume l: "limiter_live l"
  then have ok: "limiter_ok l" "0 \<le> window l" by (simp_all add: limiter_live_def)
  show "limiter_live (snd (AllowN t k n l))" "limit (snd (AllowN t k n l)) = limit l"
    using l by (simp_all add: limiter_live_def limiter_ok_AllowN AllowN_fields)
  show "0 < n \<Longrightarrow> fst (AllowN t k n l) \<Longrightarrow>
      spent t k (snd (AllowN t k n l)) = spent t k l + n \<and> spent t k l + n \<le> limit l"
    using AllowN_accept [OF ok(1), of t k n] ok(2) by (metis prod.collapse)
  show "\<not> fst (AllowN t k n l) \<Longrightarrow> spent t k' (snd (AllowN t k n l)) = spent t k' l"
    using AllowN_reject [OF ok(1), of t k n] by (metis prod.collapse)
  show "k' \<noteq> k \<Longrightarrow> spent t k' (snd (AllowN t k n l)) = spent t k' l"
    using AllowN_other ok(1) by blast
qed

lemma second_charge_refused:
  assumes "limiter_live l" and "fst (AllowN now k n l)" and "0 < n" and "limit l < n + m" and "0 < m"
  shows "\<not> fst (AllowN now k m (snd (AllowN now k n l)))"
proof
  let ?l = "snd (AllowN now k n l)"
  assume "fst (AllowN now k m ?l)"
  then have "spent now k ?l + m \<le> limit ?l"
    using crawl.accept [OF crawl.ok_charge [OF assms(1)] assms(5)] by blast
  moreover have "spent now k ?l = spent now k l + n" using crawl.accept [OF assms(1,3,2)] by blast
  moreover have "0 \<le> spent now k l" using assms(1) spent_bounds by (simp add: limiter_live_def)
  ultimately show False using assms(4) by (simp add: AllowN_fields)
qed

subsection \<open>Runs over time\<close>

datatype lim_event = Charge time string int | Tick time

fun ev_time :: "lim_event \<Rightarrow> time" where
  "ev_time (Charge t k n) = t"
| "ev_time (Tick t) = t"

text \<open>The units accepted for \<open>k\<close> over a run of requests and collector ticks.\<close>

fun accepted :: "string \<Rightarrow> lim_event list \<Rightarrow> CrawlLimiter \<Rightarrow> int" where
  "accepted k [] l = 0"
| "accepted k (Tick t # es) l = accepted k es (limiter_gc t l)"
| "accepted k (Charge t k' n # es) l =
     (if k' = k \<and> fst (AllowN t k' n l) then max 0 n else 0) + accepted k es (snd (AllowN t k' n l))"

lemma AllowN_map_of:
  assumes "limiter_ok l" and "map_of (buckets l) k = Some b" and "\<not> t > lb_resetAt b"
  shows "map_of (buckets (snd (AllowN t k' n l))) k =
    (if k' = k \<and> 0 < n \<and> lb_count b + n \<le> limit l then Some (b\<lparr>lb_count := lb_count b + n\<rparr>) else Some b)"
  using assms map_of_limiter_gc [OF assms(1), of t k]
  by (auto simp: AllowN_def Let_def update_conv' split: option.splits if_splits)

lemma accepted_live:
  assumes "limiter_ok l" and "map_of (buckets l) k = Some b"
    and "\<And>e. e \<in> set es \<Longrightarrow> ev_time e \<le> lb_resetAt b"
  shows "accepted k es l \<le> limit l - lb_count b"
  using assms
proof (induction k es l arbitrary: b rule: accepted.induct)
  case (1 k l)
  then show ?case by (auto simp: limiter_ok_def list_all_iff dest: map_of_SomeD)
next
  case (2 k t es l)
  then have "\<not> t > lb_resetAt b" by force
  with 2(2,3) have "map_of (buckets (limiter_gc t l)) k = Some b" by (simp add: map_of_limiter_gc)
  with 2 limiter_ok_gc show ?case by (simp add: limiter_gc_def)
next
  case (3 k t k' n es l)
  then have t: "\<not> t > lb_resetAt b" by force
  note m = AllowN_map_of [OF 3(2,3) t, of k' n]
  note ih = 3(1) [OF limiter_ok_AllowN [OF 3(2)], unfolded AllowN_fields]
  show ?case
  proof (cases "k' = k \<and> 0 < n \<and> lb_count b + n \<le> limit l")
    case True
    then have "accepted k es (snd (AllowN t k' n l)) \<le> limit l - (lb_count b + n)"
      using ih [of "b\<lparr>lb_count := lb_count b + n\<rparr>"] m 3(4) by simp
    with True show ?thesis by auto
  next
    case False
    then have "accepted k es (snd (AllowN t k' n l)) \<le> limit l - lb_count b"
      using m 3(4) by (intro ih [of b]) auto
    moreover have "\<not> (k' = k \<and> fst (AllowN t k' n l) \<and> 0 < n)"
      using False 3(3) t by (auto simp: AllowN_def Let_def split: if_splits)
    ultimately show ?thesis by auto
  qed
qed

definition remaining :: "string \<Rightarrow> CrawlLimiter \<Rightarrow> int" where
  "remaining k l = (case map_of (buckets l) k of None \<Rightarrow> 0 | Some b \<Rightarrow> limit l - lb_count b)"

lemma remaining_nonneg: "limiter_ok l \<Longrightarrow> 0 \<le> remaining k l"
  by (auto simp: remaining_def limiter_ok_def list_all_iff split: option.splits dest!: map_of_SomeD)

lemma remaining_gc:
  assumes "limiter_ok l"
  shows "remaining k (limiter_gc t l) \<le> remaining k l"
proof -
  have "limit (limiter_gc t l) = limit l" by (simp add: limiter_gc_def)
  then show ?thesis
    using remaining_nonneg [OF assms, of k]
    by (auto simp: remaining_def map_of_limiter_gc [OF assms] split: option.split)
qed

lemma remaining_other:
  assumes "limiter_ok l" and "k' \<noteq> k"
  shows "remaining k (snd (AllowN t k' n l)) \<le> remaining k l"
proof -
  have "remaining k (m\<lparr>buckets := AList.update k' b (buckets m)\<rparr>) = remaining k m" for m b
    using assms(2) by (simp add: remaining_def update_conv' split: option.split)
  then show ?thesis
    using remaining_gc [OF assms(1), of k t] by (auto simp: AllowN_def Let_def split: option.splits)
qed

text \<open>A request that opens a new window, or is charged to the open one, or changes nothing.\<close>

lemma AllowN_cases:
  assumes "limiter_ok l" and "0 \<le> limit l"
  shows "(\<exists>b. 0 < n \<and> n \<le> limit l \<and> lb_count b = n \<and> lb_resetAt b = t + window l \<and>
            map_of (buckets (snd (AllowN t k n l))) k = Some b) \<or>
         (if fst (AllowN t k n l) then max 0 n else 0) + remaining k (snd (AllowN t k n l)) \<le> remaining k l"
proof (cases "map_of (buckets l) k")
  case None
  then show ?thesis
    using remaining_gc [OF assms(1), of k t] by (auto simp: AllowN_def Let_def limiter_gc_def update_conv')
next
  case (Some b)
  then show ?thesis by (auto simp: AllowN_def Let_def remaining_def update_conv')
qed

lemma accepted_window:
  assumes "limiter_ok l" and "0 \<le> limit l"
    and "\<And>e. e \<in> set es \<Longrightarrow> ev_time e \<le> T \<and> T \<le> ev_time e + window l"
  shows "accepted k es l \<le> remaining k l + limit l"
  using assms
proof (induction k es l rule: accepted.induct)
  case (1 k l)
  then show ?case using remaining_nonneg by simp
next
  case (2 k t es l)
  then show ?case
    using limiter_ok_gc [of l t] remaining_gc [of l k t] by (fastforce simp: limiter_gc_def)
next
  case (3 k t k' n es l)
  let ?l = "snd (AllowN t k' n l)"
  have ok: "limiter_ok ?l" using limiter_ok_AllowN [OF 3(2)] .
  have ih: "accepted k es ?l \<le> remaining k ?l + limit l"
    using 3 ok by (simp add: AllowN_fields)
  show ?case
  proof (cases "k' = k")
    case False
    with ih remaining_other [OF 3(2) False, of t n] show ?thesis by simp
  next
    case True
    show ?thesis
      using AllowN_cases [OF 3(2,3), of n t k]
    proof
      assume "\<exists>b. 0 < n \<and> n \<le> limit l \<and> lb_count b = n \<and> lb_resetAt b = t + window l \<and>
            map_of (buckets (snd (AllowN t k n l))) k = Some b"
      then obtain b where b: "0 < n" "lb_count b = n" "lb_resetAt b = t + window l"
        "map_of (buckets ?l) k = Some b" using True by auto
      have "accepted k es ?l \<le> limit l - n"
      proof -
        have T: "T \<le> lb_resetAt b" using 3(4) [of "Charge t k' n"] b(3) by simp
        have "ev_time e \<le> T" if "e \<in> set es" for e using 3(4) [of e] that by simp
        with T have "accepted k es ?l \<le> limit ?l - lb_count b"
          by (intro accepted_live [OF ok b(4)]) (blast intro: order_trans)
        then show ?thesis using b(2) by (simp add: AllowN_fields)
      qed
      with b remaining_nonneg [OF 3(2), of k] show ?thesis by auto
    next
      assume "(if fst (AllowN t k n l) then max 0 n else 0) + remaining k (snd (AllowN t k n l)) \<le> remaining k l"
      with ih True show ?thesis by simp
    qed
  qed
qed

subsection \<open>Properties\<close>

text \<open>
  C14. However requests for any keys and collector ticks are interleaved, a key is charged at most
  twice its limit over any stretch of time no longer than the window, and at most its limit if it
  had no bucket at the start.
\<close>

theorem limiter_window_bound:
  assumes "limiter_ok l" and "0 \<le> limit l"
    and "\<And>e. e \<in> set es \<Longrightarrow> T0 \<le> ev_time e \<and> ev_time e \<le> T0 + window l"
  shows "accepted k es l \<le> 2 * limit l \<and> (map_of (buckets l) k = None \<longrightarrow> accepted k es l \<le> limit l)"
proof -
  have "accepted k es l \<le> remaining k l + limit l"
    by (rule accepted_window [where T = "T0 + window l"]) (use assms in force)+
  moreover have "remaining k l \<le> limit l"
    using assms(1,2) by (auto simp: remaining_def limiter_ok_def list_all_iff split: option.splits dest!: map_of_SomeD)
  ultimately show ?thesis by (auto simp: remaining_def)
qed

theorem limiter_window_bound_witness:
  "let l = NewCrawlLimiter 2 60; es = [Charge 0 ''a'' 1, Charge 1 ''a'' 1, Charge 2 ''b'' 1, Charge 3 ''a'' 1] in
   limiter_ok l \<and> accepted ''a'' es l \<le> 2 \<and> accepted ''a'' es l = 2"
proof -
  let ?l = "NewCrawlLimiter 2 60"
  let ?es = "[Charge 0 ''a'' 1, Charge 1 ''a'' 1, Charge 2 ''b'' 1, Charge 3 ''a'' 1]"
  have "\<And>e. e \<in> set ?es \<Longrightarrow> 0 \<le> ev_time e \<and> ev_time e \<le> 0 + window ?l" "0 \<le> limit ?l"
    "map_of (buckets ?l) ''a'' = None"
    by (auto simp: NewCrawlLimiter_def)
  then have "accepted ''a'' ?es ?l \<le> limit ?l"
    using limiter_window_bound [OF limiter_ok_new, of 2 60 ?es 0 "''a''"] by blast
  moreover have "accepted ''a'' ?es ?l = 2" by code_simp
  ultimately show ?thesis using limiter_ok_new by (simp add: Let_def NewCrawlLimiter_def)
qed

text \<open>
  C12. \<open>AllowN\<close> is all or nothing: an accepted batch of \<open>n > 0\<close> raises what the key has spent
  by exactly \<open>n\<close>, within the limit; a rejected batch, and any batch of another key, leaves it as
  it was. The bucket map never exceeds its cap.
\<close>

theorem AllowN_all_or_nothing:
  assumes "limiter_live l" and "0 < n" and "AllowN now k n l = (ok, l')"
  shows "(if ok then spent now k l' = spent now k l + n \<and> spent now k l' \<le> limit l
          else spent now k l' = spent now k l) \<and>
    (\<forall>k'. k' \<noteq> k \<longrightarrow> spent now k' l' = spent now k' l) \<and>
    limiter_live l' \<and> length (buckets l') \<le> maxBuckets l"
proof -
  have "maxBuckets l' = maxBuckets l" using AllowN_fields(3) [of now k n l] assms(3) by simp
  then show ?thesis
    using crawl.ok_charge [OF assms(1), of now k n] crawl.accept [OF assms(1,2), of now k]
      crawl.reject [OF assms(1), of now k n] crawl.other [OF assms(1), of _ k now n] assms(3)
    by (auto simp: limiter_live_def limiter_ok_def)
qed

theorem AllowN_all_or_nothing_witness:
  "let l = NewCrawlLimiter 5 60; l' = snd (AllowN 0 ''a'' 3 l) in
   limiter_live l \<and> AllowN 0 ''a'' 3 l = (True, l') \<and> spent 0 ''a'' l' = 3"
proof -
  let ?l = "NewCrawlLimiter 5 60"
  have a: "limiter_live ?l" "AllowN 0 ''a'' 3 ?l = (True, snd (AllowN 0 ''a'' 3 ?l))" "spent 0 ''a'' ?l = 0"
    by code_simp+
  show ?thesis using AllowN_all_or_nothing [OF a(1) _ a(2)] a by (simp add: Let_def)
qed

end
