(* ===== verification/Http.thy ===== *)
theory Http
  imports Go_Net Go_Text Password Rate_Limit Totp Annotations
begin

section \<open>Requests, responses, middleware: internal/api\<close>

text \<open>
  The shared part of the API: \<open>httpx.go\<close>, \<open>validate.go\<close>, \<open>realip.go\<close>, \<open>device_label.go\<close>,
  \<open>audit.go\<close>, \<open>deps.go\<close>, \<open>cache.go\<close>, \<open>session.go\<close>, \<open>middleware.go\<close> and \<open>RequestKey\<close>.

  A request is a record: what \<open>net/http\<close> and the router read off the wire (method, headers, cookies,
  query and path parameters, the peer's address) and the values the middleware puts into its context.
  A response is the status, the headers the code sets, the cookies and the value handed to the JSON
  encoder. A handler takes the environment, the instant at which it runs, its decoded body (None when
  the body does not decode) and its random bytes, and maps a request and the server's state to a
  response and the new state. Messages sent to the log and the metrics are not part of the state.
\<close>

subsection \<open>Types\<close>

record request =
  r_method :: string
  r_header :: "string \<Rightarrow> string"
  r_cookie :: "string \<Rightarrow> string option"
  r_query :: "string \<Rightarrow> string"
  r_param :: "string \<Rightarrow> string"
  r_remote :: string
  x_claims :: "Claims option"
  x_source :: "string option"
  x_role :: "string option"
  x_email :: "string option"
  x_network :: "string option"

record cookie =
  ck_name :: string
  ck_value :: string
  ck_path :: string
  ck_maxAge :: int
  ck_httpOnly :: bool
  ck_secure :: bool
  ck_sameSite :: string

datatype field =
    FStr string | FInt int | FBool bool | FTime time | FStrs "string list" | FNull
  | FSettings PrivacySettings | FWatch "Watch option" | FEvents "WatchEvent list"
  | FTimeline "(int \<times> nat) list"

text \<open>The document of the personal-data export.\<close>

record personal_data =
  pd_version :: int
  pd_generated :: time
  pd_account :: AccountProfile
  pd_settings :: PrivacySettings
  pd_sessions :: "Session list"
  pd_codes :: nat
  pd_history :: "(string \<times> time) list"
  pd_watches :: "Watch list"
  pd_nodes :: "Node list"
  pd_annotations :: "AnnotatedSite list"
  pd_links :: "(string \<times> string) list"

datatype payload =
    Obj "(string \<times> field) list"
  | Html string
  | JSessions "Session list" | JAnnotation Annotation | JTags "(string \<times> nat) list" | JWatches "Watch list"
  | JNodes "Node list" | JNode NodeDetail | JEdges "(string \<times> string) list"
  | JQueue "node_status \<rightharpoonup> nat" "QueueItem list"
  | JExport personal_data
  | JLines "Node list" | Raw string | Xlsx "field list list" | Pdf "string list list"

record response =
  status :: nat
  headers :: "(string \<times> string) list"
  set_cookies :: "cookie list"
  body :: payload

record config =
  AllowRegistration :: bool
  AdminEmail :: string
  RequireAdminMFA :: bool
  Workers :: int
  DeletionGrace :: duration
  MaxPendingPerUser :: int

text \<open>
  What the handlers read and never change: the libraries, the secret of \<open>getJWTSecret\<close>, the
  configuration, and the database's own orders, text search and formatting of timestamps.
\<close>

record env =
  plat :: platform
  jwt :: jwt_lib
  jwt_secret :: bytes
  cfg :: config
  coll :: "string \<Rightarrow> nat"
  audit_rank :: "audit_row \<Rightarrow> nat"
  ts_match :: "string \<Rightarrow> node_row \<Rightarrow> bool"
  ts_rank :: "string \<Rightarrow> node_row \<Rightarrow> int"
  to_char :: "time \<Rightarrow> string"

datatype mail =
    VerificationMail string string
  | ResetMail string string
  | DeletionScheduledMail string time
  | DeletionCancelledMail string

text \<open>
  The state behind \<open>deps\<close>: the database, the limiters, the export semaphores (the accounts that
  hold their own slot and the number of global slots taken) and the mails handed to a goroutine.
\<close>

record server =
  sdb :: db
  crawlLim :: CrawlLimiter
  searchLim :: CrawlLimiter
  sensitiveLim :: CrawlLimiter
  loginLim :: AnonLimiter
  registerLim :: AnonLimiter
  verifyLim :: AnonLimiter
  resetLim :: AnonLimiter
  exportPerUser :: "int list"
  exportGlobal :: nat
  outbox :: "mail list"

type_synonym handler = "request \<Rightarrow> server \<Rightarrow> response \<times> server"

subsection \<open>httpx.go\<close>

abbreviation json_type :: "string \<times> string" where
  "json_type \<equiv> (''Content-Type'', ''application/json'')"

definition WriteJSONError :: "nat \<Rightarrow> string \<Rightarrow> response" where
  "WriteJSONError code msg =
     \<lparr>status = code, headers = [json_type], set_cookies = [], body = Obj [(''error'', FStr msg)]\<rparr>"

text \<open>The encoder without an explicit status.\<close>

definition json_reply :: "nat \<Rightarrow> payload \<Rightarrow> response" where
  "json_reply code p = \<lparr>status = code, headers = [json_type], set_cookies = [], body = p\<rparr>"

abbreviation message :: "nat \<Rightarrow> string \<Rightarrow> response" where
  "message code m \<equiv> json_reply code (Obj [(''message'', FStr m)])"

definition writeNoStoreJSON :: "nat \<Rightarrow> payload \<Rightarrow> response" where
  "writeNoStoreJSON code p =
     \<lparr>status = code, headers = [json_type, (''Cache-Control'', ''no-store'')], set_cookies = [], body = p\<rparr>"

text \<open>The value of \<open>strconv.Atoi\<close> when its error is dropped: zero, or the nearest bound.\<close>

definition Atoi_value :: "string \<Rightarrow> int" where
  "Atoi_value s =
     (case Atoi s of
        Some n \<Rightarrow> n
      | None \<Rightarrow>
          let ds = (case s of [] \<Rightarrow> [] | c # r \<Rightarrow> if c = CHR ''-'' \<or> c = CHR ''+'' then r else s) in
          if ds = [] \<or> \<not> list_all is_digit ds then 0
          else if prefix ''-'' s then - (2 ^ 63) else 2 ^ 63 - 1)"

definition ParsePagination :: "request \<Rightarrow> int \<times> int" where
  "ParsePagination r =
     (let limit0 = Atoi_value (r_query r ''limit''); page0 = Atoi_value (r_query r ''page'');
          page1 = (if page0 < 1 then 1 else page0);
          page2 = (if page1 > 10000 then 10000 else page1);
          lim = (if limit0 \<le> 0 \<or> limit0 > 200 then 50 else limit0)
      in (lim, (page2 - 1) * lim))"

definition ClientIP :: "request \<Rightarrow> string" where
  "ClientIP r = (case SplitHostPort (r_remote r) of Some (host, _) \<Rightarrow> host | None \<Rightarrow> r_remote r)"

definition formula_chars :: string where
  "formula_chars = ''=+-@'' @ [CHR 0x09, CHR 0x0D]"

definition SanitizeCSVField :: "string \<Rightarrow> string" where
  "SanitizeCSVField s = (if s \<noteq> [] \<and> hd s \<in> set formula_chars then CHR 0x27 # s else s)"

definition SplitAndTrim :: "string \<Rightarrow> char \<Rightarrow> string list" where
  "SplitAndTrim s sep = filter (\<lambda>t. t \<noteq> []) (map TrimSpace (Split sep s))"

subsection \<open>validate.go\<close>

definition email_local :: "char \<Rightarrow> bool" where
  "email_local c = (is_alnum c \<or> c \<in> set ''._%+-'')"

definition email_domain :: "char \<Rightarrow> bool" where
  "email_domain c = (is_alnum c \<or> c \<in> set ''.-'')"

text \<open>
  \<open>^[a-zA-Z0-9._%+\-]+@[a-zA-Z0-9.\-]+\.[a-zA-Z]{2,}$\<close>: the local part has no \<open>@\<close>, the last label
  no dot, so both cuts are forced.
\<close>

definition EmailRegex :: "string \<Rightarrow> bool" where
  "EmailRegex s =
     (let (l, rest, found) = Cut CHR ''@'' s in
      found \<and> l \<noteq> [] \<and> list_all email_local l \<and> list_all email_domain rest \<and>
      (case CutLast CHR ''.'' rest of
         None \<Rightarrow> False
       | Some (host, tld) \<Rightarrow> host \<noteq> [] \<and> length tld \<ge> 2 \<and> list_all is_alpha tld))"

definition TokenSafeRE :: "string \<Rightarrow> bool" where
  "TokenSafeRE s =
     (16 \<le> length s \<and> length s \<le> 128 \<and> list_all (\<lambda>c. is_alnum c \<or> c \<in> set ''_-'') s)"

definition MaxPasswordChars :: nat where "MaxPasswordChars = 256"

text \<open>
  Bytes stand for runes here: a byte of a longer sequence falls in no class, like its rune. The
  classes are counted over the whole password. None is nil.
\<close>

definition ValidatePassword :: "string \<Rightarrow> string option" where
  "ValidatePassword p =
     (if length p < 10 \<or> length p > MaxPasswordChars
      then Some ''password must be between 10 and 256 characters''
      else let classes = length (filter (\<lambda>b. b)
             [list_ex is_lower p, list_ex is_upper p, list_ex is_digit p,
              list_ex (\<lambda>c. byte c > 32 \<and> byte c < 127 \<and> \<not> is_alnum c) p]) in
        if classes < 3
        then Some ''password must combine at least 3 categories: lowercase, uppercase, digits, symbols''
        else None)"

subsection \<open>realip.go\<close>

definition networkClearnet :: string where "networkClearnet = ''clearnet''"
definition networkOnion :: string where "networkOnion = ''onion''"
definition networkHeader :: string where "networkHeader = ''X-Client-Network''"

definition ClientNetwork :: "request \<Rightarrow> string" where
  "ClientNetwork r = (case x_network r of Some n \<Rightarrow> n | None \<Rightarrow> networkClearnet)"

definition remoteIP :: "string \<Rightarrow> ip option" where
  "remoteIP remoteAddr =
     ParseIP (TrimSpace (case SplitHostPort remoteAddr of Some (host, _) \<Rightarrow> host | None \<Rightarrow> remoteAddr))"

definition isTrustedProxyIP :: "ip option \<Rightarrow> bool" where
  "isTrustedProxyIP a = (case a of None \<Rightarrow> False | Some i \<Rightarrow> IsLoopback i \<or> IsPrivate i)"

definition firstValidClientIP :: "string \<Rightarrow> string" where
  "firstValidClientIP header =
     (case List.map_filter (\<lambda>part. ParseIP (TrimSpace part)) (Split CHR '','' header) of
        [] \<Rightarrow> [] | i # _ \<Rightarrow> IP_String i)"

definition realip :: "request \<Rightarrow> request" where
  "realip r =
     (if isTrustedProxyIP (remoteIP (r_remote r))
      then let network = (if EqualFold (TrimSpace (r_header r networkHeader)) networkOnion
                          then networkOnion else networkClearnet);
               real = firstValidClientIP (r_header r ''X-Real-IP'');
               fwd = firstValidClientIP (r_header r ''X-Forwarded-For'');
               remote = (if real \<noteq> [] then JoinHostPort real ''0''
                         else if fwd \<noteq> [] then JoinHostPort fwd ''0'' else r_remote r)
           in r\<lparr>r_remote := remote, x_network := Some network\<rparr>
      else r\<lparr>x_network := Some networkClearnet\<rparr>)"

definition TrustedRealIP :: "handler \<Rightarrow> handler" where
  "TrustedRealIP next r s = next (realip r) s"

subsection \<open>device_label.go\<close>

definition device_browser :: "string \<Rightarrow> string" where
  "device_browser ua =
     (if Contains ua ''edg/'' \<or> Contains ua ''edga/'' \<or> Contains ua ''edgios/'' then ''Edge''
      else if Contains ua ''opr/'' \<or> Contains ua ''opera'' then ''Opera''
      else if Contains ua ''firefox/'' \<or> Contains ua ''fxios/'' then ''Firefox''
      else if Contains ua ''chrome/'' \<or> Contains ua ''crios/'' then ''Chrome''
      else if Contains ua ''safari/'' then ''Safari''
      else if Contains ua ''curl/'' then ''curl''
      else if Contains ua ''python'' \<or> Contains ua ''go-http-client'' \<or> Contains ua ''okhttp'' then ''API client''
      else [])"

definition device_os :: "string \<Rightarrow> string" where
  "device_os ua =
     (if Contains ua ''android'' then ''Android''
      else if Contains ua ''iphone'' \<or> Contains ua ''ipad'' \<or> Contains ua ''ipod'' then ''iOS''
      else if Contains ua ''windows'' then ''Windows''
      else if Contains ua ''mac os x'' \<or> Contains ua ''macintosh'' then ''macOS''
      else if Contains ua ''cros'' then ''ChromeOS''
      else if Contains ua ''linux'' \<or> Contains ua ''x11'' then ''Linux''
      else [])"

definition DeviceLabel :: "platform \<Rightarrow> string \<Rightarrow> string" where
  "DeviceLabel P userAgent =
     (let ua = lower P userAgent; browser = device_browser ua; os = device_os ua in
      if ua = [] \<or> length userAgent > 2048 then ''Unknown device''
      else if browser \<noteq> [] \<and> os \<noteq> [] then browser @ '' on '' @ os
      else if browser \<noteq> [] then browser
      else if os \<noteq> [] then os
      else ''Unknown device'')"

subsection \<open>audit.go\<close>

definition auditEmailReference :: "env \<Rightarrow> string \<Rightarrow> string" where
  "auditEmailReference E email = AuditReference (plat E) (jwt_secret E) ''email'' (NormalizeEmail (plat E) email)"

definition auditIPReference :: "env \<Rightarrow> string \<Rightarrow> string" where
  "auditIPReference E ip = AuditReference (plat E) (jwt_secret E) ''ip'' ip"

definition logAuthEvent :: "env \<Rightarrow> time \<Rightarrow> string \<Rightarrow> string \<Rightarrow> string \<Rightarrow> server \<Rightarrow> server" where
  "logAuthEvent E now event email ip s =
     s\<lparr>sdb := LogAuthEvent now event (auditEmailReference E email) (auditIPReference E ip) (sdb s)\<rparr>"

definition countRecentAuthEvents :: "env \<Rightarrow> time \<Rightarrow> string \<Rightarrow> string \<Rightarrow> int \<Rightarrow> server \<Rightarrow> nat" where
  "countRecentAuthEvents E now event email windowMinutes s =
     CountRecentAuthEvents now event (auditEmailReference E email) windowMinutes (sdb s)"

subsection \<open>The context of a request\<close>

definition GetUserID :: "request \<Rightarrow> int" where
  "GetUserID r = (case x_claims r of None \<Rightarrow> 0 | Some c \<Rightarrow> UserID c)"

definition IsAdmin :: "request \<Rightarrow> bool" where
  "IsAdmin r = (x_role r = Some ''admin'')"

definition GetDBEmail :: "request \<Rightarrow> string" where
  "GetDBEmail r = (case x_email r of None \<Rightarrow> [] | Some e \<Rightarrow> e)"

definition AuthSource :: "request \<Rightarrow> string" where
  "AuthSource r = (case x_source r of None \<Rightarrow> [] | Some a \<Rightarrow> a)"

definition SessionID :: "request \<Rightarrow> string" where
  "SessionID r = (case x_claims r of None \<Rightarrow> [] | Some c \<Rightarrow> cl_session c)"

definition RequestKey :: "request \<Rightarrow> string" where
  "RequestKey r =
     (if GetUserID r \<noteq> 0 then ''user:'' @ Itoa (GetUserID r) else ClientNetwork r @ '':'' @ ClientIP r)"

text \<open>\<open>Allow\<close> on one of the limiters of the state.\<close>

definition charge_anon ::
    "(server \<Rightarrow> AnonLimiter) \<Rightarrow> ((AnonLimiter \<Rightarrow> AnonLimiter) \<Rightarrow> server \<Rightarrow> server) \<Rightarrow> time \<Rightarrow> request \<Rightarrow> server \<Rightarrow> bool \<times> server" where
  "charge_anon get upd now r s =
     (let (ok, l) = Anon_Allow now (ClientNetwork r) (ClientIP r) (get s) in (ok, upd (\<lambda>_. l) s))"

definition charge ::
    "(server \<Rightarrow> CrawlLimiter) \<Rightarrow> ((CrawlLimiter \<Rightarrow> CrawlLimiter) \<Rightarrow> server \<Rightarrow> server) \<Rightarrow> time \<Rightarrow> request \<Rightarrow> int \<Rightarrow> server \<Rightarrow> bool \<times> server" where
  "charge get upd now r n s = (let (ok, l) = AllowN now (RequestKey r) n (get s) in (ok, upd (\<lambda>_. l) s))"

subsection \<open>session.go and cache.go\<close>

definition sessionCookie :: string where "sessionCookie = ''os_session''"
definition csrfCookie :: string where "csrfCookie = ''os_csrf''"
definition csrfHeader :: string where "csrfHeader = ''X-CSRF-Token''"

definition isHTTPS :: "request \<Rightarrow> bool" where
  "isHTTPS r = (r_header r ''X-Forwarded-Proto'' = ''https'')"

definition newCSRFToken :: "bytes \<Rightarrow> string" where "newCSRFToken b = hex_encode b"

definition setSessionCookies :: "request \<Rightarrow> string \<Rightarrow> string \<Rightarrow> cookie list" where
  "setSessionCookies r token csrf =
     (let mk = (\<lambda>name v http. \<lparr>ck_name = name, ck_value = v, ck_path = ''/'', ck_maxAge = TokenTTL div Second,
                  ck_httpOnly = http, ck_secure = isHTTPS r, ck_sameSite = ''Strict''\<rparr>) in
      [mk sessionCookie token True, mk csrfCookie csrf False])"

definition clearSessionCookies :: "request \<Rightarrow> cookie list" where
  "clearSessionCookies r =
     map (\<lambda>name. \<lparr>ck_name = name, ck_value = [], ck_path = ''/'', ck_maxAge = - 1,
            ck_httpOnly = (name = sessionCookie), ck_secure = isHTTPS r, ck_sameSite = ''Strict''\<rparr>)
       [sessionCookie, csrfCookie]"

definition CSRFProtect :: "handler \<Rightarrow> handler" where
  "CSRFProtect next r s =
     (if r_method r \<in> {''GET'', ''HEAD'', ''OPTIONS''} then next r s
      else if AuthSource r \<noteq> ''cookie'' then next r s
      else case r_cookie r csrfCookie of
        None \<Rightarrow> (WriteJSONError 403 ''Missing CSRF token'', s)
      | Some v \<Rightarrow>
          if v = [] then (WriteJSONError 403 ''Missing CSRF token'', s)
          else if r_header r csrfHeader \<noteq> v then (WriteJSONError 403 ''Invalid CSRF token'', s)
          else next r s)"

definition NoStore :: "handler \<Rightarrow> handler" where
  "NoStore next r s =
     (let (resp, s') = next r s in
      (resp\<lparr>headers := AList.update ''Cache-Control'' ''no-store'' (headers resp)\<rparr>, s'))"

subsection \<open>middleware.go\<close>

definition authSourceHeader :: string where "authSourceHeader = ''header''"
definition authSourceCookie :: string where "authSourceCookie = ''cookie''"

definition presented_token :: "request \<Rightarrow> string \<times> string" where
  "presented_token r =
     (if HasPrefix (r_header r ''Authorization'') ''Bearer ''
      then (TrimPrefix (r_header r ''Authorization'') ''Bearer '', authSourceHeader)
      else case r_cookie r sessionCookie of
        Some v \<Rightarrow> if v \<noteq> [] then (v, authSourceCookie) else ([], [])
      | None \<Rightarrow> ([], []))"

definition JWTMiddleware :: "env \<Rightarrow> time \<Rightarrow> handler \<Rightarrow> handler" where
  "JWTMiddleware E now next r s =
     (let (tokenStr, source) = presented_token r in
      if tokenStr = [] then next r s
      else case ValidateToken (jwt E) (jwt_secret E) now tokenStr of
        None \<Rightarrow>
          ((WriteJSONError 401 ''Invalid or expired token'')
             \<lparr>set_cookies := (if source = authSourceCookie then clearSessionCookies r else [])\<rparr>, s)
      | Some c \<Rightarrow> next (r\<lparr>x_claims := Some c, x_source := Some source\<rparr>) s)"

definition RequireAuth :: "handler \<Rightarrow> handler" where
  "RequireAuth next r s =
     (if x_claims r = None then (WriteJSONError 401 ''Authentication required'', s) else next r s)"

definition sessionTouchInterval :: duration where "sessionTouchInterval = 5 * Minute"

definition LoadDBRole :: "time \<Rightarrow> handler \<Rightarrow> handler" where
  "LoadDBRole now next r s =
     (if GetUserID r = 0 then next r s
      else case GetUserAuthInfo (GetUserID r) (sdb s) of
        None \<Rightarrow> (WriteJSONError 401 ''Session no longer valid'', s)
      | Some (email, role, tokenVersion) \<Rightarrow>
          let r' = r\<lparr>x_role := Some role, x_email := Some email\<rparr> in
          (case x_claims r of
             None \<Rightarrow> next r' s
           | Some c \<Rightarrow>
               if cl_version c \<noteq> tokenVersion
               then (WriteJSONError 401 ''Session has been revoked, please log in again'', s)
               else if cl_session c = [] then next r' s
               else if \<not> SessionActive now (GetUserID r) (cl_session c) (sdb s)
               then ((WriteJSONError 401 ''This session has been signed out'')
                       \<lparr>set_cookies := clearSessionCookies r\<rparr>, s)
               else next r' (s\<lparr>sdb := TouchSession now (cl_session c) sessionTouchInterval (sdb s)\<rparr>)))"

definition RequireAdminDB :: "bool \<Rightarrow> handler \<Rightarrow> handler" where
  "RequireAdminDB requireMFA next r s =
     (if GetUserID r = 0 then (WriteJSONError 401 ''Authentication required'', s)
      else if \<not> IsAdmin r then (WriteJSONError 403 ''Admin role required'', s)
      else if requireMFA then
        (case GetTOTPState (GetUserID r) (sdb s) of
           Inl e \<Rightarrow> (WriteJSONError 500 ''Internal error'', s)
         | Inr st \<Rightarrow>
             if \<not> ts_enabled st
             then (WriteJSONError 403 ''Administrative actions require two-factor authentication. Enrol at /api/auth/totp/setup.'', s)
             else next r s)
      else next r s)"

end
