(* ===== verification/Auth_Handlers.thy ===== *)
theory Auth_Handlers
  imports Http
begin

section \<open>Registration, login, second factor, sessions: the auth handlers of internal/api\<close>

text \<open>
  \<open>auth_handlers.go\<close>, \<open>totp_handlers.go\<close>, \<open>session_handlers.go\<close> and the re-authentication of
  \<open>privacy_handlers.go\<close>. A handler runs at one instant \<open>now\<close>. The calls of \<open>CheckAgainstDummy\<close> have
  no effect but their duration and leave no trace here.
\<close>

abbreviation log_event :: "env \<Rightarrow> time \<Rightarrow> request \<Rightarrow> string \<Rightarrow> string \<Rightarrow> server \<Rightarrow> server" where
  "log_event E now r event email s \<equiv> logAuthEvent E now event email (ClientIP r) s"

abbreviation set_db :: "db \<Rightarrow> server \<Rightarrow> server" where
  "set_db d s \<equiv> s\<lparr>sdb := d\<rparr>"

abbreviation post_mail :: "mail \<Rightarrow> server \<Rightarrow> server" where
  "post_mail m s \<equiv> s\<lparr>outbox := outbox s @ [m]\<rparr>"

text \<open>Single quotes and the dash of the messages, which are UTF-8.\<close>

definition quoted :: "string \<Rightarrow> string" where "quoted t = [chr 39] @ t @ [chr 39]"

definition em_dash :: string where "em_dash = map chr [226, 128, 148]"

definition internal_error :: response where
  "internal_error = WriteJSONError 500 ''Internal error''"

subsection \<open>Registration\<close>

record credentials =
  rq_email :: string
  rq_password :: string

definition handleRegister :: "env \<Rightarrow> time \<Rightarrow> bytes \<Rightarrow> bytes \<Rightarrow> credentials option \<Rightarrow> handler" where
  "handleRegister E now salt tokenBytes req0 r s =
     (if \<not> AllowRegistration (cfg E) then (WriteJSONError 403 ''Registration is currently closed'', s)
      else let (ok, s1) = charge_anon registerLim registerLim_update now r s in
      if \<not> ok then (WriteJSONError 429 ''Too many registrations from this IP. Please try again later.'', s1)
      else case req0 of
        None \<Rightarrow> (WriteJSONError 400 ''Invalid data'', s1)
      | Some req \<Rightarrow>
          let email = NormalizeEmail (plat E) (rq_email req) in
          if \<not> EmailRegex email \<or> length email > 254 then (WriteJSONError 400 ''Invalid email'', s1)
          else case ValidatePassword (rq_password req) of
            Some err \<Rightarrow> (WriteJSONError 400 err, s1)
          | None \<Rightarrow>
              if countRecentAuthEvents E now ''register_ok'' email 60 s1 \<ge> 3
              then (WriteJSONError 429 ''This email has already received too many verification emails. Try again in an hour.'', s1)
              else case HashPassword (plat E) salt (rq_password req) of
                None \<Rightarrow> (WriteJSONError 400 ''Password cannot be processed'', s1)
              | Some hash \<Rightarrow>
                  let token = GenerateVerificationToken tokenBytes;
                      (res, d) = CreateRegisteredUser (plat E) now email hash token (AdminEmail (cfg E)) (sdb s1)
                  in (case res of
                       Inl err \<Rightarrow>
                         (if err = ErrEmailInUse then WriteJSONError 400 ''Error: email already in use or invalid data''
                          else internal_error,
                          log_event E now r ''register_fail'' email (set_db d s1))
                     | Inr role \<Rightarrow>
                         (message 201 ''Account created! Please check your email.'',
                          post_mail (VerificationMail email token)
                            (log_event E now r ''register_ok'' email (set_db d s1)))))"

subsection \<open>The second factor\<close>

definition verifySecondFactor :: "env \<Rightarrow> time \<Rightarrow> int \<Rightarrow> TOTPState \<Rightarrow> string \<Rightarrow> server \<Rightarrow> bool \<times> server" where
  "verifySecondFactor E now userID state code s =
     (if code = [] then (False, s)
      else let (step, ok) = ValidateTOTP (plat E) (ts_secret state) code (now div Second) in
      if ok then
        (case ConsumeTOTPStep userID (sint step) (sdb s) of
           (Inl _, d) \<Rightarrow> (False, set_db d s)
         | (Inr _, d) \<Rightarrow> (True, set_db d s))
      else
        (case ConsumeRecoveryCode now userID
            (RecoveryCodeHash (plat E) (NormalizeRecoveryCode (plat E) code)) (sdb s) of
           (Inl _, d) \<Rightarrow> (False, set_db d s)
         | (Inr used, d) \<Rightarrow> (used, set_db d s)))"

subsection \<open>Login\<close>

record loginRequest =
  lg_email :: string
  lg_password :: string
  lg_mode :: string
  lg_code :: string

text \<open>The upgrade of a legacy hash; every failure is only logged.\<close>

definition login_rehash :: "env \<Rightarrow> bytes \<Rightarrow> User \<Rightarrow> string \<Rightarrow> server \<Rightarrow> server" where
  "login_rehash E salt user password s =
     (if NeedsRehash (PasswordHash user) then
        (case HashPassword (plat E) salt password of
           None \<Rightarrow> s
         | Some newHash \<Rightarrow> set_db (snd (UpgradePasswordHash (ID user) (PasswordHash user) newHash (sdb s))) s)
      else s)"

definition login_issue ::
    "env \<Rightarrow> time \<Rightarrow> bytes \<Rightarrow> bytes \<Rightarrow> string \<Rightarrow> string \<Rightarrow> User \<Rightarrow> request \<Rightarrow> server \<Rightarrow> response \<times> server" where
  "login_issue E now sidBytes csrfBytes email mode user r s =
     (let sessionID = NewSessionID sidBytes;
          (res, d) = CreateSession now (ID user) sessionID (DeviceLabel (plat E) (r_header r ''User-Agent''))
                       (now + TokenTTL) (sdb s)
      in case res of
           Inl _ \<Rightarrow> (internal_error, set_db d s)
         | Inr _ \<Rightarrow>
             let token = GenerateToken (jwt E) (jwt_secret E) now (ID user) (TokenVersion user) sessionID;
                 s' = log_event E now r ''login_ok'' email (set_db d s);
                 fields = [(''role'', FStr (Role user)), (''email'', FStr (Email user))]
             in (if mode = ''bearer'' then json_reply 200 (Obj (fields @ [(''token'', FStr token)]))
                 else (json_reply 200 (Obj fields))
                        \<lparr>set_cookies := setSessionCookies r token (newCSRFToken csrfBytes)\<rparr>, s'))"

definition login_factor ::
    "env \<Rightarrow> time \<Rightarrow> bytes \<Rightarrow> bytes \<Rightarrow> bytes \<Rightarrow> string \<Rightarrow> string \<Rightarrow> loginRequest \<Rightarrow> User \<Rightarrow> request \<Rightarrow> server \<Rightarrow> response \<times> server" where
  "login_factor E now salt sidBytes csrfBytes email mode req user r s =
     (case GetTOTPState (ID user) (sdb s) of
        Inl _ \<Rightarrow> (internal_error, s)
      | Inr state \<Rightarrow>
          if ts_enabled state \<and> lg_code req = []
          then (writeNoStoreJSON 401 (Obj [(''error'', FStr ''Two-factor code required''), (''totp_required'', FBool True)]), s)
          else let (ok, s1) = (if ts_enabled state then verifySecondFactor E now (ID user) state (lg_code req) s
                               else (True, s)) in
            if \<not> ok
            then (writeNoStoreJSON 401 (Obj [(''error'', FStr ''Invalid two-factor code''), (''totp_required'', FBool True)]),
                  log_event E now r ''login_fail'' email s1)
            else login_issue E now sidBytes csrfBytes email mode user r
                   (login_rehash E salt user (lg_password req) s1))"

definition handleLogin :: "env \<Rightarrow> time \<Rightarrow> bytes \<Rightarrow> bytes \<Rightarrow> bytes \<Rightarrow> loginRequest option \<Rightarrow> handler" where
  "handleLogin E now salt sidBytes csrfBytes req0 r s =
     (let (ok, s1) = charge_anon loginLim loginLim_update now r s in
      if \<not> ok then (WriteJSONError 429 ''Too many login attempts. Please try again in 1 minute.'', s1)
      else case req0 of
        None \<Rightarrow> (WriteJSONError 400 ''Invalid data'', s1)
      | Some req \<Rightarrow>
          let email = NormalizeEmail (plat E) (lg_email req);
              mode = (if lg_mode req = [] then ''cookie'' else lg_mode req)
          in if email = [] \<or> lg_password req = []
             then (WriteJSONError 400 ''Email and password are required'', s1)
             else if mode \<noteq> ''cookie'' \<and> mode \<noteq> ''bearer''
             then (WriteJSONError 400 (''Mode must be '' @ quoted ''cookie'' @ '' or '' @ quoted ''bearer''), s1)
             else if countRecentAuthEvents E now ''login_fail'' email 15 s1 \<ge> 5
             then (WriteJSONError 429 ''Account temporarily locked due to too many failed attempts. Wait 15 minutes.'',
                   log_event E now r ''login_locked'' email s1)
             else case GetUserByEmail (plat E) email (sdb s1) of
               Inl _ \<Rightarrow> (internal_error, s1)
             | Inr None \<Rightarrow> (WriteJSONError 401 ''Invalid credentials'', log_event E now r ''login_fail'' email s1)
             | Inr (Some user) \<Rightarrow>
                 if \<not> CheckPasswordHash (plat E) (lg_password req) (PasswordHash user)
                 then (WriteJSONError 401 ''Invalid credentials'', log_event E now r ''login_fail'' email s1)
                 else if \<not> IsVerified user
                 then (WriteJSONError 403 ''Account is not yet verified'', log_event E now r ''login_unverified'' email s1)
                 else login_factor E now salt sidBytes csrfBytes email mode req user r s1)"

subsection \<open>Identity and logout\<close>

definition handleMe :: "env \<Rightarrow> handler" where
  "handleMe E r s =
     (if GetUserID r = 0 then (WriteJSONError 401 ''Authentication required'', s)
      else let role = (if IsAdmin r then ''admin'' else ''user'');
               pending = (case GetPrivacySettings (GetUserID r) (sdb s) of
                   Inl _ \<Rightarrow> []
                 | Inr st \<Rightarrow> (case DeletionScheduledFor st of
                     None \<Rightarrow> [] | Some t \<Rightarrow> [(''deletion_scheduled_for'', FTime t)]))
        in (writeNoStoreJSON 200 (Obj ([(''email'', FStr (GetDBEmail r)), (''role'', FStr role)] @ pending)), s))"

definition handleLogout :: "time \<Rightarrow> handler" where
  "handleLogout now r s =
     (let s' = (if SessionID r \<noteq> [] then set_db (RevokeSessionByToken now (SessionID r) (sdb s)) s else s) in
      ((writeNoStoreJSON 200 (Obj [(''message'', FStr ''Signed out.'')]))\<lparr>set_cookies := clearSessionCookies r\<rparr>, s'))"

definition handleLogoutAll :: "time \<Rightarrow> handler" where
  "handleLogoutAll now r s =
     (let uid = GetUserID r; d = RevokeAllSessions now uid [] (BumpTokenVersion uid (sdb s)) in
      ((writeNoStoreJSON 200 (Obj [(''message'', FStr ''All sessions have been logged out.'')]))
         \<lparr>set_cookies := clearSessionCookies r\<rparr>, set_db d s))"

subsection \<open>Verification\<close>

definition html_escape :: "string \<Rightarrow> string" where
  "html_escape s = concat (map (\<lambda>c.
     if c = CHR ''<'' then ''&lt;'' else if c = CHR ''>'' then ''&gt;'' else if c = CHR ''&'' then ''&amp;''
     else if byte c = 39 then ''&#39;'' else if byte c = 34 then ''&#34;'' else [c]) s)"

text \<open>The page around the hidden field is constant; only the field's value varies.\<close>

definition verify_form :: "string \<Rightarrow> string" where
  "verify_form token =
     ''<input type='' @ [chr 34] @ ''hidden'' @ [chr 34] @ '' name='' @ [chr 34] @ ''token'' @ [chr 34] @
     '' value='' @ [chr 34] @ html_escape token @ [chr 34] @ ''>''"

definition html_reply :: "(string \<times> string) list \<Rightarrow> string \<Rightarrow> response" where
  "html_reply extra doc =
     \<lparr>status = 200,
      headers = [(''Content-Type'', ''text/html; charset=utf-8''), (''Cache-Control'', ''no-store'')] @ extra,
      set_cookies = [], body = Html doc\<rparr>"

definition handleVerifyGET :: "time \<Rightarrow> handler" where
  "handleVerifyGET now r s =
     (let (ok, s1) = charge_anon verifyLim verifyLim_update now r s; token = r_query r ''token'' in
      if \<not> ok then (WriteJSONError 429 ''Too many attempts. Please try again in 1 minute.'', s1)
      else if length token < 16 \<or> length token > 128 then (WriteJSONError 400 ''Invalid token'', s1)
      else if \<not> TokenSafeRE token then (WriteJSONError 400 ''Invalid token'', s1)
      else (html_reply [(''X-Robots-Tag'', ''noindex, nofollow'')] (verify_form token), s1))"

definition handleVerifyPOST :: "env \<Rightarrow> time \<Rightarrow> string option \<Rightarrow> handler" where
  "handleVerifyPOST E now req0 r s =
     (let (ok, s1) = charge_anon verifyLim verifyLim_update now r s in
      if \<not> ok then (WriteJSONError 429 ''Too many attempts. Please try again in 1 minute.'', s1)
      else case req0 of
        None \<Rightarrow> (WriteJSONError 400
            (if HasPrefix (r_header r ''Content-Type'') ''application/json'' then ''Invalid body'' else ''Invalid form''), s1)
      | Some token \<Rightarrow>
          if length token < 16 \<or> length token > 128 \<or> \<not> TokenSafeRE token
          then (WriteJSONError 400 ''Invalid token'', s1)
          else (case VerifyUser (plat E) now token (sdb s1) of
              (Inl _, d) \<Rightarrow> (WriteJSONError 400 ''Token invalid, expired or already used'', set_db d s1)
            | (Inr _, d) \<Rightarrow>
                (if Contains (r_header r ''Accept'') ''application/json''
                 then message 200 ''Account successfully verified. You can now log in.''
                 else html_reply [] ''Account successfully verified!'', set_db d s1)))"

subsection \<open>Password reset\<close>

definition generic_reset_reply :: response where
  "generic_reset_reply =
     message 200 ''If an account exists for that address, a reset link has been sent.''"

definition handleForgotPassword :: "env \<Rightarrow> time \<Rightarrow> bytes \<Rightarrow> string option \<Rightarrow> handler" where
  "handleForgotPassword E now tokenBytes req0 r s =
     (let (ok, s1) = charge_anon resetLim resetLim_update now r s in
      if \<not> ok then (WriteJSONError 429 ''Too many reset requests. Please try again later.'', s1)
      else case req0 of
        None \<Rightarrow> (WriteJSONError 400 ''Invalid data'', s1)
      | Some email0 \<Rightarrow>
          let email = NormalizeEmail (plat E) email0 in
          (generic_reset_reply,
           if EmailRegex email \<and> length email \<le> 254 then
             (if countRecentAuthEvents E now ''reset_request'' email 60 s1 \<ge> 3 then s1
              else let token = GenerateVerificationToken tokenBytes;
                       (res, d) = SetResetToken (plat E) now email token (sdb s1)
                in (case res of
                      Inr True \<Rightarrow> post_mail (ResetMail email token)
                          (log_event E now r ''reset_request'' email (set_db d s1))
                    | _ \<Rightarrow> set_db d s1))
           else s1))"

definition handleResetPassword :: "env \<Rightarrow> time \<Rightarrow> bytes \<Rightarrow> (string \<times> string) option \<Rightarrow> handler" where
  "handleResetPassword E now salt req0 r s =
     (let (ok, s1) = charge_anon resetLim resetLim_update now r s in
      if \<not> ok then (WriteJSONError 429 ''Too many attempts. Please try again later.'', s1)
      else case req0 of
        None \<Rightarrow> (WriteJSONError 400 ''Invalid data'', s1)
      | Some (token, password) \<Rightarrow>
          if length token < 16 \<or> length token > 128 \<or> \<not> TokenSafeRE token
          then (WriteJSONError 400 ''Invalid token'', s1)
          else case ValidatePassword password of
            Some err \<Rightarrow> (WriteJSONError 400 err, s1)
          | None \<Rightarrow>
              (case HashPassword (plat E) salt password of
                 None \<Rightarrow> (WriteJSONError 400 ''Password cannot be processed'', s1)
               | Some hash \<Rightarrow>
                   (case ResetPassword (plat E) now token hash (sdb s1) of
                      (Inl _, d) \<Rightarrow> (WriteJSONError 400 ''Token invalid, expired or already used'', set_db d s1)
                    | (Inr _, d) \<Rightarrow>
                        (message 200 ''Password updated. Please log in with your new password.'', set_db d s1))))"

subsection \<open>Sessions\<close>

definition handleSessions :: "time \<Rightarrow> handler" where
  "handleSessions now r s =
     (writeNoStoreJSON 200 (JSessions (ListSessions now (GetUserID r) (SessionID r) (sdb s))), s)"

definition handleRevokeSession :: "time \<Rightarrow> handler" where
  "handleRevokeSession now r s =
     (case Atoi (r_param r ''id'') of
        None \<Rightarrow> (WriteJSONError 400 ''Invalid session id'', s)
      | Some i \<Rightarrow>
          if i \<le> 0 then (WriteJSONError 400 ''Invalid session id'', s)
          else let (revoked, d) = RevokeSession now (GetUserID r) i (sdb s) in
            if \<not> revoked then (WriteJSONError 404 ''Session not found'', set_db d s)
            else (writeNoStoreJSON 200 (Obj [(''message'', FStr ''Session signed out.'')]), set_db d s))"

subsection \<open>Second-factor management\<close>

definition totpIssuer :: string where "totpIssuer = ''Onion Spider''"

definition handleTOTPStatus :: "env \<Rightarrow> handler" where
  "handleTOTPStatus E r s =
     (case GetTOTPState (GetUserID r) (sdb s) of
        Inl _ \<Rightarrow> (internal_error, s)
      | Inr state \<Rightarrow>
          let remaining = (if ts_enabled state then CountUnusedRecoveryCodes (GetUserID r) (sdb s) else 0) in
          (writeNoStoreJSON 200 (Obj
             [(''enabled'', FBool (ts_enabled state)),
              (''required'', FBool (RequireAdminMFA (cfg E) \<and> IsAdmin r)),
              (''recovery_codes_remaining'', FInt (int remaining))]), s))"

definition handleTOTPSetup :: "bytes \<Rightarrow> handler" where
  "handleTOTPSetup secretBytes r s =
     (let secret = GenerateTOTPSecret secretBytes in
      case StageTOTPSecret (GetUserID r) secret (sdb s) of
        (Inl _, d) \<Rightarrow>
          (WriteJSONError 409 ''Two-factor authentication is already enabled. Disable it first to re-enrol.'', set_db d s)
      | (Inr _, d) \<Rightarrow>
          (writeNoStoreJSON 200 (Obj
             [(''secret'', FStr secret),
              (''provisioning_uri'', FStr (TOTPProvisioningURI secret (GetDBEmail r) totpIssuer))]), set_db d s))"

definition handleTOTPConfirm :: "env \<Rightarrow> time \<Rightarrow> (nat \<Rightarrow> bytes) \<Rightarrow> string option \<Rightarrow> handler" where
  "handleTOTPConfirm E now codeBytes req0 r s =
     (case req0 of
        None \<Rightarrow> (WriteJSONError 400 ''Invalid body'', s)
      | Some code \<Rightarrow>
          (case GetTOTPState (GetUserID r) (sdb s) of
             Inl _ \<Rightarrow> (internal_error, s)
           | Inr state \<Rightarrow>
               if ts_enabled state then (WriteJSONError 409 ''Two-factor authentication is already enabled'', s)
               else if ts_secret state = [] then (WriteJSONError 400 ''Start enrolment first'', s)
               else let (step, ok) = ValidateTOTP (plat E) (ts_secret state) code (now div Second) in
                 if \<not> ok
                 then (WriteJSONError 400 (''That code is not valid. Check your device'' @ [chr 39] @ ''s clock and try the current code.''), s)
                 else let plain = map (\<lambda>i. GenerateRecoveryCode (codeBytes i)) [0..<RecoveryCodeCount];
                          hashes = map (RecoveryCodeHash (plat E)) plain in
                   (case ConfirmTOTP now (GetUserID r) (sint step) hashes (sdb s) of
                      (Inl _, d) \<Rightarrow>
                        (WriteJSONError 409 ''Could not enable two-factor authentication. Start enrolment again.'', set_db d s)
                    | (Inr _, d) \<Rightarrow>
                        (writeNoStoreJSON 200 (Obj
                           [(''enabled'', FBool True), (''recovery_codes'', FStrs plain),
                            (''message'', FStr (''Two-factor authentication is on. Store these recovery codes now '' @ em_dash @ '' they are not shown again.''))]),
                         log_event E now r ''totp_enabled'' (GetDBEmail r) (set_db d s)))))"

definition handleTOTPDisable :: "env \<Rightarrow> time \<Rightarrow> (string \<times> string) option \<Rightarrow> handler" where
  "handleTOTPDisable E now req0 r s =
     (case req0 of
        None \<Rightarrow> (WriteJSONError 400 ''Invalid body'', s)
      | Some (password, code) \<Rightarrow>
          (case GetUserByEmail (plat E) (GetDBEmail r) (sdb s) of
             Inr (Some user) \<Rightarrow>
               if \<not> CheckPasswordHash (plat E) password (PasswordHash user)
               then (WriteJSONError 401 ''Invalid credentials'', log_event E now r ''totp_disable_fail'' (Email user) s)
               else (case GetTOTPState (GetUserID r) (sdb s) of
                   Inl _ \<Rightarrow> (internal_error, s)
                 | Inr state \<Rightarrow>
                     if \<not> ts_enabled state
                     then (WriteJSONError 400 ''Two-factor authentication is not enabled'', s)
                     else let (ok, s1) = verifySecondFactor E now (GetUserID r) state code s in
                       if \<not> ok
                       then (WriteJSONError 401 ''Invalid code'', log_event E now r ''totp_disable_fail'' (Email user) s1)
                       else (writeNoStoreJSON 200 (Obj [(''message'', FStr ''Two-factor authentication is off.'')]),
                             log_event E now r ''totp_disabled'' (Email user)
                               (set_db (DisableTOTP (GetUserID r) (sdb s1)) s1)))
           | _ \<Rightarrow> (internal_error, s)))"

subsection \<open>Re-authentication\<close>

datatype reauth = ReauthFailed | ReauthError | Reauthenticated User

definition reauthenticate :: "env \<Rightarrow> time \<Rightarrow> request \<Rightarrow> string \<Rightarrow> string \<Rightarrow> server \<Rightarrow> reauth \<times> server" where
  "reauthenticate E now r password code s =
     (case GetUserByEmail (plat E) (GetDBEmail r) (sdb s) of
        Inl _ \<Rightarrow> (ReauthError, s)
      | Inr None \<Rightarrow> (ReauthFailed, s)
      | Inr (Some user) \<Rightarrow>
          if ID user \<noteq> GetUserID r then (ReauthFailed, s)
          else if \<not> CheckPasswordHash (plat E) password (PasswordHash user) then (ReauthFailed, s)
          else (case GetTOTPState (GetUserID r) (sdb s) of
              Inl _ \<Rightarrow> (ReauthError, s)
            | Inr state \<Rightarrow>
                let (ok, s1) = (if ts_enabled state then verifySecondFactor E now (GetUserID r) state code s
                                else (True, s)) in
                if ok then (Reauthenticated user, s1) else (ReauthFailed, s1)))"

definition requireReauth ::
    "env \<Rightarrow> time \<Rightarrow> string \<Rightarrow> string \<Rightarrow> string \<Rightarrow> request \<Rightarrow> server \<Rightarrow> (response + User) \<times> server" where
  "requireReauth E now action password code r s =
     (let (ok, s1) = charge sensitiveLim sensitiveLim_update now r 1 s in
      if \<not> ok then (Inl (WriteJSONError 429 ''Too many attempts. Please try again later.''), s1)
      else (case reauthenticate E now r password code s1 of
          (Reauthenticated user, s2) \<Rightarrow> (Inr user, s2)
        | (ReauthFailed, s2) \<Rightarrow>
            (Inl (WriteJSONError 401 ''Invalid credentials''),
             log_event E now r (action @ ''_denied'') (GetDBEmail r) s2)
        | (ReauthError, s2) \<Rightarrow> (Inl internal_error, s2)))"

end
