(* ===== verification/Site_Handlers.thy ===== *)
theory Site_Handlers
  imports Auth_Handlers
begin

section \<open>Crawling, graph, annotations, privacy, exports: the other handlers of internal/api\<close>

text \<open>
  \<open>crawl_handlers.go\<close>, \<open>nodes_handlers.go\<close>, \<open>blacklist_handlers.go\<close>, \<open>stats_handlers.go\<close>,
  \<open>annotation_handlers.go\<close>, \<open>privacy_handlers.go\<close> and \<open>export_handlers.go\<close>. Writing to the
  client does not fail here, so an export runs to its end; the spreadsheet and the PDF are the cells
  handed to their libraries.
\<close>

subsection \<open>crawl_handlers.go\<close>

definition AddToQueue :: "env \<Rightarrow> time \<Rightarrow> string \<Rightarrow> int \<Rightarrow> db \<Rightarrow> unit result \<times> db" where
  "AddToQueue E now rawURL userID d = EnqueueURL (plat E) now rawURL 0 userID (MaxPendingPerUser (cfg E)) d"

text \<open>The guard the three submitting handlers open with.\<close>

definition crawl_allowed :: "time \<Rightarrow> request \<Rightarrow> int \<Rightarrow> server \<Rightarrow> bool \<times> server" where
  "crawl_allowed now r n s = (if IsAdmin r then (True, s) else charge crawlLim crawlLim_update now r n s)"

definition handleCrawl :: "env \<Rightarrow> time \<Rightarrow> string option \<Rightarrow> handler" where
  "handleCrawl E now req0 r s =
     (let (ok, s1) = crawl_allowed now r 1 s in
      if \<not> ok then (WriteJSONError 429 ''Too many requests. Please try again in a few minutes.'', s1)
      else case req0 of
        None \<Rightarrow> (WriteJSONError 400 ''Invalid body'', s1)
      | Some raw \<Rightarrow>
          let url = NormalizeURL (plat E) raw in
          if \<not> IsV3URL (plat E) url
          then (WriteJSONError 400 ''Invalid URL: must be a valid .onion v3 URL (http/https)'', s1)
          else (case AddToQueue E now url (GetUserID r) (sdb s1) of
              (Inl err, d) \<Rightarrow>
                (if err = ErrBlacklisted then WriteJSONError 403 ''Domain blocked''
                 else if err = ErrQueueQuotaExceeded
                 then WriteJSONError 429 ''Crawl queue is full for this account. Wait for pending URLs to be crawled.''
                 else internal_error, set_db d s1)
            | (Inr _, d) \<Rightarrow> (message 202 ''URL added to the crawling queue'', set_db d s1)))"

definition handleRecrawl :: "env \<Rightarrow> time \<Rightarrow> string option \<Rightarrow> handler" where
  "handleRecrawl E now req0 r s =
     (let (ok, s1) = crawl_allowed now r 1 s in
      if \<not> ok then (WriteJSONError 429 ''Too many requests. Please try again in a few minutes.'', s1)
      else case req0 of
        None \<Rightarrow> (WriteJSONError 400 ''Invalid body'', s1)
      | Some raw \<Rightarrow>
          let url = NormalizeURL (plat E) raw in
          if \<not> IsV3URL (plat E) url then (WriteJSONError 400 ''Invalid URL'', s1)
          else (case RequeueForCrawl now url (GetUserID r) (sdb s1) of
              (Inl _, d) \<Rightarrow> (internal_error, set_db d s1)
            | (Inr (found, canRequeue), d) \<Rightarrow>
                (if \<not> found then WriteJSONError 404 ''URL does not exist in the database''
                 else if \<not> canRequeue then WriteJSONError 409 ''Node is already being crawled''
                 else message 202 ''Node has been queued for re-crawling'', set_db d s1)))"

text \<open>The loop of a batch: added, skipped, and whether the quota stopped it.\<close>

fun bulk_loop :: "env \<Rightarrow> time \<Rightarrow> int \<Rightarrow> nat \<Rightarrow> string list \<Rightarrow> nat \<times> nat \<Rightarrow> db \<Rightarrow> (nat \<times> nat \<times> bool) \<times> db" where
  "bulk_loop E now uid batch [] (added, skipped) d = ((added, skipped, False), d)"
| "bulk_loop E now uid batch (u # us) (added, skipped) d =
     (let url = NormalizeURL (plat E) u in
      if \<not> IsV3URL (plat E) url then bulk_loop E now uid batch us (added, skipped + 1) d
      else case AddToQueue E now url uid d of
        (Inl err, d') \<Rightarrow>
          if err = ErrQueueQuotaExceeded then ((added, skipped + (batch - added - skipped), True), d')
          else bulk_loop E now uid batch us (added, skipped + 1) d'
      | (Inr _, d') \<Rightarrow> bulk_loop E now uid batch us (added + 1, skipped) d')"

definition handleCrawlBulk :: "env \<Rightarrow> time \<Rightarrow> string list option \<Rightarrow> handler" where
  "handleCrawlBulk E now req0 r s =
     (let (ok, s1) = crawl_allowed now r 1 s in
      if \<not> ok then (WriteJSONError 429 ''Too many requests. Please try again in a few minutes.'', s1)
      else case req0 of
        None \<Rightarrow> (WriteJSONError 400 ''Invalid body'', s1)
      | Some urls \<Rightarrow>
          if urls = [] \<or> length urls > 20
          then (WriteJSONError 400 (''Send 1-20 URLs in the '' @ quoted ''urls'' @ '' field''), s1)
          else let (ok2, s2) = crawl_allowed now r (int (length urls)) s1 in
            if \<not> ok2 then (WriteJSONError 429 ''Too many URLs submitted. Please try again in a few minutes.'', s2)
            else let ((added, skipped, quotaHit), d) = bulk_loop E now (GetUserID r) (length urls) urls (0, 0) (sdb s2);
                     counts = [(''added'', FInt (int added)), (''skipped'', FInt (int skipped))]
              in (if quotaHit
                  then json_reply 429 (Obj (counts @
                    [(''error'', FStr ''Crawl queue is full for this account. Wait for pending URLs to be crawled.'')]))
                  else json_reply 202 (Obj counts), set_db d s2))"

definition handleQueue :: handler where
  "handleQueue r s =
     (let (counts, items) = GetQueueSummary (GetUserID r) (IsAdmin r) (sdb s) in
      (json_reply 200 (JQueue counts items), s))"

subsection \<open>nodes_handlers.go\<close>

definition reply_result :: "('a \<Rightarrow> payload) \<Rightarrow> 'a result \<Rightarrow> response" where
  "reply_result f res = (case res of Inl _ \<Rightarrow> internal_error | Inr x \<Rightarrow> json_reply 200 (f x))"

definition handleNodes :: handler where
  "handleNodes r s =
     (let (limit, offset) = ParsePagination r in
      (reply_result JNodes (GetNodes limit offset (GetUserID r) (IsAdmin r) (sdb s)), s))"

definition handleNode :: "env \<Rightarrow> string option \<Rightarrow> handler" where
  "handleNode E req0 r s =
     (case req0 of
        None \<Rightarrow> (WriteJSONError 400 ''Invalid body'', s)
      | Some raw \<Rightarrow>
          let nodeURL = NormalizeURL (plat E) raw in
          if nodeURL = [] then (WriteJSONError 400 ''A valid onion URL is required'', s)
          else (case GetNodeByURL nodeURL (GetUserID r) (IsAdmin r) (sdb s) of
              Inl _ \<Rightarrow> (internal_error, s)
            | Inr None \<Rightarrow> (WriteJSONError 404 ''Node not found'', s)
            | Inr (Some n) \<Rightarrow> (json_reply 200 (JNode n), s)))"

definition handleEdges :: handler where
  "handleEdges r s =
     (let (limit, offset) = ParsePagination r in
      (reply_result JEdges (GetEdges limit offset (GetUserID r) (IsAdmin r) (sdb s)), s))"

definition handleSearch :: "env \<Rightarrow> time \<Rightarrow> (string \<times> string) option \<Rightarrow> handler" where
  "handleSearch E now req0 r s =
     (let (ok, s1) = charge searchLim searchLim_update now r 1 s in
      if \<not> ok then (WriteJSONError 429 (''Rate limit exceeded '' @ em_dash @ '' max 60 searches/minute''), s1)
      else case req0 of
        None \<Rightarrow> (WriteJSONError 400 ''Invalid body'', s1)
      | Some (query, category) \<Rightarrow>
          let q = TrimSpace query in
          if q = [] then (WriteJSONError 400 ''Search query is required'', s1)
          else if length q > 200 then (WriteJSONError 400 ''Query too long (max 200 characters)'', s1)
          else if length category > 50 then (WriteJSONError 400 ''Category too long'', s1)
          else (reply_result JNodes
                 (SearchNodes (ts_match E) (ts_rank E) q category (GetUserID r) (IsAdmin r) (sdb s1)), s1))"

subsection \<open>blacklist_handlers.go\<close>

definition handleBlacklistList :: handler where
  "handleBlacklistList r s = (json_reply 200 (Obj [(''domains'', FStrs (GetBlacklist (sdb s)))]), s)"

definition handleBlacklistAdd :: "env \<Rightarrow> time \<Rightarrow> string option \<Rightarrow> handler" where
  "handleBlacklistAdd E now req0 r s =
     (case req0 of
        None \<Rightarrow> (WriteJSONError 400 ''Invalid body'', s)
      | Some raw \<Rightarrow>
          let trimmed = lower (plat E) (TrimSpace raw); domain = NormalizeHostname (plat E) trimmed in
          if trimmed = [] then (WriteJSONError 400 (''The '' @ quoted ''domain'' @ '' field is required''), s)
          else if domain = [] then (WriteJSONError 400 ''Only valid v3 .onion domains can be blocked'', s)
          else (case AddBlacklist (plat E) now domain (sdb s) of
              (Inl _, d) \<Rightarrow> (internal_error, set_db d s)
            | (Inr _, d) \<Rightarrow> (message 200 (''Domain blocked: '' @ domain), set_db d s)))"

definition handleBlacklistDelete :: "env \<Rightarrow> time \<Rightarrow> handler" where
  "handleBlacklistDelete E now r s =
     (let domain = NormalizeHostname (plat E) (lower (plat E) (TrimSpace (r_param r ''domain''))) in
      if domain = [] then (WriteJSONError 400 ''Invalid domain: must be a valid v3 .onion domain'', s)
      else (case DeleteBlacklist (plat E) now domain (sdb s) of
          (Inl _, d) \<Rightarrow> (internal_error, set_db d s)
        | (Inr found, d) \<Rightarrow>
            (if \<not> found then WriteJSONError 404 ''Domain not found in blacklist''
             else message 200 (''Domain removed from blacklist: '' @ domain), set_db d s)))"

subsection \<open>stats_handlers.go\<close>

definition handleStatus :: "env \<Rightarrow> handler" where
  "handleStatus E r s =
     (let st = GetStats (GetUserID r) (IsAdmin r) (sdb s) in
      (json_reply 200 (Obj
         [(''status'', FStr ''online''), (''db_connected'', FBool True),
          (''nodes_crawled'', FInt (int (NodesCrawled st))), (''pending_nodes'', FInt (int (PendingNodes st))),
          (''failed_nodes'', FInt (int (FailedNodes st))), (''crawling_nodes'', FInt (int (CrawlingNodes st))),
          (''blocked_nodes'', FInt (int (BlockedNodes st))), (''total_edges'', FInt (int (TotalEdges st))),
          (''active_workers'', FInt (Workers (cfg E)))]), s))"

definition handleTimeline :: "time \<Rightarrow> handler" where
  "handleTimeline now r s =
     (json_reply 200 (Obj [(''timeline'', FTimeline (GetTimelineStats now (GetUserID r) (IsAdmin r) (sdb s)))]), s)"

subsection \<open>annotation_handlers.go\<close>

definition annotationError :: "db_error \<Rightarrow> response" where
  "annotationError err =
     (if err = ErrNodeNotFound then WriteJSONError 404 ''That site is not in your graph. Crawl it first.''
      else if err = ErrTooManyTags then WriteJSONError 400 ''That site already has the maximum number of tags.''
      else if err = ErrInvalidOnionURL then WriteJSONError 400 ''A valid onion URL is required''
      else internal_error)"

definition annotation_reply :: "env \<Rightarrow> string \<Rightarrow> request \<Rightarrow> db \<Rightarrow> response" where
  "annotation_reply E nodeURL r d =
     (case GetAnnotation (plat E) (coll E) nodeURL (GetUserID r) d of
        Inl err \<Rightarrow> annotationError err
      | Inr a \<Rightarrow> writeNoStoreJSON 200 (JAnnotation a))"

definition resolveAnnotationTarget :: "env \<Rightarrow> string \<Rightarrow> response + string" where
  "resolveAnnotationTarget E raw =
     (let nodeURL = NormalizeURL (plat E) raw in
      if nodeURL = [] then Inl (WriteJSONError 400 ''A valid onion URL is required'') else Inr nodeURL)"

definition handleAnnotation :: "env \<Rightarrow> string option \<Rightarrow> handler" where
  "handleAnnotation E req0 r s =
     (case req0 of
        None \<Rightarrow> (WriteJSONError 400 ''Invalid body'', s)
      | Some raw \<Rightarrow>
          (case resolveAnnotationTarget E raw of
             Inl resp \<Rightarrow> (resp, s)
           | Inr nodeURL \<Rightarrow> (annotation_reply E nodeURL r (sdb s), s)))"

record tagRequest =
  tg_url :: string
  tg_tag :: string
  tg_remove :: bool

definition handleTag :: "env \<Rightarrow> tagRequest option \<Rightarrow> handler" where
  "handleTag E req0 r s =
     (case req0 of
        None \<Rightarrow> (WriteJSONError 400 ''Invalid body'', s)
      | Some req \<Rightarrow>
          (case resolveAnnotationTarget E (tg_url req) of
             Inl resp \<Rightarrow> (resp, s)
           | Inr nodeURL \<Rightarrow>
               let tag = NormalizeTag (plat E) (tg_tag req) in
               if tag = [] \<or> length tag > MaxTagLen
               then (WriteJSONError 400 (''A tag must be between 1 and '' @ Itoa (int MaxTagLen) @ '' characters''), s)
               else (case (if tg_remove req then RemoveTag (plat E) nodeURL (GetUserID r) (tg_tag req) (sdb s)
                           else AddTag (plat E) nodeURL (GetUserID r) (tg_tag req) (sdb s)) of
                   (Inl err, d) \<Rightarrow> (annotationError err, set_db d s)
                 | (Inr _, d) \<Rightarrow> (annotation_reply E nodeURL r d, set_db d s))))"

definition handleNote :: "env \<Rightarrow> time \<Rightarrow> (string \<times> string) option \<Rightarrow> handler" where
  "handleNote E now req0 r s =
     (case req0 of
        None \<Rightarrow> (WriteJSONError 400 ''Invalid body'', s)
      | Some (raw, text) \<Rightarrow>
          (case resolveAnnotationTarget E raw of
             Inl resp \<Rightarrow> (resp, s)
           | Inr nodeURL \<Rightarrow>
               if length text > MaxNoteLen
               then (WriteJSONError 400 (''A note can be at most '' @ Itoa (int MaxNoteLen) @ '' characters''), s)
               else (case SetNote (plat E) now nodeURL (GetUserID r) text (sdb s) of
                   (Inl err, d) \<Rightarrow> (annotationError err, set_db d s)
                 | (Inr _, d) \<Rightarrow> (annotation_reply E nodeURL r d, set_db d s))))"

definition handleTags :: "env \<Rightarrow> handler" where
  "handleTags E r s = (writeNoStoreJSON 200 (JTags (ListTags (coll E) (GetUserID r) (sdb s))), s)"

record watchRequest =
  wr_url :: string
  wr_days :: int
  wr_stop :: bool

definition handleWatch :: "env \<Rightarrow> time \<Rightarrow> watchRequest option \<Rightarrow> handler" where
  "handleWatch E now req0 r s =
     (case req0 of
        None \<Rightarrow> (WriteJSONError 400 ''Invalid body'', s)
      | Some req \<Rightarrow>
          (case resolveAnnotationTarget E (wr_url req) of
             Inl resp \<Rightarrow> (resp, s)
           | Inr nodeURL \<Rightarrow>
               if wr_stop req then
                 (case StopWatch (plat E) nodeURL (GetUserID r) (sdb s) of
                    (Inl err, d) \<Rightarrow> (annotationError err, set_db d s)
                  | (Inr _, d) \<Rightarrow>
                      (writeNoStoreJSON 200 (Obj [(''watch'', FNull), (''message'', FStr ''No longer watching.'')]), set_db d s))
               else let days = (if wr_days req = 0 then MinWatchIntervalDays else wr_days req) in
                 if days < MinWatchIntervalDays \<or> days > MaxWatchIntervalDays
                 then (WriteJSONError 400 (''Check between every '' @ Itoa MinWatchIntervalDays @ '' and '' @
                         Itoa MaxWatchIntervalDays @ '' days''), s)
                 else (case StartWatch (plat E) now nodeURL (GetUserID r) days (sdb s) of
                    (Inl err, d) \<Rightarrow> (annotationError err, set_db d s)
                  | (Inr watch, d) \<Rightarrow>
                      (writeNoStoreJSON 200 (Obj [(''watch'', FWatch watch),
                         (''message'', FStr ''Watching. You will see changes in the feed after the next crawl.'')]), set_db d s))))"

definition handleWatches :: handler where
  "handleWatches r s = (writeNoStoreJSON 200 (JWatches (ListWatches (GetUserID r) (sdb s))), s)"

definition handleWatchEvents :: handler where
  "handleWatchEvents r s =
     (writeNoStoreJSON 200 (Obj
        [(''events'', FEvents (ListWatchEvents (GetUserID r) (Atoi_value (r_query r ''limit'')) (sdb s))),
         (''unseen'', FInt (int (CountUnseenWatchEvents (GetUserID r) (sdb s))))]), s)"

definition handleWatchEventsSeen :: "time \<Rightarrow> handler" where
  "handleWatchEventsSeen now r s =
     (let (n, d) = MarkWatchEventsSeen now (GetUserID r) (sdb s) in
      (writeNoStoreJSON 200 (Obj [(''marked'', FInt (int n))]), set_db d s))"

subsection \<open>privacy_handlers.go\<close>

definition handlePrivacySettings :: "env \<Rightarrow> handler" where
  "handlePrivacySettings E r s =
     (case GetPrivacySettings (GetUserID r) (sdb s) of
        Inl _ \<Rightarrow> (internal_error, s)
      | Inr st \<Rightarrow>
          (writeNoStoreJSON 200 (Obj [(''settings'', FSettings st), (''max_retention_days'', FInt MaxRetentionDays),
             (''deletion_grace'', FInt (DeletionGrace (cfg E) div (24 * Hour)))]), s))"

definition handlePrivacySettingsUpdate :: "(int \<times> bool) option \<Rightarrow> handler" where
  "handlePrivacySettingsUpdate req0 r s =
     (case req0 of
        None \<Rightarrow> (WriteJSONError 400 ''Invalid body'', s)
      | Some (retentionDays, storeContent) \<Rightarrow>
          (case SetPrivacySettings (GetUserID r) retentionDays storeContent (sdb s) of
             (Inl err, d) \<Rightarrow>
               (if err = ErrRetentionOutOfRange
                then WriteJSONError 400 ''Retention must be between 0 and 3650 days (0 keeps records indefinitely)''
                else internal_error, set_db d s)
           | (Inr _, d) \<Rightarrow>
               (case GetPrivacySettings (GetUserID r) d of
                  Inl _ \<Rightarrow> internal_error
                | Inr st \<Rightarrow> writeNoStoreJSON 200 (Obj [(''settings'', FSettings st), (''message'', FStr ''Data settings saved.'')]),
                set_db d s)))"

definition purge_scopes :: "string list" where
  "purge_scopes = [''crawl_history'', ''page_content'', ''activity_log'']"

definition purge_message :: "string \<Rightarrow> string" where
  "purge_message scope =
     (if scope = ''crawl_history'' then ''Crawl history deleted.''
      else if scope = ''page_content'' then ''Stored page content deleted. The records of which sites you crawled are kept.''
      else ''Account activity history deleted.'')"

definition purge_scope :: "env \<Rightarrow> time \<Rightarrow> string \<Rightarrow> User \<Rightarrow> int \<Rightarrow> db \<Rightarrow> nat result \<times> db" where
  "purge_scope E now scope user uid d =
     (if scope = ''crawl_history'' then (let (n, d') = DeleteCrawlHistory uid d in (Inr n, d'))
      else if scope = ''page_content'' then (let (n, d') = PurgeStoredContent uid d in (Inr n, d'))
      else PurgeAuthAudit now (auditEmailReference E (Email user)) d)"

record purgeRequest =
  pg_scope :: string
  pg_password :: string
  pg_code :: string

definition handlePrivacyPurge :: "env \<Rightarrow> time \<Rightarrow> purgeRequest option \<Rightarrow> handler" where
  "handlePrivacyPurge E now req0 r s =
     (case req0 of
        None \<Rightarrow> (WriteJSONError 400 ''Invalid body'', s)
      | Some req \<Rightarrow>
          if pg_scope req \<notin> set purge_scopes then (WriteJSONError 400 ''Unknown data category'', s)
          else (case requireReauth E now ''purge'' (pg_password req) (pg_code req) r s of
              (Inl resp, s1) \<Rightarrow> (resp, s1)
            | (Inr user, s1) \<Rightarrow>
                (case purge_scope E now (pg_scope req) user (GetUserID r) (sdb s1) of
                   (Inl _, d) \<Rightarrow> (internal_error, set_db d s1)
                 | (Inr n, d) \<Rightarrow>
                     (writeNoStoreJSON 200 (Obj [(''scope'', FStr (pg_scope req)), (''deleted'', FInt (int n)),
                        (''message'', FStr (purge_message (pg_scope req)))]), set_db d s1))))"

definition handleAccountDeleteRequest :: "env \<Rightarrow> time \<Rightarrow> (string \<times> string) option \<Rightarrow> handler" where
  "handleAccountDeleteRequest E now req0 r s =
     (case req0 of
        None \<Rightarrow> (WriteJSONError 400 ''Invalid body'', s)
      | Some (password, code) \<Rightarrow>
          (case requireReauth E now ''account_delete'' password code r s of
             (Inl resp, s1) \<Rightarrow> (resp, s1)
           | (Inr user, s1) \<Rightarrow>
               (case RequestAccountDeletion now (GetUserID r) (DeletionGrace (cfg E)) (sdb s1) of
                  (Inl err, d) \<Rightarrow>
                    (if err = ErrDeletionPending then WriteJSONError 409 ''This account is already scheduled for deletion.''
                     else internal_error, set_db d s1)
                | (Inr scheduled, d) \<Rightarrow>
                    (writeNoStoreJSON 200 (Obj [(''deletion_scheduled_for'', FTime scheduled),
                       (''message'', FStr ''Your account is scheduled for deletion. You can cancel any time before then by signing in.'')]),
                     post_mail (DeletionScheduledMail (Email user) scheduled)
                       (log_event E now r ''account_delete_requested'' (Email user) (set_db d s1))))))"

definition handleAccountDeleteCancel :: "env \<Rightarrow> time \<Rightarrow> handler" where
  "handleAccountDeleteCancel E now r s =
     (let (cancelled, d) = CancelAccountDeletion (GetUserID r) (sdb s) in
      if \<not> cancelled then (WriteJSONError 400 ''No deletion is scheduled for this account.'', set_db d s)
      else (writeNoStoreJSON 200 (Obj [(''message'', FStr ''Account deletion cancelled. Nothing was removed.'')]),
            post_mail (DeletionCancelledMail (GetDBEmail r))
              (log_event E now r ''account_delete_cancelled'' (GetDBEmail r) (set_db d s))))"

end
