(* ===== verification/Export_Handlers.thy ===== *)
theory Export_Handlers
  imports Site_Handlers
begin

section \<open>Exports: export_handlers.go and the personal-data export\<close>

text \<open>
  The two semaphores in front of every export and the documents the exports write. Taking and
  releasing the slots are operations of their own, because an export lasts and others start meanwhile;
  a handler takes them, writes its document and releases them.
\<close>

subsection \<open>Slots\<close>

definition export_cap :: nat where "export_cap = 4"

text \<open>None is success; the slot of the account is given back when the global one is not free.\<close>

definition acquireExportSlot :: "int \<Rightarrow> server \<Rightarrow> response option \<times> server" where
  "acquireExportSlot uid s =
     (if uid \<in> set (exportPerUser s)
      then (Some (WriteJSONError 429 (''You already have an export in progress '' @ em_dash @ '' wait for it to finish'')), s)
      else if exportGlobal s \<ge> export_cap
      then (Some (WriteJSONError 429 (''Too many simultaneous exports on the server '' @ em_dash @ '' try again in a few moments'')), s)
      else (None, s\<lparr>exportPerUser := uid # exportPerUser s, exportGlobal := exportGlobal s + 1\<rparr>))"

definition releaseExportSlot :: "int \<Rightarrow> server \<Rightarrow> server" where
  "releaseExportSlot uid s =
     s\<lparr>exportPerUser := remove1 uid (exportPerUser s), exportGlobal := exportGlobal s - 1\<rparr>"

subsection \<open>Documents\<close>

fun status_text :: "node_status \<Rightarrow> string" where
  "status_text Pending = ''pending''" | "status_text Crawling = ''crawling''"
| "status_text Completed = ''completed''" | "status_text Failed = ''failed''" | "status_text Blocked = ''blocked''"

definition last_crawled :: "env \<Rightarrow> Node \<Rightarrow> string" where
  "last_crawled E n = (case nd_last n of None \<Rightarrow> [] | Some t \<Rightarrow> to_char E t)"

text \<open>The callback of every export appends what it is given; no write fails.\<close>

definition collect_rows :: "int \<Rightarrow> bool \<Rightarrow> db \<Rightarrow> Node list" where
  "collect_rows uid isAdmin d =
     (case ExportNodes uid isAdmin (\<lambda>n acc. Inr (acc @ [n])) d [] of Inl _ \<Rightarrow> [] | Inr ns \<Rightarrow> ns)"

definition attachment :: "string \<Rightarrow> string \<times> string" where
  "attachment name = (''Content-Disposition'', ''attachment; filename='' @ name)"

definition file_reply :: "string \<Rightarrow> string \<Rightarrow> payload \<Rightarrow> response" where
  "file_reply ctype name p =
     \<lparr>status = 200, headers = [(''Content-Type'', ctype), attachment name], set_cookies = [], body = p\<rparr>"

definition exportJSON :: "int \<Rightarrow> bool \<Rightarrow> db \<Rightarrow> response" where
  "exportJSON uid isAdmin d = json_reply 200 (JNodes (collect_rows uid isAdmin d))"

definition exportNDJSON :: "int \<Rightarrow> bool \<Rightarrow> db \<Rightarrow> response" where
  "exportNDJSON uid isAdmin d =
     file_reply ''application/x-ndjson'' ''onion_spider_export.ndjson'' (JLines (collect_rows uid isAdmin d))"

definition csv_header :: "string list" where
  "csv_header = [''id'', ''url'', ''title'', ''status_code'', ''server_header'', ''processing_status'', ''category'', ''last_crawled_at'']"

definition csv_row :: "env \<Rightarrow> Node \<Rightarrow> string list" where
  "csv_row E n =
     [Itoa (int (nd_id n)), SanitizeCSVField (nd_url n), SanitizeCSVField (nd_title n), Itoa (nd_code n),
      SanitizeCSVField (nd_server n), status_text (nd_status n), nd_category n, last_crawled E n]"

definition exportCSV :: "env \<Rightarrow> int \<Rightarrow> bool \<Rightarrow> db \<Rightarrow> response" where
  "exportCSV E uid isAdmin d =
     file_reply ''text/csv'' ''onion_spider_export.csv''
       (Raw (concat (map csv_record (csv_header # map (csv_row E) (collect_rows uid isAdmin d)))))"

definition xlsxRowCap :: nat where "xlsxRowCap = 10000"
definition pdfRowCap :: nat where "pdfRowCap = 5000"

definition xlsx_row :: "env \<Rightarrow> Node \<Rightarrow> field list" where
  "xlsx_row E n =
     [FInt (int (nd_id n)), FStr (SanitizeCSVField (nd_url n)), FStr (SanitizeCSVField (nd_title n)), FInt (nd_code n),
      FStr (SanitizeCSVField (nd_server n)), FStr (status_text (nd_status n)), FStr (nd_category n), FStr (last_crawled E n)]"

definition exportXLSX :: "env \<Rightarrow> int \<Rightarrow> bool \<Rightarrow> db \<Rightarrow> response" where
  "exportXLSX E uid isAdmin d =
     file_reply ''application/vnd.openxmlformats-officedocument.spreadsheetml.sheet'' ''onion_spider_export.xlsx''
       (Xlsx (map FStr csv_header # map (xlsx_row E) (take xlsxRowCap (collect_rows uid isAdmin d))))"

definition pdf_trunc :: "string \<Rightarrow> nat \<Rightarrow> string" where
  "pdf_trunc t lim =
     (let rs = runes t in
      if length rs > lim then concat (map (\<lambda>x. encode_rune (fst x)) (take (lim - 1) rs)) @ ''...'' else t)"

definition pdf_row :: "env \<Rightarrow> Node \<Rightarrow> string list" where
  "pdf_row E n =
     [Itoa (int (nd_id n)), pdf_trunc (nd_url n) 100, pdf_trunc (nd_title n) 40, Itoa (nd_code n), nd_category n, last_crawled E n]"

definition exportPDF :: "env \<Rightarrow> int \<Rightarrow> bool \<Rightarrow> db \<Rightarrow> response" where
  "exportPDF E uid isAdmin d =
     file_reply ''application/pdf'' ''onion_spider_export.pdf''
       (Pdf ([''ID'', ''URL'', ''Title'', ''Status'', ''Category'', ''Last Crawled''] #
          map (pdf_row E) (take pdfRowCap (collect_rows uid isAdmin d))))"

definition tag_text :: "string \<Rightarrow> string \<Rightarrow> string" where
  "tag_text key t = ''      <data key='' @ [dquote] @ key @ [dquote] @ ''>'' @ xml_escape t @ ''</data>'' @ [newline]"

definition graphml_node :: "Node \<Rightarrow> string" where
  "graphml_node n =
     ''    <node id='' @ [dquote] @ ''n'' @ Itoa (int (nd_id n)) @ [dquote] @ ''>'' @ [newline] @
     tag_text ''d0'' (nd_url n) @ tag_text ''d1'' (nd_title n) @ tag_text ''d2'' (nd_category n) @
     ''    </node>'' @ [newline]"

definition graphml_edge :: "nat \<times> nat \<Rightarrow> string" where
  "graphml_edge e =
     ''    <edge source='' @ [dquote] @ ''n'' @ Itoa (int (fst e)) @ [dquote] @ '' target='' @ [dquote] @ ''n'' @
     Itoa (int (snd e)) @ [dquote] @ ''/>'' @ [newline]"

definition graphml_key :: "string \<Rightarrow> string \<Rightarrow> string" where
  "graphml_key i name =
     ''  <key id='' @ [dquote] @ i @ [dquote] @ '' for='' @ [dquote] @ ''node'' @ [dquote] @ '' attr.name='' @ [dquote] @
     name @ [dquote] @ '' attr.type='' @ [dquote] @ ''string'' @ [dquote] @ ''/>'' @ [newline]"

definition graphml_head :: string where
  "graphml_head =
     ''<?xml version='' @ [dquote] @ ''1.0'' @ [dquote] @ '' encoding='' @ [dquote] @ ''UTF-8'' @ [dquote] @ ''?>'' @ [newline] @
     ''<graphml xmlns='' @ [dquote] @ ''http://graphml.graphdrawing.org/graphml'' @ [dquote] @ ''>'' @ [newline] @
     graphml_key ''d0'' ''url'' @ graphml_key ''d1'' ''title'' @ graphml_key ''d2'' ''category'' @
     ''  <graph id='' @ [dquote] @ ''G'' @ [dquote] @ '' edgedefault='' @ [dquote] @ ''directed'' @ [dquote] @ ''>'' @ [newline]"

definition exportGraphML :: "int \<Rightarrow> bool \<Rightarrow> db \<Rightarrow> response" where
  "exportGraphML uid isAdmin d =
     file_reply ''application/xml'' ''onion_spider_export.graphml''
       (Raw (graphml_head @ concat (map graphml_node (collect_rows uid isAdmin d)) @
          (case ExportGraphMLEdges uid isAdmin (\<lambda>e acc. Inr (acc @ graphml_edge e)) d [] of Inl _ \<Rightarrow> [] | Inr t \<Rightarrow> t) @
          ''  </graph>'' @ [newline] @ ''</graphml>'' @ [newline]))"

subsection \<open>The handlers\<close>

definition handleExport :: "env \<Rightarrow> handler" where
  "handleExport E r s =
     (case acquireExportSlot (GetUserID r) s of
        (Some resp, s1) \<Rightarrow> (resp, s1)
      | (None, s1) \<Rightarrow>
          let format = r_query r ''format''; uid = GetUserID r; adm = IsAdmin r; d = sdb s1 in
          (if format = ''csv'' then exportCSV E uid adm d
           else if format = ''ndjson'' then exportNDJSON uid adm d
           else if format = ''xlsx'' then exportXLSX E uid adm d
           else if format = ''pdf'' then exportPDF E uid adm d
           else if format = ''graphml'' then exportGraphML uid adm d
           else exportJSON uid adm d,
           releaseExportSlot uid s1))"

definition privacyExportVersion :: int where "privacyExportVersion = 1"

definition personal_export :: "env \<Rightarrow> time \<Rightarrow> int \<Rightarrow> string \<Rightarrow> AccountProfile \<Rightarrow> PrivacySettings \<Rightarrow> (string \<times> time) list \<Rightarrow> db \<Rightarrow> response" where
  "personal_export E now uid sid profile settings history d =
     \<lparr>status = 200,
      headers = [json_type, (''Cache-Control'', ''no-store''), attachment ''onion_spider_personal_data.json''],
      set_cookies = [],
      body = JExport
       \<lparr>pd_version = privacyExportVersion, pd_generated = now, pd_account = profile, pd_settings = settings,
        pd_sessions = ListSessions now uid sid d, pd_codes = CountUnusedRecoveryCodes uid d,
        pd_history = history, pd_watches = ListWatches uid d, pd_nodes = collect_rows uid False d,
        pd_annotations = (case ExportAnnotations (coll E) uid (\<lambda>a acc. Inr (acc @ [a])) d [] of Inl _ \<Rightarrow> [] | Inr as \<Rightarrow> as),
        pd_links = (case ExportEdges uid (\<lambda>e acc. Inr (acc @ [e])) d [] of Inl _ \<Rightarrow> [] | Inr es \<Rightarrow> es)\<rparr>\<rparr>"

definition handlePrivacyExport :: "env \<Rightarrow> time \<Rightarrow> handler" where
  "handlePrivacyExport E now r s =
     (case acquireExportSlot (GetUserID r) s of
        (Some resp, s1) \<Rightarrow> (resp, s1)
      | (None, s1) \<Rightarrow>
          let uid = GetUserID r; d = sdb s1 in
          (case GetAccountProfile uid d of
             Inl _ \<Rightarrow> internal_error
           | Inr profile \<Rightarrow>
               (case GetPrivacySettings uid d of
                  Inl _ \<Rightarrow> internal_error
                | Inr settings \<Rightarrow>
                    (case ListAuthEvents (audit_rank E) (auditEmailReference E (ap_Email profile)) 1000 d of
                       Inl _ \<Rightarrow> internal_error
                     | Inr history \<Rightarrow> personal_export E now uid (SessionID r) profile settings history d)),
           releaseExportSlot uid s1))"

subsection \<open>What is exported\<close>

lemma each_row_append: "each_row (\<lambda>x acc. Inr (acc @ f x)) xs acc = Inr (acc @ concat (map f xs))"
  by (induction xs arbitrary: acc) simp_all

lemma collect_rows_eq: "collect_rows uid isAdmin d = export_rows uid isAdmin d"
  using each_row_append [of "\<lambda>n. [n]" "export_rows uid isAdmin d" "[]"] by (simp add: collect_rows_def ExportNodes_def)

lemma SanitizeCSVField_safe: "SanitizeCSVField s = [] \<or> hd (SanitizeCSVField s) \<notin> set formula_chars"
  unfolding SanitizeCSVField_def by (auto simp: formula_chars_def)


end
