(* ===== verification/Router.thy ===== *)
theory Router
  imports Export_Handlers
begin

section \<open>The API surface: router.go\<close>

text \<open>
  \<open>New\<close>: the initial state of \<open>deps\<close> and the table of routes with the middleware of each group. An
  endpoint is a route together with what its handler reads besides the request: the decoded body (None
  when it does not decode) and the random bytes it draws. \<open>serve\<close> is the whole chain in the order of
  the \<open>Use\<close> calls. Request ids, metrics, access log, panic recovery and the headers of the CORS
  package neither read nor change the state and are left out; a path that is no route is no endpoint.
\<close>

datatype endpoint =
    PostRegister bytes bytes "credentials option"
  | PostLogin bytes bytes bytes "loginRequest option"
  | GetVerify
  | PostVerify "string option"
  | PostForgot bytes "string option"
  | PostReset bytes "(string \<times> string) option"
  | GetStatus
  | GetMe | PostLogout | PostLogoutAll
  | GetSessions | DeleteSession
  | GetTOTP | PostTOTPSetup bytes | PostTOTPConfirm "nat \<Rightarrow> bytes" "string option"
  | PostTOTPDisable "(string \<times> string) option"
  | GetPrivacy | PostPrivacy "(int \<times> bool) option" | GetPrivacyExport | PostPurge "purgeRequest option"
  | PostAccountDelete "(string \<times> string) option" | PostAccountDeleteCancel
  | PostAnnotation "string option" | PostTag "tagRequest option" | PostNote "(string \<times> string) option" | GetTags
  | PostWatch "watchRequest option" | GetWatches | GetWatchEvents | PostWatchEventsSeen
  | GetNodeList | PostNode "string option" | GetEdgeList | PostSearch "(string \<times> string) option"
  | PostCrawl "string option" | PostRecrawl "string option" | PostCrawlBulk "string list option" | GetQueue
  | GetTimeline | GetExport
  | GetBlacklistList | PostBlacklist "string option" | DeleteBlacklistEntry

datatype group = Public | StatusOnly | Authenticated | AdminOnly

definition ep_group :: "endpoint \<Rightarrow> group" where
  "ep_group ep = (case ep of
     PostRegister _ _ _ \<Rightarrow> Public | PostLogin _ _ _ _ \<Rightarrow> Public | GetVerify \<Rightarrow> Public | PostVerify _ \<Rightarrow> Public
   | PostForgot _ _ \<Rightarrow> Public | PostReset _ _ \<Rightarrow> Public | GetStatus \<Rightarrow> StatusOnly
   | GetBlacklistList \<Rightarrow> AdminOnly | PostBlacklist _ \<Rightarrow> AdminOnly | DeleteBlacklistEntry \<Rightarrow> AdminOnly
   | _ \<Rightarrow> Authenticated)"

definition ep_method :: "endpoint \<Rightarrow> string" where
  "ep_method ep = (case ep of
     GetVerify \<Rightarrow> ''GET'' | GetStatus \<Rightarrow> ''GET'' | GetMe \<Rightarrow> ''GET'' | GetSessions \<Rightarrow> ''GET'' | GetTOTP \<Rightarrow> ''GET''
   | GetPrivacy \<Rightarrow> ''GET'' | GetPrivacyExport \<Rightarrow> ''GET'' | GetTags \<Rightarrow> ''GET'' | GetWatches \<Rightarrow> ''GET''
   | GetWatchEvents \<Rightarrow> ''GET'' | GetNodeList \<Rightarrow> ''GET'' | GetEdgeList \<Rightarrow> ''GET'' | GetQueue \<Rightarrow> ''GET''
   | GetTimeline \<Rightarrow> ''GET'' | GetExport \<Rightarrow> ''GET'' | GetBlacklistList \<Rightarrow> ''GET''
   | DeleteSession \<Rightarrow> ''DELETE'' | DeleteBlacklistEntry \<Rightarrow> ''DELETE'' | _ \<Rightarrow> ''POST'')"

fun ep_handler :: "env \<Rightarrow> time \<Rightarrow> endpoint \<Rightarrow> handler" where
  "ep_handler E now (PostRegister salt tok req) = handleRegister E now salt tok req"
| "ep_handler E now (PostLogin salt sid csrf req) = handleLogin E now salt sid csrf req"
| "ep_handler E now GetVerify = handleVerifyGET now"
| "ep_handler E now (PostVerify req) = handleVerifyPOST E now req"
| "ep_handler E now (PostForgot tok req) = handleForgotPassword E now tok req"
| "ep_handler E now (PostReset salt req) = handleResetPassword E now salt req"
| "ep_handler E now GetStatus = handleStatus E"
| "ep_handler E now GetMe = handleMe E"
| "ep_handler E now PostLogout = handleLogout now"
| "ep_handler E now PostLogoutAll = handleLogoutAll now"
| "ep_handler E now GetSessions = handleSessions now"
| "ep_handler E now DeleteSession = handleRevokeSession now"
| "ep_handler E now GetTOTP = handleTOTPStatus E"
| "ep_handler E now (PostTOTPSetup b) = handleTOTPSetup b"
| "ep_handler E now (PostTOTPConfirm b req) = handleTOTPConfirm E now b req"
| "ep_handler E now (PostTOTPDisable req) = handleTOTPDisable E now req"
| "ep_handler E now GetPrivacy = handlePrivacySettings E"
| "ep_handler E now (PostPrivacy req) = handlePrivacySettingsUpdate req"
| "ep_handler E now GetPrivacyExport = handlePrivacyExport E now"
| "ep_handler E now (PostPurge req) = handlePrivacyPurge E now req"
| "ep_handler E now (PostAccountDelete req) = handleAccountDeleteRequest E now req"
| "ep_handler E now PostAccountDeleteCancel = handleAccountDeleteCancel E now"
| "ep_handler E now (PostAnnotation req) = handleAnnotation E req"
| "ep_handler E now (PostTag req) = handleTag E req"
| "ep_handler E now (PostNote req) = handleNote E now req"
| "ep_handler E now GetTags = handleTags E"
| "ep_handler E now (PostWatch req) = handleWatch E now req"
| "ep_handler E now GetWatches = handleWatches"
| "ep_handler E now GetWatchEvents = handleWatchEvents"
| "ep_handler E now PostWatchEventsSeen = handleWatchEventsSeen now"
| "ep_handler E now GetNodeList = handleNodes"
| "ep_handler E now (PostNode req) = handleNode E req"
| "ep_handler E now GetEdgeList = handleEdges"
| "ep_handler E now (PostSearch req) = handleSearch E now req"
| "ep_handler E now (PostCrawl req) = handleCrawl E now req"
| "ep_handler E now (PostRecrawl req) = handleRecrawl E now req"
| "ep_handler E now (PostCrawlBulk req) = handleCrawlBulk E now req"
| "ep_handler E now GetQueue = handleQueue"
| "ep_handler E now GetTimeline = handleTimeline now"
| "ep_handler E now GetExport = handleExport E"
| "ep_handler E now GetBlacklistList = handleBlacklistList"
| "ep_handler E now (PostBlacklist req) = handleBlacklistAdd E now req"
| "ep_handler E now DeleteBlacklistEntry = handleBlacklistDelete E now"

definition method_not_allowed :: response where
  "method_not_allowed = \<lparr>status = 405, headers = [], set_cookies = [], body = Raw []\<rparr>"

definition dispatch :: "env \<Rightarrow> time \<Rightarrow> endpoint \<Rightarrow> handler" where
  "dispatch E now ep r s =
     (if r_method r \<noteq> ep_method ep then (method_not_allowed, s)
      else case ep_group ep of
        Public \<Rightarrow> ep_handler E now ep r s
      | StatusOnly \<Rightarrow> LoadDBRole now (ep_handler E now ep) r s
      | Authenticated \<Rightarrow> RequireAuth (LoadDBRole now (ep_handler E now ep)) r s
      | AdminOnly \<Rightarrow>
          RequireAuth (LoadDBRole now (RequireAdminDB (RequireAdminMFA (cfg E)) (ep_handler E now ep))) r s)"

text \<open>A request arrives without context values.\<close>

definition incoming :: "request \<Rightarrow> request" where
  "incoming r = r\<lparr>x_claims := None, x_source := None, x_role := None, x_email := None, x_network := None\<rparr>"

definition serve :: "env \<Rightarrow> time \<Rightarrow> endpoint \<Rightarrow> handler" where
  "serve E now ep r s =
     NoStore (TrustedRealIP (JWTMiddleware E now (CSRFProtect (dispatch E now ep)))) (incoming r) s"

text \<open>The state \<open>New\<close> builds, and the grace period it insists on.\<close>

definition deletion_grace :: "duration \<Rightarrow> duration" where
  "deletion_grace g = (if g \<le> 0 then 7 * 24 * Hour else g)"

definition New :: "db \<Rightarrow> server" where
  "New d =
     \<lparr>sdb = d, crawlLim = NewCrawlLimiter 20 Minute, searchLim = NewCrawlLimiter 60 Minute,
      sensitiveLim = NewCrawlLimiter 10 Hour, loginLim = NewAnonLimiter 5 100 Minute,
      registerLim = NewAnonLimiter 3 3 Hour, verifyLim = NewAnonLimiter 10 120 Minute,
      resetLim = NewAnonLimiter 5 60 Hour, exportPerUser = [], exportGlobal = 0, outbox = []\<rparr>"

end
