(* ===== verification/Api_Effects.thy ===== *)
theory Api_Effects
  imports Engine_Properties Router
begin

section \<open>What a request does to the database\<close>

text \<open>
  Every handler, behind its middleware, changes the database only by a sequence of the operations of the
  store. Whatever these operations keep is kept by every request, and the requests may be interleaved with the
  crawl.
\<close>

subsection \<open>Invariants of the store\<close>

text \<open>A contract of the store: a property that the operations of a class keep.\<close>

locale store_invariant =
  fixes P :: platform and allowed :: "sys_op \<Rightarrow> bool" and inv :: "db \<Rightarrow> bool"
  assumes keeps: "allowed x \<Longrightarrow> inv d \<Longrightarrow> inv (sys_apply P x d)"
begin

lemma keeps_run: "list_all allowed ops \<Longrightarrow> inv d \<Longrightarrow> inv (sys_run P ops d)"
  unfolding sys_run_def by (induction ops arbitrary: d) (simp_all add: keeps)

end

interpretation schema: store_invariant P "\<lambda>_. True" sys_ok for P
  by unfold_locales (rule sys_apply_ok)

interpretation depths: store_invariant P "bounded_op m" "\<lambda>d. 0 \<le> m \<and> depth_ok m d" for P m
  by unfold_locales (simp add: sys_apply_depth)

definition evolves :: "platform \<Rightarrow> db \<Rightarrow> db \<Rightarrow> bool" where
  "evolves P d d' = (\<exists>ops. list_all from_outside ops \<and> d' = sys_run P ops d)"

named_theorems effects

lemma evolves_refl [effects]: "evolves P d d"
  unfolding evolves_def sys_run_def by (rule exI [of _ "[]"]) simp

lemma evolves_trans: "evolves P d d' \<Longrightarrow> evolves P d' d'' \<Longrightarrow> evolves P d d''"
proof -
  assume "evolves P d d'" "evolves P d' d''"
  then obtain xs ys where "list_all from_outside xs" "d' = sys_run P xs d" "list_all from_outside ys" "d'' = sys_run P ys d'"
    by (auto simp: evolves_def)
  then have "list_all from_outside (xs @ ys) \<and> d'' = sys_run P (xs @ ys) d" by (simp add: sys_run_def)
  then show ?thesis unfolding evolves_def by blast
qed

lemma evolves_apply: "evolves P d d0 \<Longrightarrow> from_outside x \<Longrightarrow> evolves P d (sys_apply P x d0)"
proof (rule evolves_trans, assumption)
  assume "from_outside x"
  then show "evolves P d0 (sys_apply P x d0)" unfolding evolves_def sys_run_def by (intro exI [of _ "[x]"]) simp
qed

lemmas evolves_queue = evolves_apply [of P d d0 "Queue x" for P d d0 x, unfolded sys_apply.simps]
lemmas evolves_account = evolves_apply [of P d d0 "Account x" for P d d0 x, unfolded sys_apply.simps]
lemmas evolves_annotate = evolves_apply [of P d d0 "Annotate x" for P d d0 x, unfolded sys_apply.simps]

lemma queue_effects [effects]:
  assumes "evolves P d d0"
  shows "evolves P d (snd (EnqueueURL P now raw 0 u mx d0))" "evolves P d (snd (RequeueForCrawl now url u d0))"
    "evolves P d (snd (AddBlacklist P now dmn d0))" "evolves P d (snd (DeleteBlacklist P now dmn d0))"
    "evolves P d (snd (ResetStuckCrawling now age d0))" "evolves P d (snd (ReviveFailedNodes rank now age lim d0))"
    "evolves P d (delete_nodes Q d0)"
  using assms evolves_queue [of P d d0 "Enqueue now raw 0 u mx"] evolves_queue [of P d d0 "Requeue now url u"]
    evolves_queue [of P d d0 "Block now dmn"] evolves_queue [of P d d0 "Unblock now dmn"]
    evolves_queue [of P d d0 "ResetStuck now age"] evolves_queue [of P d d0 "Revive rank now age lim"]
    evolves_queue [of P d d0 "Purge Q"]
  by simp_all

lemma account_effects [effects]:
  assumes "evolves P d d0"
  shows "evolves P d (snd (CreateRegisteredUser P now email h tok adm d0))"
    "evolves P d (snd (SetResetToken P now email tok d0))" "evolves P d (snd (ResetPassword P now tok h d0))"
    "evolves P d (BumpTokenVersion u d0)" "evolves P d (snd (UpgradePasswordHash u old new d0))"
    "evolves P d (snd (VerifyUser P now tok d0))" "evolves P d (LogAuthEvent now ev er ir d0)"
    "evolves P d (snd (PurgeOldAuditLogs now age d0))" "evolves P d (snd (CreateSession now u tok label expires d0))"
    "evolves P d (TouchSession now tok stale d0)" "evolves P d (snd (RevokeSession now u i d0))"
    "evolves P d (RevokeAllSessions now u tok d0)" "evolves P d (RevokeSessionByToken now tok d0)"
  using assms evolves_account [of P d d0 "(now, Register email h tok adm)"] evolves_account [of P d d0 "(now, SetReset email tok)"]
    evolves_account [of P d d0 "(now, Reset tok h)"] evolves_account [of P d d0 "(now, Bump u)"]
    evolves_account [of P d d0 "(now, Upgrade u old new)"] evolves_account [of P d d0 "(now, Verify tok)"]
    evolves_account [of P d d0 "(now, LogEvent ev er ir)"] evolves_account [of P d d0 "(now, PurgeLogs age)"]
    evolves_account [of P d d0 "(now, NewSession u tok label expires)"] evolves_account [of P d d0 "(now, Touch tok stale)"]
    evolves_account [of P d d0 "(now, Revoke u i)"] evolves_account [of P d d0 "(now, RevokeAll u tok)"]
    evolves_account [of P d d0 "(now, RevokeTok tok)"]
  by simp_all

lemma more_account_effects [effects]:
  assumes "evolves P d d0"
  shows "evolves P d (snd (DeleteExpiredSessions now d0))" "evolves P d (snd (StageTOTPSecret u secret d0))"
    "evolves P d (snd (ConfirmTOTP now u st hs d0))" "evolves P d (snd (ConsumeTOTPStep u st d0))"
    "evolves P d (snd (ConsumeRecoveryCode now u h d0))" "evolves P d (DisableTOTP u d0)"
    "evolves P d (snd (SetPrivacySettings u days k d0))" "evolves P d (snd (RequestAccountDeletion now u grace d0))"
    "evolves P d (snd (CancelAccountDeletion u d0))" "evolves P d (snd (DeleteAccount u ref d0))"
    "evolves P d (snd (PurgeAuthAudit now ref d0))" "evolves P d (migrateOpaqueTokens P d0)"
  using assms evolves_account [of P d d0 "(now, SweepSessions)"] evolves_account [of P d d0 "(now, Stage u secret)"]
    evolves_account [of P d d0 "(now, Confirm u st hs)"] evolves_account [of P d d0 "(now, Consume u st)"]
    evolves_account [of P d d0 "(now, UseCode u h)"] evolves_account [of P d d0 "(now, Disable u)"]
    evolves_account [of P d d0 "(now, SetPrivacy u days k)"] evolves_account [of P d d0 "(now, RequestDel u grace)"]
    evolves_account [of P d d0 "(now, CancelDel u)"] evolves_account [of P d d0 "(now, Erase u ref)"]
    evolves_account [of P d d0 "(now, PurgeAudit ref)"] evolves_account [of P d d0 "(now, MigrateTokens)"]
  by simp_all

lemma annotation_effects [effects]:
  assumes "evolves P d d0"
  shows "evolves P d (snd (AddTag P url u tag d0))" "evolves P d (snd (RemoveTag P url u tag d0))"
    "evolves P d (snd (SetNote P now url u text d0))" "evolves P d (snd (StartWatch P now url u days d0))"
    "evolves P d (snd (StopWatch P url u d0))" "evolves P d (snd (MarkWatchEventsSeen now u d0))"
    "evolves P d (snd (PurgeStoredContent u d0))" "evolves P d (snd (ApplyRetention rank clock batch dry d0))"
  using assms evolves_annotate [of P d d0 "TagAdd url u tag"] evolves_annotate [of P d d0 "TagDrop url u tag"]
    evolves_annotate [of P d d0 "Note now url u text"] evolves_annotate [of P d d0 "WatchOn now url u days"]
    evolves_annotate [of P d d0 "WatchOff url u"] evolves_annotate [of P d d0 "SeenAll now u"]
    evolves_annotate [of P d d0 "PurgeText u"] evolves_annotate [of P d d0 "Retain rank clock batch dry"]
  by simp_all

subsection \<open>Parts of handlers\<close>

lemma sdb_after_charge [simp]:
  "(\<And>f. sdb (upd f s) = sdb s) \<Longrightarrow> sdb (snd (charge get upd now r n s)) = sdb s"
  "(\<And>f. sdb (upd' f s) = sdb s) \<Longrightarrow> sdb (snd (charge_anon get' upd' now r s)) = sdb s"
  by (simp_all add: charge_def charge_anon_def split_beta)

lemma sdb_crawl_allowed [simp]: "sdb (snd (crawl_allowed now r n s)) = sdb s"
  by (simp add: crawl_allowed_def)

lemma sdb_exportSlot [simp]: "sdb (snd (acquireExportSlot uid s)) = sdb s" "sdb (releaseExportSlot uid s) = sdb s"
  by (simp_all add: acquireExportSlot_def releaseExportSlot_def)

lemma logAuthEvent_effect [effects]:
  "evolves (plat E) d (sdb s) \<Longrightarrow> evolves (plat E) d (sdb (logAuthEvent E now ev em ip s))"
  by (simp add: logAuthEvent_def effects)

lemma verifySecondFactor_effect [effects]:
  "evolves (plat E) d (sdb s) \<Longrightarrow> evolves (plat E) d (sdb (snd (verifySecondFactor E now u st code s)))"
  by (simp add: verifySecondFactor_def split_beta Let_def effects split: sum.split)

lemma login_rehash_effect [effects]:
  "evolves (plat E) d (sdb s) \<Longrightarrow> evolves (plat E) d (sdb (login_rehash E salt user pw s))"
  by (simp add: login_rehash_def effects split: option.split)

lemma login_issue_effect [effects]:
  "evolves (plat E) d (sdb s) \<Longrightarrow> evolves (plat E) d (sdb (snd (login_issue E now sid csrf email mode user r s)))"
  by (simp add: login_issue_def split_beta Let_def effects split: sum.split)

lemma login_factor_effect [effects]:
  "evolves (plat E) d (sdb s) \<Longrightarrow> evolves (plat E) d (sdb (snd (login_factor E now salt sid csrf email mode req user r s)))"
  by (simp add: login_factor_def split_beta Let_def effects split: sum.split)

lemma reauthenticate_effect [effects]:
  "evolves (plat E) d (sdb s) \<Longrightarrow> evolves (plat E) d (sdb (snd (reauthenticate E now r pw code s)))"
  by (simp add: reauthenticate_def split_beta Let_def effects split: sum.split option.split)

lemma requireReauth_effect [effects]:
  "evolves (plat E) d (sdb s) \<Longrightarrow> evolves (plat E) d (sdb (snd (requireReauth E now action pw code r s)))"
  by (simp add: requireReauth_def split_beta Let_def effects split: reauth.split)

lemma purge_scope_effect [effects]:
  "evolves (plat E) d d0 \<Longrightarrow> evolves (plat E) d (snd (purge_scope E now scope user uid d0))"
  by (simp add: purge_scope_def DeleteCrawlHistory_def split_beta effects)

lemma bulk_loop_effect [effects]:
  "evolves (plat E) d d0 \<Longrightarrow> evolves (plat E) d (snd (bulk_loop E now uid batch us c d0))"
proof (induction us arbitrary: c d0)
  case Nil
  then show ?case by (cases c) simp
next
  case (Cons u us)
  then show ?case
    by (cases c) (simp add: AddToQueue_def split_beta Let_def effects split: sum.split)
qed

subsection \<open>Handlers\<close>

lemma auth_handler_effects:
  "evolves (plat E) (sdb s) (sdb (snd (handleRegister E now salt tok creq r s)))"
  "evolves (plat E) (sdb s) (sdb (snd (handleLogin E now salt sid csrf lreq r s)))"
  "evolves (plat E) (sdb s) (sdb (snd (handleVerifyGET now r s)))"
  "evolves (plat E) (sdb s) (sdb (snd (handleVerifyPOST E now sreq r s)))"
  "evolves (plat E) (sdb s) (sdb (snd (handleForgotPassword E now tok sreq r s)))"
  "evolves (plat E) (sdb s) (sdb (snd (handleResetPassword E now salt preq r s)))"
  by (simp_all add: handleRegister_def handleLogin_def handleVerifyGET_def handleVerifyPOST_def handleForgotPassword_def
      handleResetPassword_def case_prod_beta Let_def effects split: sum.split option.split bool.split)

lemma session_handler_effects:
  "evolves (plat E) (sdb s) (sdb (snd (handleMe E r s)))"
  "evolves (plat E) (sdb s) (sdb (snd (handleLogout now r s)))"
  "evolves (plat E) (sdb s) (sdb (snd (handleLogoutAll now r s)))"
  "evolves (plat E) (sdb s) (sdb (snd (handleSessions now r s)))"
  "evolves (plat E) (sdb s) (sdb (snd (handleRevokeSession now r s)))"
  "evolves (plat E) (sdb s) (sdb (snd (handleTOTPStatus E r s)))"
  "evolves (plat E) (sdb s) (sdb (snd (handleTOTPSetup b r s)))"
  "evolves (plat E) (sdb s) (sdb (snd (handleTOTPConfirm E now bs sreq r s)))"
  "evolves (plat E) (sdb s) (sdb (snd (handleTOTPDisable E now preq r s)))"
  by (simp_all add: handleMe_def handleLogout_def handleLogoutAll_def handleSessions_def handleRevokeSession_def
      handleTOTPStatus_def handleTOTPSetup_def handleTOTPConfirm_def handleTOTPDisable_def
      case_prod_beta Let_def effects split: sum.split option.split)

lemma privacy_handler_effects:
  "evolves (plat E) (sdb s) (sdb (snd (handlePrivacySettings E r s)))"
  "evolves (plat E) (sdb s) (sdb (snd (handlePrivacySettingsUpdate ureq r s)))"
  "evolves (plat E) (sdb s) (sdb (snd (handlePrivacyExport E now r s)))"
  "evolves (plat E) (sdb s) (sdb (snd (handlePrivacyPurge E now greq r s)))"
  "evolves (plat E) (sdb s) (sdb (snd (handleAccountDeleteRequest E now preq r s)))"
  "evolves (plat E) (sdb s) (sdb (snd (handleAccountDeleteCancel E now r s)))"
  by (simp_all add: handlePrivacySettings_def handlePrivacySettingsUpdate_def handlePrivacyExport_def handlePrivacyPurge_def
      handleAccountDeleteRequest_def handleAccountDeleteCancel_def case_prod_beta Let_def effects split: sum.split option.split)

lemma site_handler_effects:
  "evolves (plat E) (sdb s) (sdb (snd (handleCrawl E now sreq r s)))"
  "evolves (plat E) (sdb s) (sdb (snd (handleRecrawl E now sreq r s)))"
  "evolves (plat E) (sdb s) (sdb (snd (handleCrawlBulk E now lreq r s)))"
  "evolves (plat E) (sdb s) (sdb (snd (handleQueue r s)))"
  "evolves (plat E) (sdb s) (sdb (snd (handleNodes r s)))" "evolves (plat E) (sdb s) (sdb (snd (handleNode E sreq r s)))"
  "evolves (plat E) (sdb s) (sdb (snd (handleEdges r s)))" "evolves (plat E) (sdb s) (sdb (snd (handleSearch E now preq r s)))"
  "evolves (plat E) (sdb s) (sdb (snd (handleBlacklistList r s)))"
  "evolves (plat E) (sdb s) (sdb (snd (handleBlacklistAdd E now sreq r s)))"
  "evolves (plat E) (sdb s) (sdb (snd (handleBlacklistDelete E now r s)))"
  "evolves (plat E) (sdb s) (sdb (snd (handleStatus E r s)))" "evolves (plat E) (sdb s) (sdb (snd (handleTimeline now r s)))"
  "evolves (plat E) (sdb s) (sdb (snd (handleExport E r s)))"
  by (simp_all add: handleCrawl_def handleRecrawl_def handleCrawlBulk_def AddToQueue_def handleQueue_def handleNodes_def
      handleNode_def handleEdges_def handleSearch_def handleBlacklistList_def handleBlacklistAdd_def handleBlacklistDelete_def
      handleStatus_def handleTimeline_def handleExport_def case_prod_beta Let_def effects split: sum.split option.split)

lemma annotation_handler_effects:
  "evolves (plat E) (sdb s) (sdb (snd (handleAnnotation E sreq r s)))"
  "evolves (plat E) (sdb s) (sdb (snd (handleTag E treq r s)))"
  "evolves (plat E) (sdb s) (sdb (snd (handleNote E now preq r s)))"
  "evolves (plat E) (sdb s) (sdb (snd (handleTags E r s)))"
  "evolves (plat E) (sdb s) (sdb (snd (handleWatch E now wreq r s)))"
  "evolves (plat E) (sdb s) (sdb (snd (handleWatches r s)))"
  "evolves (plat E) (sdb s) (sdb (snd (handleWatchEvents r s)))"
  "evolves (plat E) (sdb s) (sdb (snd (handleWatchEventsSeen now r s)))"
  by (simp_all add: handleAnnotation_def handleTag_def handleNote_def handleTags_def handleWatch_def handleWatches_def
      handleWatchEvents_def handleWatchEventsSeen_def case_prod_beta Let_def effects split: sum.split option.split)

lemma ep_handler_effect: "evolves (plat E) (sdb s) (sdb (snd (ep_handler E now ep r s)))"
  by (cases ep) (simp_all add: auth_handler_effects session_handler_effects privacy_handler_effects site_handler_effects
      annotation_handler_effects)

subsection \<open>Requests\<close>

lemma LoadDBRole_effect:
  assumes "\<And>r s. evolves P (sdb s) (sdb (snd (h r s)))"
  shows "evolves P (sdb s) (sdb (snd (LoadDBRole now h r s)))"
proof -
  have "evolves P (sdb s) (sdb (snd (h r' (s\<lparr>sdb := TouchSession now tok st (sdb s)\<rparr>))))" for r' tok st
    by (rule evolves_trans [OF _ assms]) (simp add: effects)
  then show ?thesis using assms
    by (simp add: LoadDBRole_def case_prod_beta Let_def effects split: option.split)
qed

lemma RequireAuth_effect:
  "evolves P (sdb s) (sdb (snd (h r s))) \<Longrightarrow> evolves P (sdb s) (sdb (snd (RequireAuth h r s)))"
  by (simp add: RequireAuth_def effects)

lemma RequireAdminDB_effect:
  "(\<And>r s. evolves P (sdb s) (sdb (snd (h r s)))) \<Longrightarrow> evolves P (sdb s) (sdb (snd (RequireAdminDB mfa h r s)))"
  by (simp add: RequireAdminDB_def case_prod_beta Let_def effects split: option.split sum.split)

lemma dispatch_effect: "evolves (plat E) (sdb s) (sdb (snd (dispatch E now ep r s)))"
  by (simp add: dispatch_def effects ep_handler_effect RequireAuth_effect LoadDBRole_effect RequireAdminDB_effect
      split: group.split)

lemma serve_effect: "evolves (plat E) (sdb s) (sdb (snd (serve E now ep r s)))"
  by (simp add: serve_def NoStore_def TrustedRealIP_def JWTMiddleware_def CSRFProtect_def case_prod_beta Let_def
      dispatch_effect effects split: option.split)

lemma system_invariant: "sys_ok d \<Longrightarrow> sys_ok (sys_run P ops d)"
  by (rule schema.keeps_run) (simp_all add: list_all_iff)

subsection \<open>A full batch\<close>

text \<open>
  A bulk submission is charged for the request and again for its URLs. Twenty URLs, the largest batch it
  accepts, then always exceed the twenty units of the window.
\<close>

theorem full_batch_always_refused:
  assumes "limiter_live (crawlLim s)" and "limit (crawlLim s) = 20" and "\<not> IsAdmin r" and "length urls = 20"
  shows "status (fst (handleCrawlBulk E now (Some urls) r s)) = 429"
proof -
  let ?l = "snd (AllowN now (RequestKey r) 1 (crawlLim s))"
  have "\<not> fst (AllowN now (RequestKey r) 20 ?l)" if "fst (AllowN now (RequestKey r) 1 (crawlLim s))"
    by (rule second_charge_refused [OF assms(1) that]) (simp_all add: assms(2))
  moreover have "urls \<noteq> []" using assms(4) by auto
  ultimately show ?thesis using assms(3,4)
    by (simp add: handleCrawlBulk_def crawl_allowed_def charge_def case_prod_beta Let_def WriteJSONError_def)
qed

end
