(* ===== verification/Startup.thy ===== *)
theory Startup
  imports Engine Router
begin

section \<open>Start-up and background work: cmd/api/main.go and cmd/crawler/main.go\<close>

text \<open>
  The settings read from the environment, the state the server starts with, the passes of the background
  goroutines, and the one-shot crawler. \<open>env\<close> is \<open>os.Getenv\<close>. A number of days becomes nanoseconds in 64 bits,
  where the product wraps. Opening the database and the versioned migrations are the argument \<open>connect\<close>,
  None for an error. The tickers are not modelled: a pass may run at any time. Serving \<open>/healthz\<close>, \<open>/readyz\<close>
  and \<open>/metrics\<close>, the gauges and the shutdown sequence have no effect on the state.
\<close>

type_synonym environ = "string \<Rightarrow> string"

subsection \<open>Settings\<close>

definition env_or :: "environ \<Rightarrow> string \<Rightarrow> string \<Rightarrow> string" where
  "env_or env k dflt = (if env k = [] then dflt else env k)"

definition env_pos :: "environ \<Rightarrow> string \<Rightarrow> int \<Rightarrow> int" where
  "env_pos env k dflt = (case Atoi (env k) of Some n \<Rightarrow> if n > 0 then n else dflt | None \<Rightarrow> dflt)"

definition env_days :: "environ \<Rightarrow> string \<Rightarrow> int \<Rightarrow> duration" where
  "env_days env k dflt = sint (word_of_int (env_pos env k dflt) * 24 * word_of_int Hour :: 64 word)"

record settings =
  st_port :: string
  st_workers :: int
  st_maxDepth :: int
  st_torProxy :: string
  st_corsOrigin :: string
  st_maxPending :: int
  st_torCtrlAddr :: string
  st_reviveAfter :: duration
  st_reviveBatch :: int
  st_auditRetention :: duration
  st_deletionGrace :: duration
  st_retentionBatch :: int
  st_retentionDryRun :: bool

definition read_settings :: "environ \<Rightarrow> settings" where
  "read_settings env =
     \<lparr>st_port = env_or env ''PORT'' ''8900'', st_workers = env_pos env ''WORKERS'' 3,
      st_maxDepth = env_pos env ''MAX_DEPTH'' 2, st_torProxy = env_or env ''TOR_PROXY'' ''127.0.0.1:9050'',
      st_corsOrigin = env_or env ''CORS_ORIGIN'' ''http://localhost:5173'',
      st_maxPending = (case Atoi (env ''MAX_PENDING_PER_USER'') of Some q \<Rightarrow> if q \<ge> 0 then q else 500 | None \<Rightarrow> 500),
      st_torCtrlAddr = env_or env ''TOR_CONTROL_ADDR'' ''127.0.0.1:9051'',
      st_reviveAfter = env_days env ''REVIVE_FAILED_AFTER_DAYS'' 7, st_reviveBatch = env_pos env ''REVIVE_BATCH'' 500,
      st_auditRetention = env_days env ''AUDIT_RETENTION_DAYS'' 90,
      st_deletionGrace = env_days env ''ACCOUNT_DELETION_GRACE_DAYS'' 7,
      st_retentionBatch = env_pos env ''RETENTION_BATCH'' 1000,
      st_retentionDryRun = (env ''RETENTION_DRY_RUN'' = ''true'')\<rparr>"

text \<open>What \<open>api.New\<close> is given, after it insisted on a grace period; the pending cap is the engine's.\<close>

definition api_config :: "environ \<Rightarrow> config" where
  "api_config env =
     (let st = read_settings env in
      \<lparr>AllowRegistration = (env ''ALLOW_REGISTRATION'' = ''true''), AdminEmail = env ''ADMIN_EMAIL'',
       RequireAdminMFA = (env ''REQUIRE_ADMIN_MFA'' \<noteq> ''false''), Workers = st_workers st,
       DeletionGrace = deletion_grace (st_deletionGrace st), MaxPendingPerUser = st_maxPending st\<rparr>)"

definition cors_origins :: "environ \<Rightarrow> string list" where
  "cors_origins env = SplitAndTrim (st_corsOrigin (read_settings env)) CHR '',''"

subsection \<open>Start-up\<close>

definition InitDB :: "platform \<Rightarrow> (string \<Rightarrow> db option) \<Rightarrow> string \<Rightarrow> db option" where
  "InitDB P connect dsn = map_option (\<lambda>d. reset_crawling (migrateOpaqueTokens P d)) (connect dsn)"

text \<open>The zero value of \<open>time.Time\<close>.\<close>

definition zero_time :: time where "zero_time = - 62135596800 * Second"

definition NewTorController :: "string \<Rightarrow> string \<Rightarrow> duration \<Rightarrow> TorController" where
  "NewTorController password cookiePath cooldown =
     \<lparr>tc_password = password, tc_cookiePath = cookiePath, tc_lastRenewal = zero_time, tc_cooldown = cooldown\<rparr>"

datatype exit_reason = MissingDSN | WeakSecret | DBFailed

record running =
  ru_secret :: bytes
  ru_settings :: settings
  ru_config :: config
  ru_engine :: engine
  ru_workers :: "phase list"
  ru_server :: server

text \<open>The renewal at start-up only tells whether the control port answers.\<close>

definition start_up ::
    "platform \<Rightarrow> (string \<Rightarrow> db option) \<Rightarrow> (string list \<Rightarrow> string option) \<Rightarrow> string option \<Rightarrow> time \<Rightarrow> time \<Rightarrow> environ \<Rightarrow>
     exit_reason + running" where
  "start_up P connect talk cookie now now' env =
     (if env ''DATABASE_URL'' = [] then Inl MissingDSN
      else case getJWTSecret (env ''JWT_SECRET'') of
        None \<Rightarrow> Inl WeakSecret
      | Some secret \<Rightarrow>
          (case InitDB P connect (env ''DATABASE_URL'') of
             None \<Rightarrow> Inl DBFailed
           | Some d \<Rightarrow>
               let st = read_settings env;
                   ctrl = NewTorController (env ''TOR_CONTROL_PASSWORD'') (env ''TOR_CONTROL_COOKIE'') (30 * Second);
                   tor = (case RenewCircuit talk cookie now now' ctrl of (Inl _, _) \<Rightarrow> None | (Inr _, c) \<Rightarrow> Some c);
                   (e, ws) = NewEngine d tor (nat (st_workers st))
               in Inr \<lparr>ru_secret = secret, ru_settings = st, ru_config = api_config env, ru_engine = e, ru_workers = ws,
                       ru_server = New d\<rparr>))"

subsection \<open>Background passes\<close>

definition stuck_sweep :: "time \<Rightarrow> db \<Rightarrow> db" where
  "stuck_sweep now d = snd (ResetStuckCrawling now (10 * Minute) d)"

definition revive_sweep :: "settings \<Rightarrow> (node_row \<Rightarrow> nat) \<Rightarrow> time \<Rightarrow> db \<Rightarrow> db" where
  "revive_sweep st rank now d = snd (ReviveFailedNodes rank now (st_reviveAfter st) (st_reviveBatch st) d)"

definition audit_sweep :: "settings \<Rightarrow> time \<Rightarrow> db \<Rightarrow> db" where
  "audit_sweep st now d = snd (PurgeOldAuditLogs now (st_auditRetention st) d)"

definition session_sweep :: "time \<Rightarrow> db \<Rightarrow> db" where
  "session_sweep now d = snd (DeleteExpiredSessions now d)"

definition retention_sweep :: "settings \<Rightarrow> (node_row \<Rightarrow> nat) \<Rightarrow> (int \<Rightarrow> time) \<Rightarrow> db \<Rightarrow> RetentionReport \<times> db" where
  "retention_sweep st rank clock d = ApplyRetention rank clock (st_retentionBatch st) (st_retentionDryRun st) d"

definition erase_due :: "platform \<Rightarrow> bytes \<Rightarrow> int \<times> string \<Rightarrow> db \<Rightarrow> db" where
  "erase_due P secret due d =
     snd (DeleteAccount (fst due) (AuditReference P secret ''email'' (NormalizeEmail P (snd due))) d)"

definition deletion_sweep :: "platform \<Rightarrow> bytes \<Rightarrow> (user_row \<Rightarrow> nat) \<Rightarrow> time \<Rightarrow> db \<Rightarrow> db" where
  "deletion_sweep P secret rank now d = fold (erase_due P secret) (DueAccountDeletions rank now 50 d) d"

text \<open>The passes that are one operation of the store each.\<close>

datatype background =
    StuckPass
  | RevivePass "node_row \<Rightarrow> nat"
  | AuditPass
  | SessionPass
  | RetentionPass "node_row \<Rightarrow> nat" "int \<Rightarrow> time"

fun background_pass :: "settings \<Rightarrow> time \<Rightarrow> background \<Rightarrow> db \<Rightarrow> db" where
  "background_pass st now StuckPass d = stuck_sweep now d"
| "background_pass st now (RevivePass rank) d = revive_sweep st rank now d"
| "background_pass st now AuditPass d = audit_sweep st now d"
| "background_pass st now SessionPass d = session_sweep now d"
| "background_pass st now (RetentionPass rank clock) d = snd (retention_sweep st rank clock d)"

subsection \<open>The one-shot crawler\<close>

text \<open>
  \<open>cmd/crawler\<close>: the result printed, None when it exits with an error, and the database afterwards; without a
  database \<open>d0\<close> is None. Nodes and edges are saved for account 1.
\<close>

definition save_links :: "platform \<Rightarrow> time \<Rightarrow> string \<Rightarrow> string list \<Rightarrow> db \<Rightarrow> db" where
  "save_links P now targetURL links d = fold (\<lambda>l d. snd (SaveEdge P now targetURL l 1 1 d)) links d"

definition crawler_main ::
    "platform \<Rightarrow> wire \<Rightarrow> html_lib \<Rightarrow> time \<Rightarrow> string \<Rightarrow> db option \<Rightarrow> ScrapeResult option \<times> db option" where
  "crawler_main P wire html now targetURL d0 =
     (if targetURL = [] then (None, d0)
      else case fst (ScrapePage P wire html targetURL) of
        Scraped r \<Rightarrow>
          (Some r, map_option (\<lambda>d. save_links P now targetURL (FoundOnions r)
             (snd (SaveNode P now targetURL (crawl_result_of r) 1 d))) d0)
      | _ \<Rightarrow> (None, d0))"

end
