(* ===== verification/Lifecycle.thy ===== *)
theory Lifecycle
  imports Annotation_Invariants
begin

section \<open>The change feed, erasure and retention\<close>

text \<open>
  The promises of the watch feed, of account erasure, of retention and of the purges, over the tables
  whose invariant \<open>Annotation_Invariants\<close> keeps.
\<close>

subsection \<open>The feed refines its specification\<close>

text \<open>
  An observation is whether the site answered and the digest of its page. The specification looks at
  the whole history, newest first: it reports a change of reachability against the last observation
  and a change of content against the last observation at which the site answered.
\<close>

type_synonym observation = "bool \<times> string option"

definition expected_kinds :: "observation list \<Rightarrow> observation \<Rightarrow> string list" where
  "expected_kinds past ob =
     (if past = [] then []
      else (if fst (hd past) \<and> \<not> fst ob then [WatchEventUnreachable]
            else if \<not> fst (hd past) \<and> fst ob then [WatchEventRecovered] else []) @
           (case List.find fst past of
              None \<Rightarrow> []
            | Some seen \<Rightarrow>
                if fst ob \<and> snd seen \<noteq> None \<and> snd ob \<noteq> None \<and> snd seen \<noteq> snd ob
                then [WatchEventChanged] else []))"

fun expected_feed :: "observation list \<Rightarrow> observation list \<Rightarrow> string list" where
  "expected_feed past [] = []"
| "expected_feed past (ob # obs) = expected_kinds past ob @ expected_feed (ob # past) obs"

text \<open>
  A crawl of the watched page as the database sees it: the crawl leaves the digest on the node, then
  the outcome is folded into the watch.
\<close>

record crawl_event =
  ce_now :: time
  ce_reach :: bool
  ce_code :: int
  ce_hash :: "string option"

definition set_hash :: "string option \<Rightarrow> node_row \<Rightarrow> node_row" where
  "set_hash h n = n\<lparr>n_hash := h\<rparr>"

definition crawl_observe :: "platform \<Rightarrow> string \<Rightarrow> int \<Rightarrow> crawl_event \<Rightarrow> db \<Rightarrow> db" where
  "crawl_observe P url u e d =
     snd (RecordWatchObservation P (ce_now e) url u (ce_reach e) (ce_code e)
       (update_nodes (node_at url u) (set_hash (ce_hash e)) d))"

definition observation_of :: "crawl_event \<Rightarrow> observation" where
  "observation_of e = (now_reachable (ce_reach e) (ce_code e), ce_hash e)"

definition feed :: "nat \<Rightarrow> db \<Rightarrow> string list" where
  "feed i d = map v_kind (filter (\<lambda>v. v_watch v = i) (events d))"

lemma set_hash_simps [simp]:
  "keeps (set_hash h)" "n_status (set_hash h n) = n_status n" "n_id (set_hash h n) = n_id n"
  "n_user (set_hash h n) = n_user n" "n_url (set_hash h n) = n_url n" "n_hash (set_hash h n) = h"
  by (simp_all add: keeps_def set_hash_def)

lemma set_hash_ok: "sys_ok d \<Longrightarrow> sys_ok (update_nodes Q (set_hash h) d)"
  using node_change_ok [of d "set_hash h" Q] annotations_update [of d "set_hash h" Q] by (simp add: sys_ok_def)

lemma watch_node_unique:
  assumes "sys_ok d" and "w \<in> set (watches d)" and "n \<in> set (nodes d)" and "n_id n = w_node w"
    and "(w', n') \<in> set (watch_nodes d)" and "w_user w' = w_user w" and "n_url n' = n_url n"
  shows "w' = w \<and> n' = n"
proof -
  have ok: "nodes_ok d" "annotations_ok d" using assms(1) by (simp_all add: sys_ok_def db_ok_nodes)
  have w': "w' \<in> set (watches d)" "n' \<in> set (nodes d)" "n_id n' = w_node w'"
    using assms(5) by (auto simp: watch_nodes_iff)
  have owner: "n_user m = w_user v" if "v \<in> set (watches d)" "m \<in> set (nodes d)" "n_id m = w_node v" for v m
  proof -
    have "owns d (w_node v) (w_user v)" using ok(2) that(1) by (auto simp: annotation_defs list_all_iff)
    moreover have "owns d (w_node v) (n_user m)" using that by (auto simp: owns_iff)
    ultimately show ?thesis using annotation_owner [OF ok(1)] by blast
  qed
  have "n' = n"
    using node_key_unique [OF ok(1) w'(2) assms(3)] owner [OF w'] owner [OF assms(2,3,4)] assms(6,7) by simp
  moreover have "distinct (map (\<lambda>w. (w_user w, w_node w)) (watches d))" using ok(2) by (simp add: annotation_defs)
  ultimately show ?thesis using distinct_map_eqD [of "\<lambda>w. (w_user w, w_node w)" "watches d" w' w] w'(1,3) assms(2,4,6) by simp
qed

text \<open>One call on a watched site.\<close>

lemma observe_step:
  assumes "sys_ok d" and "w \<in> set (watches d)" and "n \<in> set (nodes d)" and "n_id n = w_node w"
    and "w_user w = u" and "canonicalCrawlURL P url = Inr (n_url n, host)" and "texts_ok [n_url n]"
  shows "snd (RecordWatchObservation P now url u reach code d) =
    (let d1 = fold (insert_event now w u code)
                (watch_kinds (w_reach w) (w_hash w) (now_reachable reach code) (n_hash n)) d
     in d1\<lparr>watches := update_where (\<lambda>w'. w_id w' = w_id w)
          (observed_row now (now_reachable reach code) code (n_hash n)) (watches d1)\<rparr>)"
proof -
  have "first_where (\<lambda>(w, n'). w_user w = u \<and> n_url n' = n_url n) (watch_nodes d) = Some (w, n)"
  proof (rule first_where_unique)
    show "(w, n) \<in> set (watch_nodes d)" using assms(2-4) by (simp add: watch_nodes_iff)
    show "case (w, n) of (w, n') \<Rightarrow> w_user w = u \<and> n_url n' = n_url n" using assms(5) by simp
    show "r' = (w, n)" if "r' \<in> set (watch_nodes d)" "case r' of (w, n') \<Rightarrow> w_user w = u \<and> n_url n' = n_url n" for r'
      using that watch_node_unique [OF assms(1-4), of "fst r'" "snd r'"] assms(5)
      by (simp add: case_prod_beta prod_eq_iff)
  qed
  with assms(6,7) show ?thesis by (simp add: RecordWatchObservation_def Let_def)
qed

text \<open>The state of a watch that has seen \<open>past\<close>.\<close>

definition tracks :: "observation list \<Rightarrow> watch_row \<Rightarrow> bool" where
  "tracks past w =
     (w_reach w = (if past = [] then None else Some (fst (hd past))) \<and>
      w_hash w = (case List.find fst past of None \<Rightarrow> None | Some seen \<Rightarrow> snd seen))"

lemma tracks_kinds:
  assumes "tracks past w"
  shows "watch_kinds (w_reach w) (w_hash w) (fst ob) (snd ob) = expected_kinds past ob"
  using assms by (auto simp: tracks_def watch_kinds_def expected_kinds_def split: option.splits if_splits)

lemma tracks_observed:
  "tracks past w \<Longrightarrow> tracks (ob # past) (observed_row now (fst ob) code (snd ob) w)"
  by (auto simp: tracks_def observed_row_def)

lemma feed_insert:
  "feed (w_id w) (fold (insert_event now w u code) ks d) = feed (w_id w) d @ ks"
proof -
  let ?mk = "\<lambda>(i, k). \<lparr>v_id = i, v_watch = w_id w, v_user = u, v_kind = k, v_code = code, v_at = now, v_seen = None\<rparr>"
  have "map v_kind (filter (\<lambda>v. v_watch v = w_id w) (map ?mk (zip is ks))) = ks" if "length is = length ks" for "is" :: "nat list"
    using that by (induction "is" ks rule: list_induct2) auto
  then show ?thesis by (simp add: feed_def events_insert_event)
qed

lemma crawl_observe_step:
  assumes "sys_ok d" and "w \<in> set (watches d)" and "n \<in> set (nodes d)" and "n_id n = w_node w"
    and "w_user w = n_user n" and "canonicalCrawlURL P (n_url n) = Inr (n_url n, host)" and "texts_ok [n_url n]"
    and "tracks past w"
  shows "let d' = crawl_observe P (n_url n) (n_user n) e d in sys_ok d' \<and>
    feed (w_id w) d' = feed (w_id w) d @ expected_kinds past (observation_of e) \<and>
    (\<exists>w' n'. w' \<in> set (watches d') \<and> n' \<in> set (nodes d') \<and> w_id w' = w_id w \<and> w_node w' = w_node w \<and>
       w_user w' = w_user w \<and> n_id n' = n_id n \<and> n_url n' = n_url n \<and> n_user n' = n_user n \<and>
       tracks (observation_of e # past) w')"
proof -
  let ?d = "update_nodes (node_at (n_url n) (n_user n)) (set_hash (ce_hash e)) d"
  let ?n = "set_hash (ce_hash e) n"
  let ?ob = "observation_of e"
  have n: "?n \<in> set (nodes ?d)" using assms(3) by (auto simp: in_update_where_cases node_at_def)
  have ok: "sys_ok ?d" using set_hash_ok assms(1) by blast
  have w: "w \<in> set (watches ?d)" using assms(2) by (simp add: update_nodes_def)
  have "sys_ok (crawl_observe P (n_url n) (n_user n) e d)"
    using sys_apply_ok [OF ok, of P "Annotate (Observe (ce_now e) (n_url n) (n_user n) (ce_reach e) (ce_code e))"]
    by (simp add: crawl_observe_def)
  moreover have d': "crawl_observe P (n_url n) (n_user n) e d =
    (let d1 = fold (insert_event (ce_now e) w (n_user n) (ce_code e)) (expected_kinds past ?ob) ?d
     in d1\<lparr>watches := update_where (\<lambda>w'. w_id w' = w_id w)
          (observed_row (ce_now e) (fst ?ob) (ce_code e) (snd ?ob)) (watches d1)\<rparr>)"
    using observe_step [OF ok w n, of "n_user n" P "n_url n" host] assms(4-7) tracks_kinds [OF assms(8), of ?ob]
    by (simp add: crawl_observe_def observation_of_def)
  moreover have "feed (w_id w) (crawl_observe P (n_url n) (n_user n) e d) = feed (w_id w) d @ expected_kinds past ?ob"
    using feed_insert [of w "ce_now e" "n_user n" "ce_code e" "expected_kinds past ?ob" ?d]
    unfolding d' by (simp add: feed_def Let_def update_nodes_def)
  moreover have "observed_row (ce_now e) (fst ?ob) (ce_code e) (snd ?ob) w \<in>
      set (watches (crawl_observe P (n_url n) (n_user n) e d))"
    unfolding d' using w by (auto simp: Let_def fold_insert_event in_update_where_cases)
  moreover have "?n \<in> set (nodes (crawl_observe P (n_url n) (n_user n) e d))"
    unfolding d' using n by (simp add: Let_def fold_insert_event)
  moreover have "tracks (?ob # past) (observed_row (ce_now e) (fst ?ob) (ce_code e) (snd ?ob) w)"
    using tracks_observed assms(8) by blast
  ultimately show ?thesis
    unfolding Let_def by (intro conjI exI [of _ "observed_row (ce_now e) (fst ?ob) (ce_code e) (snd ?ob) w"] exI [of _ ?n])
      (simp_all add: observed_row_def)
qed

lemma watch_feed_run:
  assumes "sys_ok d" and "w \<in> set (watches d)" and "n \<in> set (nodes d)" and "n_id n = w_node w"
    and "w_user w = n_user n" and "canonicalCrawlURL P (n_url n) = Inr (n_url n, host)" and "texts_ok [n_url n]"
    and "tracks past w"
  shows "feed (w_id w) (fold (crawl_observe P (n_url n) (n_user n)) es d) =
    feed (w_id w) d @ expected_feed past (map observation_of es)"
  using assms
proof (induction es arbitrary: d w n past)
  case (Cons e es)
  let ?d = "crawl_observe P (n_url n) (n_user n) e d"
  from crawl_observe_step [OF Cons.prems, of e] obtain w' n'
    where ok: "sys_ok ?d" and f: "feed (w_id w) ?d = feed (w_id w) d @ expected_kinds past (observation_of e)"
      and w': "w' \<in> set (watches ?d)" "w_id w' = w_id w" "w_node w' = w_node w" "w_user w' = w_user w"
      and n': "n' \<in> set (nodes ?d)" "n_id n' = n_id n" "n_url n' = n_url n" "n_user n' = n_user n"
      and tr: "tracks (observation_of e # past) w'"
    unfolding Let_def by blast
  have "feed (w_id w') (fold (crawl_observe P (n_url n') (n_user n')) es ?d) =
      feed (w_id w') ?d @ expected_feed (observation_of e # past) (map observation_of es)"
    by (rule Cons.IH [OF ok w'(1) n'(1) _ _ _ _ tr]) (use Cons.prems w' n' in simp_all)
  with f w' n' show ?case by simp
qed simp

text \<open>
  C9. The feed of a watch refines its history specification: after any sequence of crawls of a newly
  watched site, the events recorded are exactly those the specification derives from the observations
  made. A site that stays down is reported once, the baseline is silent, and content that changed while
  the site did not answer is reported when it answers again.
\<close>

theorem watch_feed_refines:
  assumes "sys_ok d" and "w \<in> set (watches d)" and "n \<in> set (nodes d)" and "n_id n = w_node w"
    and "canonicalCrawlURL P (n_url n) = Inr (n_url n, host)" and "texts_ok [n_url n]"
    and "w_reach w = None" and "w_hash w = None"
  shows "feed (w_id w) (fold (crawl_observe P (n_url n) (n_user n)) es d) =
    feed (w_id w) d @ expected_feed [] (map observation_of es)"
proof -
  have "owns d (w_node w) (w_user w)" "owns d (w_node w) (n_user n)"
    using assms(1-4) by (auto simp: sys_ok_def annotation_defs list_all_iff owns_iff)
  then have "w_user w = n_user n"
    using annotation_owner [of d] assms(1) unfolding sys_ok_def by (blast dest: db_ok_nodes)
  moreover have "tracks [] w" using assms(7,8) by (simp add: tracks_def)
  ultimately show ?thesis using watch_feed_run [OF assms(1-4) _ assms(5,6)] by blast
qed

subsection \<open>Erasure\<close>

text \<open>The rows of an account in every table, and the rows of everybody else.\<close>

definition footprint :: "(int \<Rightarrow> bool) \<Rightarrow> db \<Rightarrow> db" where
  "footprint Q d =
     \<lparr>users = filter (\<lambda>r. Q (us_id r)) (users d), nodes = filter (\<lambda>n. Q (n_user n)) (nodes d),
      edges = filter (\<lambda>e. Q (e_user e)) (edges d), blacklist = [], audit = [],
      sessions = filter (\<lambda>s. Q (s_user s)) (sessions d), codes = filter (\<lambda>c. Q (c_user c)) (codes d),
      tags = filter (\<lambda>t. Q (t_user t)) (tags d), site_notes = filter (\<lambda>x. Q (o_user x)) (site_notes d),
      watches = filter (\<lambda>w. Q (w_user w)) (watches d), events = filter (\<lambda>v. Q (v_user v)) (events d),
      migrations = [], next_id = 1\<rparr>"

lemma filter_delete_where:
  "(\<And>x. x \<in> set t \<Longrightarrow> Q x \<Longrightarrow> \<not> R x) \<Longrightarrow> filter Q (delete_where R t) = filter Q t"
  unfolding delete_where_def by (induction t) auto

lemma filter_delete_none:
  "(\<And>x. x \<in> set t \<Longrightarrow> Q x \<Longrightarrow> R x) \<Longrightarrow> filter Q (delete_where R t) = []"
  unfolding delete_where_def by (induction t) auto

lemma delete_user_tables:
  "edges (delete_user u d) = delete_where (\<lambda>e. e_user e = u)
     (delete_where (\<lambda>e. (e_source e, e_user e) \<in> set (map n_key (filter (\<lambda>n. n_user n = u) (nodes d)))) (edges d))"
  "tags (delete_user u d) = delete_where (\<lambda>t. t_user t = u)
     (delete_where (\<lambda>t. t_node t \<in> n_id ` {n \<in> set (nodes d). n_user n = u}) (tags d))"
  "site_notes (delete_user u d) = delete_where (\<lambda>x. o_user x = u)
     (delete_where (\<lambda>x. o_node x \<in> n_id ` {n \<in> set (nodes d). n_user n = u}) (site_notes d))"
  "watches (delete_user u d) = delete_where (\<lambda>w. w_user w = u)
     (delete_where (\<lambda>w. w_node w \<in> n_id ` {n \<in> set (nodes d). n_user n = u}) (watches d))"
  "events (delete_user u d) = delete_where (\<lambda>v. v_user v = u)
     (events (delete_watches (\<lambda>w. w_user w = u) (delete_nodes (\<lambda>n. n_user n = u) d)))"
  by (simp_all add: delete_user_def delete_watches_def delete_nodes_fields delete_nodes_more Let_def)

lemma events_delete_user:
  "events (delete_user u d) = delete_where (\<lambda>v. v_user v = u)
     (delete_where (\<lambda>v. v_watch v \<in> w_id ` {w \<in> set (watches d). w_user w = u \<and> w_node w \<notin> n_id ` {n \<in> set (nodes d). n_user n = u}})
       (delete_where (\<lambda>v. v_watch v \<in> w_id ` {w \<in> set (watches d). w_node w \<in> n_id ` {n \<in> set (nodes d). n_user n = u}}) (events d)))"
proof -
  have "{w \<in> set (delete_where R (watches d)). w_user w = u} = {w \<in> set (watches d). w_user w = u \<and> \<not> R w}" for R
    by auto
  then show ?thesis by (simp add: delete_user_tables(5) delete_watches_def delete_nodes_def Let_def)
qed

text \<open>Under the invariant nothing of another account refers to a node or a watch of \<open>u\<close>.\<close>

lemma foreign_reference:
  assumes "sys_ok d" and "owns d i v" and "v \<noteq> u"
  shows "i \<notin> n_id ` {n \<in> set (nodes d). n_user n = u}"
proof
  assume "i \<in> n_id ` {n \<in> set (nodes d). n_user n = u}"
  then have "owns d i u" by (auto simp: owns_iff)
  with assms annotation_owner [of d i u v] show False by (auto simp: sys_ok_def dest: db_ok_nodes)
qed

lemma foreign_event:
  assumes "sys_ok d" and "v \<in> set (events d)" and "v_user v \<noteq> u" and "w \<in> set (watches d)" and "w_id w = v_watch v"
  shows "w_user w \<noteq> u \<and> w_node w \<notin> n_id ` {n \<in> set (nodes d). n_user n = u}"
proof -
  have ok: "watches_ok d" "events_ok d" using assms(1) by (simp_all add: sys_ok_def annotations_ok_def)
  obtain w' where w': "w' \<in> set (watches d)" "w_id w' = v_watch v" "w_user w' = v_user v"
    using ok(2) assms(2) by (auto simp: events_ok_def list_all_iff list_ex_iff)
  then have "w' = w" using distinct_map_eqD [of w_id "watches d" w' w] ok(1) assms(4,5) by (simp add: watches_ok_def)
  moreover have "owns d (w_node w) (w_user w)" using ok(1) assms(4) by (simp add: watches_ok_def list_all_iff)
  ultimately show ?thesis using w'(3) assms(3) foreign_reference [OF assms(1)] by metis
qed

lemma foreign_events_kept:
  assumes "sys_ok d" and "set t \<subseteq> set (events d)"
    and "\<And>w. R w \<Longrightarrow> w_user w = u \<or> w_node w \<in> n_id ` {n \<in> set (nodes d). n_user n = u}"
  shows "filter (\<lambda>v. v_user v \<noteq> u) (delete_where (\<lambda>v. v_watch v \<in> w_id ` {w \<in> set (watches d). R w}) t) =
    filter (\<lambda>v. v_user v \<noteq> u) t"
proof (rule filter_delete_where)
  fix x
  assume x: "x \<in> set t" "v_user x \<noteq> u"
  have "\<not> R w" if "w \<in> set (watches d)" "v_watch x = w_id w" for w
    using foreign_event [OF assms(1) _ x(2) that(1) that(2) [symmetric]] x(1) assms(2,3) by blast
  then show "v_watch x \<notin> w_id ` {w \<in> set (watches d). R w}" by blast
qed

lemma delete_user_footprint:
  assumes "sys_ok d"
  shows "footprint ((=) u) (delete_user u d) = empty_db"
    and "footprint (\<lambda>v. v \<noteq> u) (delete_user u d) = footprint (\<lambda>v. v \<noteq> u) d"
proof -
  show "footprint ((=) u) (delete_user u d) = empty_db"
    by (simp add: footprint_def empty_db_def delete_user_fields delete_user_tables delete_user_others filter_delete_none)
  have ann: "tags_ok d" "notes_ok d" "watches_ok d" "events_ok d"
    using assms by (simp_all add: sys_ok_def annotations_ok_def)
  note keep = filter_delete_where
  have t: "filter (\<lambda>t. t_user t \<noteq> u) (tags (delete_user u d)) = filter (\<lambda>t. t_user t \<noteq> u) (tags d)"
    unfolding delete_user_tables
    by (subst keep, simp, rule keep) (use ann(1) foreign_reference [OF assms] in \<open>auto simp: tags_ok_def list_all_iff\<close>)
  have o': "filter (\<lambda>t. o_user t \<noteq> u) (site_notes (delete_user u d)) = filter (\<lambda>t. o_user t \<noteq> u) (site_notes d)"
    unfolding delete_user_tables
    by (subst keep, simp, rule keep) (use ann(2) foreign_reference [OF assms] in \<open>auto simp: notes_ok_def list_all_iff\<close>)
  have w: "filter (\<lambda>t. w_user t \<noteq> u) (watches (delete_user u d)) = filter (\<lambda>t. w_user t \<noteq> u) (watches d)"
    unfolding delete_user_tables
    by (subst keep, simp, rule keep) (use ann(3) foreign_reference [OF assms] in \<open>auto simp: watches_ok_def list_all_iff\<close>)
  have v: "filter (\<lambda>t. v_user t \<noteq> u) (events (delete_user u d)) = filter (\<lambda>t. v_user t \<noteq> u) (events d)"
    unfolding events_delete_user
    by (subst keep, simp, subst foreign_events_kept [OF assms])
      (auto intro: foreign_events_kept [OF assms])
  have e: "filter (\<lambda>t. e_user t \<noteq> u) (edges (delete_user u d)) = filter (\<lambda>t. e_user t \<noteq> u) (edges d)"
    unfolding delete_user_tables by (subst keep, simp, rule keep) auto
  show "footprint (\<lambda>v. v \<noteq> u) (delete_user u d) = footprint (\<lambda>v. v \<noteq> u) d"
    using t o' w v e by (simp add: footprint_def delete_user_fields delete_user_others delete_where_def)
qed

text \<open>
  Deleting an account erases it: no table keeps a row of the account, the audit log keeps no entry
  under its reference, and nothing of any other account changes.
\<close>

theorem account_erasure:
  assumes "sys_ok d" and "DeleteAccount u ref d = (Inr (), d')"
  shows "footprint ((=) u) d' = empty_db \<and> footprint (\<lambda>v. v \<noteq> u) d' = footprint (\<lambda>v. v \<noteq> u) d \<and>
    audit d' = filter (\<lambda>a. ref = [] \<or> a_email a \<noteq> ref) (audit d)"
proof -
  have audit_ok: "sys_ok (d\<lparr>audit := a\<rparr>)" for a
    using assms(1) blacklist_inv_shrink [of d "d\<lparr>audit := a\<rparr>"] by (simp add: sys_ok_def db_ok_audit annotations_ok_audit)
  have d': "d' = delete_user u (d\<lparr>audit := filter (\<lambda>a. ref = [] \<or> a_email a \<noteq> ref) (audit d)\<rparr>)"
    using assms(2) by (cases "ref = []") (auto simp: DeleteAccount_def delete_where_def split: if_splits)
  have "footprint (\<lambda>v. v \<noteq> u) (d\<lparr>audit := a\<rparr>) = footprint (\<lambda>v. v \<noteq> u) d" for a by (simp add: footprint_def)
  with delete_user_footprint [OF audit_ok] show ?thesis by (simp add: d' delete_user_fields)
qed

subsection \<open>The list of due accounts\<close>

lemma due_listed: "fst ` set (DueAccountDeletions rank t lim d) \<subseteq> us_id ` {r \<in> set (users d). deletion_due t r}"
  using set_order_limit [of "\<lambda>r. (or_else 0 (us_del_for r), rank r)" "if lim \<le> 0 then 50 else nat lim" "filter (deletion_due t) (users d)"]
  unfolding DueAccountDeletions_def Let_def by force

lemma due_complete:
  assumes "count_where (deletion_due t) (users d) \<le> (if lim \<le> 0 then 50 else nat lim)" and "r \<in> set (users d)" and "deletion_due t r"
  shows "us_id r \<in> fst ` set (DueAccountDeletions rank t lim d)"
proof -
  let ?fs = "filter (deletion_due t) (users d)"
  have "set (order_limit (\<lambda>r. (or_else 0 (us_del_for r), rank r)) (if lim \<le> 0 then 50 else nat lim) ?fs) = set ?fs"
    using assms(1) by (auto simp: order_limit_def count_where_def)
  then have "fst ` set (DueAccountDeletions rank t lim d) = us_id ` set ?fs"
    unfolding DueAccountDeletions_def Let_def set_map image_image by simp
  then show ?thesis using assms(2,3) by simp
qed

lemma cancelled_not_due: "u \<notin> fst ` set (DueAccountDeletions rank t lim (snd (CancelAccountDeletion u d)))"
proof
  assume "u \<in> fst ` set (DueAccountDeletions rank t lim (snd (CancelAccountDeletion u d)))"
  with due_listed have "u \<in> us_id ` {x \<in> set (users (snd (CancelAccountDeletion u d))). deletion_due t x}" by (rule subsetD)
  then obtain x where x: "x \<in> set (users (snd (CancelAccountDeletion u d)))" "us_id x = u \<and> deletion_due t x" by blast
  from x(1) have "\<not> (us_id x = u \<and> deletion_due t x)"
    unfolding CancelAccountDeletion_def Let_def update_users_fields snd_conv
    by (rule update_where_sets) (auto simp: deletion_due_def)
  with x(2) show False by simp
qed

subsection \<open>One account's annotations do not touch another's\<close>

fun n_actor :: "n_op \<Rightarrow> int option" where
  "n_actor (TagAdd url u tag) = Some u"
| "n_actor (TagDrop url u tag) = Some u"
| "n_actor (Note now url u body) = Some u"
| "n_actor (WatchOn now url u days) = Some u"
| "n_actor (WatchOff url u) = Some u"
| "n_actor (Observe now url u reach code) = Some u"
| "n_actor (SeenAll now u) = Some u"
| "n_actor (PurgeText u) = Some u"
| "n_actor (Retain rank clock batch dry) = None"

lemma filter_update_where:
  "(\<And>x. x \<in> set t \<Longrightarrow> P x \<Longrightarrow> \<not> Q x \<and> \<not> Q (f x)) \<Longrightarrow> filter Q (update_where P f t) = filter Q t"
  by (induction t) auto

lemma filter_events_delete_watches:
  assumes "sys_ok d" and "\<And>w. R w \<Longrightarrow> w_user w = u"
  shows "filter (\<lambda>v. v_user v \<noteq> u) (events (delete_watches R d)) = filter (\<lambda>v. v_user v \<noteq> u) (events d)"
  using foreign_events_kept [OF assms(1) order_refl, of R u] assms(2) by (simp add: delete_watches_def Let_def)

lemma footprint_events:
  assumes "w_user w = u"
  shows "footprint (\<lambda>v. v \<noteq> u) (fold (insert_event now w u code) ks d) = footprint (\<lambda>v. v \<noteq> u) d"
  by (induction ks arbitrary: d) (simp_all add: insert_event_def footprint_def)

lemma footprint_update_watches:
  assumes "\<And>w. w \<in> set (watches d) \<Longrightarrow> Q w \<Longrightarrow> w_user w = u \<and> w_user (f w) = u"
  shows "footprint (\<lambda>v. v \<noteq> u) (d\<lparr>watches := update_where Q f (watches d)\<rparr>) = footprint (\<lambda>v. v \<noteq> u) d"
  using assms filter_update_where [of "watches d" Q "\<lambda>w. w_user w \<noteq> u" f] by (simp add: footprint_def)

lemma footprint_update_nodes:
  assumes "\<And>n. Q n \<Longrightarrow> n_user n = u \<and> n_user (f n) = u"
  shows "footprint (\<lambda>v. v \<noteq> u) (update_nodes Q f d) = footprint (\<lambda>v. v \<noteq> u) d"
  using assms filter_update_where [of "nodes d" Q "\<lambda>n. n_user n \<noteq> u" f] by (simp add: footprint_def update_nodes_def)

lemma footprint_Observe:
  assumes "sys_ok d"
  shows "footprint (\<lambda>v. v \<noteq> u) (snd (RecordWatchObservation P now url u reach code d)) = footprint (\<lambda>v. v \<noteq> u) d"
  using RecordWatchObservation_cases [of P now url u reach code d]
proof (elim disjE exE conjE)
  fix canonical w n
  assume f: "first_where (\<lambda>(w, n). w_user w = u \<and> n_url n = canonical) (watch_nodes d) = Some (w, n)"
    and s: "snd (RecordWatchObservation P now url u reach code d) =
        (let d1 = fold (insert_event now w u code)
                    (watch_kinds (w_reach w) (w_hash w) (now_reachable reach code) (n_hash n)) d
         in d1\<lparr>watches := update_where (\<lambda>w'. w_id w' = w_id w)
              (observed_row now (now_reachable reach code) code (n_hash n)) (watches d1)\<rparr>)"
  have w: "w \<in> set (watches d)" "w_user w = u" using first_where_Some [OF f] by (auto simp: watch_nodes_iff)
  have "w' = w" if "w' \<in> set (watches d)" "w_id w' = w_id w" for w'
    using that w assms distinct_map_eqD [of w_id "watches d"] by (auto simp: sys_ok_def annotation_defs)
  with w show ?thesis
    unfolding s Let_def
    by (subst footprint_update_watches) (auto simp: fold_insert_event observed_row_def footprint_events)
qed simp

lemma footprint_StartWatch: "footprint (\<lambda>v. v \<noteq> u) (snd (StartWatch P now url u days d)) = footprint (\<lambda>v. v \<noteq> u) d"
proof -
  have up: "footprint (\<lambda>v. v \<noteq> u) (upsert_watch now u i days d) = footprint (\<lambda>v. v \<noteq> u) d" for i
    using footprint_update_watches [of d "watch_at u i" u "\<lambda>w. w\<lparr>w_interval := days\<rparr>"]
    by (auto simp: upsert_watch_def watch_at_def footprint_def)
  have "footprint (\<lambda>v. v \<noteq> u) (update_nodes (\<lambda>n. n_id n = i \<and> n_user n = u) (watched_row now days) e) =
      footprint (\<lambda>v. v \<noteq> u) e" for i e
    by (rule footprint_update_nodes) (simp add: watched_row_def)
  with up show ?thesis by (simp add: StartWatch_def Let_def split: sum.split)
qed

lemma footprint_StopWatch:
  assumes "sys_ok d"
  shows "footprint (\<lambda>v. v \<noteq> u) (snd (StopWatch P url u d)) = footprint (\<lambda>v. v \<noteq> u) d"
proof -
  have "footprint (\<lambda>v. v \<noteq> u) (delete_watches (watch_at u i) d) = footprint (\<lambda>v. v \<noteq> u) d" for i
    using filter_events_delete_watches [OF assms, of "watch_at u i" u]
    by (simp add: footprint_def watch_at_def delete_watches_def Let_def filter_delete_where)
  then show ?thesis by (simp add: StopWatch_def split: sum.split)
qed

lemma footprint_SetNote: "footprint (\<lambda>v. v \<noteq> u) (snd (SetNote P now url u text d)) = footprint (\<lambda>v. v \<noteq> u) d"
proof -
  have "filter (\<lambda>x. o_user x \<noteq> u) (update_where (note_at u i) (\<lambda>x. x\<lparr>o_body := b, o_at := now\<rparr>) (site_notes d)) =
      filter (\<lambda>x. o_user x \<noteq> u) (site_notes d)" for i b
    by (rule filter_update_where) (simp add: note_at_def)
  then show ?thesis by (simp add: SetNote_def Let_def footprint_def note_at_def filter_delete_where split: sum.split)
qed

text \<open>
  C33. Tagging, noting, watching, recording observations, reading the feed and purging page text for one
  account leave every table row of every other account as it was.
\<close>

theorem annotation_isolation:
  assumes "sys_ok d" and "n_actor opn = Some u"
  shows "footprint (\<lambda>v. v \<noteq> u) (n_apply P opn d) = footprint (\<lambda>v. v \<noteq> u) d"
proof (cases opn)
  case (PurgeText u')
  have "footprint (\<lambda>v. v \<noteq> u) (update_nodes (\<lambda>n. n_user n = u \<and> has_content n) (\<lambda>n. n\<lparr>n_content := None, n_hash := None\<rparr>) d) =
      footprint (\<lambda>v. v \<noteq> u) d"
    by (rule footprint_update_nodes) simp
  with PurgeText assms(2) show ?thesis by (simp add: PurgeStoredContent_def Let_def)
next
  case (TagAdd url u' tag)
  then show ?thesis using assms(2) by (simp add: AddTag_def Let_def footprint_def split: sum.split)
next
  case (TagDrop url u' tag)
  then show ?thesis
    using assms(2) by (simp add: RemoveTag_def footprint_def tag_at_def filter_delete_where split: sum.split)
next
  case (SeenAll now u')
  have "filter (\<lambda>v. v_user v \<noteq> u) (update_where (\<lambda>v. v_user v = u \<and> v_seen v = None) (\<lambda>v. v\<lparr>v_seen := Some now\<rparr>) (events d)) =
      filter (\<lambda>v. v_user v \<noteq> u) (events d)"
    by (rule filter_update_where) simp
  with SeenAll assms(2) show ?thesis by (simp add: MarkWatchEventsSeen_def Let_def footprint_def)
qed (use assms in \<open>simp_all add: footprint_StartWatch footprint_StopWatch footprint_SetNote footprint_Observe\<close>)

subsection \<open>Retention removes only what expired\<close>

lemma retention_ids_expired:
  assumes "nodes_ok d" and "n \<in> set (nodes d)" and "n_id n \<in> set (retention_ids rank u cutoff batch d)"
  shows "expired d u cutoff n"
proof -
  obtain m where m: "m \<in> set (nodes d)" "expired d u cutoff m" "n_id m = n_id n"
    using assms(3) set_order_limit [of "\<lambda>n. (n_discovered n, rank n)" batch "filter (expired d u cutoff) (nodes d)"]
    unfolding retention_ids_def set_map image_iff by fastforce
  with node_id_unique [OF assms(1) m(1) assms(2)] show ?thesis by simp
qed

lemma ex_delete_where:
  "k \<notin> S \<Longrightarrow> (\<exists>x \<in> set (delete_where (\<lambda>x. g x \<in> S) t). g x = k) \<longleftrightarrow> (\<exists>x \<in> set t. g x = k)"
  unfolding set_delete_where by blast

text \<open>Deleting other rows does not change what is written about a row that stays.\<close>

lemma annotated_delete:
  assumes "nodes_ok d" and "n \<in> set (nodes (delete_nodes Q d))"
  shows "annotated (delete_nodes Q d) n = annotated d n"
proof -
  have "n_id n \<notin> n_id ` {m \<in> set (nodes d). Q m}"
    using assms node_id_unique [OF assms(1)] by (auto simp: delete_nodes_fields)
  note ex = ex_delete_where [OF this]
  show ?thesis unfolding annotated_def delete_nodes_more exists_where_iff ex ..
qed

definition may_expire :: "(int \<Rightarrow> time) \<Rightarrow> (int \<times> int) list \<Rightarrow> db \<Rightarrow> node_row \<Rightarrow> bool" where
  "may_expire clock ps d n = (\<exists>days. (n_user n, days) \<in> set ps \<and> expired d (n_user n) (retention_cutoff (clock (n_user n)) days) n)"

lemma retention_fold_safe:
  assumes "db_ok d" and "n \<in> set (nodes d)"
  shows "n \<in> set (nodes (snd (fold (retention_step rank clock batch) ps (rep, d)))) \<or> (\<not> DryRun rep \<and> may_expire clock ps d n)"
  using assms
proof (induction ps arbitrary: rep d)
  case (Cons p ps)
  obtain rep' d' where s: "retention_step rank clock batch p (rep, d) = (rep', d')" by fastforce
  note st = retention_step_snd [of rank clock batch p rep d, unfolded s, simplified]
  have ok: "nodes_ok d" using Cons.prems(1) by (simp add: db_ok_nodes)
  show ?case
  proof (cases "n \<in> set (nodes d')")
    case True
    have "db_ok d'" using st Cons.prems(1) delete_nodes_ok by auto
    from Cons.IH [OF this True, of rep'] have
      "n \<in> set (nodes (snd (fold (retention_step rank clock batch) (p # ps) (rep, d)))) \<or> (\<not> DryRun rep \<and> may_expire clock ps d' n)"
      using s st by simp
    moreover have "may_expire clock ps d' n \<Longrightarrow> may_expire clock (p # ps) d n"
      using st annotated_delete [OF ok, of n] True by (auto simp: may_expire_def expired_def)
    ultimately show ?thesis by blast
  next
    case False
    then have "\<not> DryRun rep" using st Cons.prems(2) by auto
    moreover have "expired d (fst p) (retention_cutoff (clock (fst p)) (snd p)) n"
      using False st Cons.prems(2) retention_ids_expired [OF ok Cons.prems(2)] by (auto simp: delete_nodes_fields)
    then have "may_expire clock (p # ps) d n"
      by (cases p) (auto simp: may_expire_def expired_def)
    ultimately show ?thesis by blast
  qed
qed simp

lemma retention_fold_subset:
  "set (nodes (snd (fold (retention_step rank clock batch) ps s))) \<subseteq> set (nodes (snd s))"
proof (induction ps arbitrary: s)
  case (Cons p ps)
  have "set (nodes (snd (retention_step rank clock batch p s))) \<subseteq> set (nodes (snd s))"
    by (cases s) (auto simp: retention_step_snd delete_nodes_fields)
  with Cons.IH show ?case by fastforce
qed simp

text \<open>
  C31. A retention pass deletes a node only if its owner set a retention window, the node was discovered
  and last crawled before the window, no worker is crawling it and the owner neither tagged nor
  annotated nor watches it. A dry run deletes nothing, and no pass adds a node.
\<close>

theorem retention_only_expired:
  assumes "db_ok d" and "n \<in> set (nodes d)"
    and "n \<notin> set (nodes (snd (ApplyRetention rank clock batch dry d)))"
  shows "\<not> dry \<and> n_status n \<noteq> Crawling \<and> \<not> annotated d n \<and>
    (\<exists>r \<in> set (users d). us_id r = n_user n \<and> us_retention r > 0 \<and>
      n_discovered n < clock (n_user n) - us_retention r * Day \<and>
      (\<forall>t. n_last n = Some t \<longrightarrow> t < clock (n_user n) - us_retention r * Day))"
proof -
  have "\<not> dry \<and> may_expire clock (policies d) d n"
    using assms(3) retention_fold_safe [OF assms(1,2)] unfolding ApplyRetention_def Let_def by fastforce
  then obtain r where r: "r \<in> set (users d)" "us_retention r > 0" "us_id r = n_user n" and dry: "\<not> dry"
    and e: "expired d (n_user n) (clock (n_user n) - us_retention r * Day) n"
    by (auto simp: may_expire_def policies_def retention_cutoff_def)
  have "n_discovered n < clock (n_user n) - us_retention r * Day \<and>
      (\<forall>t. n_last n = Some t \<longrightarrow> t < clock (n_user n) - us_retention r * Day) \<and> n_status n \<noteq> Crawling \<and> \<not> annotated d n"
    using e by (auto simp: expired_def)
  with r dry show ?thesis by blast
qed

subsection \<open>Clearing the history keeps the throttles\<close>

text \<open>
  Clearing an account's login history does not reset any throttle: the counts of failed logins,
  registrations and reset requests over windows of up to two hours are the same before and after, for
  every address; entries under other references stay; everything else of the account is gone.
\<close>

theorem purge_keeps_throttles:
  assumes "PurgeAuthAudit now ref d = (Inr k, d')" and "ref \<noteq> []"
  shows "(\<forall>e window. e \<in> set throttle_events \<and> window \<le> 120 \<longrightarrow>
      CountRecentAuthEvents now e who window d' = CountRecentAuthEvents now e who window d) \<and>
    filter (\<lambda>a. a_email a \<noteq> ref) (audit d') = filter (\<lambda>a. a_email a \<noteq> ref) (audit d) \<and>
    (\<forall>a \<in> set (audit d'). a_email a = ref \<longrightarrow> a_event a \<in> set throttle_events \<and> a_at a > now - 2 * Hour)"
proof -
  let ?hit = "\<lambda>a. a_email a = ref \<and> \<not> (a_event a \<in> set throttle_events \<and> a_at a > now - 2 * Hour)"
  have d': "audit d' = delete_where ?hit (audit d)"
    using assms by (auto simp: PurgeAuthAudit_def Let_def split: if_splits)
  have count: "count_where Q (delete_where ?hit t) = count_where Q t" if "\<And>a. Q a \<Longrightarrow> \<not> ?hit a" for Q t
    using that unfolding count_where_def by (subst filter_delete_where) auto
  have "CountRecentAuthEvents now e who window d' = CountRecentAuthEvents now e who window d"
    if "e \<in> set throttle_events" "window \<le> 120" for e window
    unfolding CountRecentAuthEvents_def d' by (rule count) (use that in auto)
  moreover have "filter (\<lambda>a. a_email a \<noteq> ref) (audit d') = filter (\<lambda>a. a_email a \<noteq> ref) (audit d)"
    unfolding d' by (rule filter_delete_where) simp
  ultimately show ?thesis by (auto simp: d')
qed

end
