(* ===== verification/Api_Access.thy ===== *)
theory Api_Access
  imports Router Account_Invariants
begin

section \<open>Who may do what\<close>

text \<open>
  What stands between the network and a handler: the token, the CSRF check, the current state of the
  account and of its session, the administrator's role. \<open>serve_cases\<close> and \<open>serve_protected\<close> say once
  what every request goes through; the properties follow from them.
\<close>

definition credential :: "env \<Rightarrow> time \<Rightarrow> request \<Rightarrow> Claims option" where
  "credential E now r =
     (if fst (presented_token r) = [] then None
      else ValidateToken (jwt E) (jwt_secret E) now (fst (presented_token r)))"

definition authenticated_as :: "env \<Rightarrow> time \<Rightarrow> request \<Rightarrow> db \<Rightarrow> Claims \<Rightarrow> user_row \<Rightarrow> bool" where
  "authenticated_as E now r d c u =
     (credential E now r = Some c \<and> u \<in> set (users d) \<and> us_id u = UserID c \<and> us_version u = cl_version c \<and>
      (cl_session c = [] \<or> SessionActive now (UserID c) (cl_session c) d))"

definition safe_method :: "string \<Rightarrow> bool" where
  "safe_method m = (m \<in> {''GET'', ''HEAD'', ''OPTIONS''})"

definition echoes_csrf :: "request \<Rightarrow> bool" where
  "echoes_csrf r = (r_header r csrfHeader \<noteq> [] \<and> r_cookie r csrfCookie = Some (r_header r csrfHeader))"

lemma realip_fields [simp]:
  "r_method (realip r) = r_method r" "r_header (realip r) = r_header r" "r_cookie (realip r) = r_cookie r"
  "r_query (realip r) = r_query r" "r_param (realip r) = r_param r" "x_claims (realip r) = x_claims r"
  "x_source (realip r) = x_source r" "x_role (realip r) = x_role r" "x_email (realip r) = x_email r"
  by (simp_all add: realip_def Let_def)

lemma incoming_fields [simp]:
  "r_method (incoming r) = r_method r" "r_header (incoming r) = r_header r" "r_cookie (incoming r) = r_cookie r"
  "r_query (incoming r) = r_query r" "r_param (incoming r) = r_param r" "x_claims (incoming r) = None"
  "x_source (incoming r) = None" "x_role (incoming r) = None" "x_email (incoming r) = None"
  by (simp_all add: incoming_def)

lemma presented_token_cong:
  "r_header r' = r_header r \<Longrightarrow> r_cookie r' = r_cookie r \<Longrightarrow> presented_token r' = presented_token r"
  by (simp add: presented_token_def)

lemma presented_realip: "presented_token (realip (incoming r)) = presented_token r"
  by (rule presented_token_cong) simp_all

text \<open>The request the router sees once the token is read.\<close>

definition with_claims :: "env \<Rightarrow> time \<Rightarrow> request \<Rightarrow> request" where
  "with_claims E now r =
     (case credential E now r of
        None \<Rightarrow> realip (incoming r)
      | Some c \<Rightarrow> (realip (incoming r))\<lparr>x_claims := Some c, x_source := Some (snd (presented_token r))\<rparr>)"

lemma with_claims_fields [simp]:
  "x_claims (with_claims E now r) = credential E now r" "r_method (with_claims E now r) = r_method r"
  "r_header (with_claims E now r) = r_header r" "r_cookie (with_claims E now r) = r_cookie r"
  "r_query (with_claims E now r) = r_query r" "r_param (with_claims E now r) = r_param r"
  "x_role (with_claims E now r) = None" "x_email (with_claims E now r) = None"
  by (simp_all add: with_claims_def split: option.splits)

definition bad_token :: "env \<Rightarrow> time \<Rightarrow> request \<Rightarrow> bool" where
  "bad_token E now r = (fst (presented_token r) \<noteq> [] \<and> credential E now r = None)"

definition csrf_ok :: "env \<Rightarrow> time \<Rightarrow> request \<Rightarrow> bool" where
  "csrf_ok E now r =
     (safe_method (r_method r) \<or> credential E now r = None \<or> snd (presented_token r) \<noteq> ''cookie'' \<or> echoes_csrf r)"

definition refused :: "response \<Rightarrow> bool" where
  "refused resp = (status resp \<in> {401, 403, 405})"

lemma status_simps [simp]:
  "status (WriteJSONError k m) = k" "status (json_reply k p) = k" "status (writeNoStoreJSON k p) = k"
  by (simp_all add: WriteJSONError_def json_reply_def writeNoStoreJSON_def)

text \<open>What every request goes through before its route.\<close>

lemma gate_refuses:
  assumes "bad_token E now r \<or> \<not> csrf_ok E now r"
  shows "refused (fst (JWTMiddleware E now (CSRFProtect h) (realip (incoming r)) s)) \<and>
    snd (JWTMiddleware E now (CSRFProtect h) (realip (incoming r)) s) = s"
proof (cases "credential E now r")
  case None
  then have "ValidateToken (jwt E) (jwt_secret E) now (fst (presented_token r)) = None" "fst (presented_token r) \<noteq> []"
    using assms by (simp_all add: bad_token_def csrf_ok_def credential_def split: if_splits)
  then show ?thesis by (simp add: JWTMiddleware_def presented_realip split_beta refused_def)
next
  case (Some c)
  then have "ValidateToken (jwt E) (jwt_secret E) now (fst (presented_token r)) = Some c" "fst (presented_token r) \<noteq> []"
    by (simp_all add: credential_def split: if_splits)
  moreover have "\<not> csrf_ok E now r" using assms Some by (simp add: bad_token_def)
  ultimately show ?thesis
    by (auto simp: JWTMiddleware_def CSRFProtect_def presented_realip split_beta refused_def csrf_ok_def safe_method_def
        echoes_csrf_def AuthSource_def split: option.split)
qed

lemma gate_passes:
  assumes "\<not> bad_token E now r" and "csrf_ok E now r"
  shows "JWTMiddleware E now (CSRFProtect h) (realip (incoming r)) s = h (with_claims E now r) s"
proof (cases "credential E now r")
  case None
  then have "fst (presented_token r) = []" using assms(1) by (simp add: bad_token_def)
  then show ?thesis using None
    by (simp add: JWTMiddleware_def CSRFProtect_def presented_realip split_beta AuthSource_def with_claims_def)
next
  case (Some c)
  then have "ValidateToken (jwt E) (jwt_secret E) now (fst (presented_token r)) = Some c" "fst (presented_token r) \<noteq> []"
    by (simp_all add: credential_def split: if_splits)
  then show ?thesis using assms(2) Some
    by (auto simp: JWTMiddleware_def CSRFProtect_def presented_realip split_beta csrf_ok_def safe_method_def
        echoes_csrf_def AuthSource_def with_claims_def)
qed

lemma serve_cases:
  obtains (refused) "bad_token E now r \<or> \<not> csrf_ok E now r" "refused (fst (serve E now ep r s))" "snd (serve E now ep r s) = s"
  | (passed) "\<not> bad_token E now r" "csrf_ok E now r"
      "status (fst (serve E now ep r s)) = status (fst (dispatch E now ep (with_claims E now r) s))"
      "snd (serve E now ep r s) = snd (dispatch E now ep (with_claims E now r) s)"
proof (cases "bad_token E now r \<or> \<not> csrf_ok E now r")
  case True
  then show thesis using gate_refuses [OF True] refused
    by (simp add: serve_def NoStore_def TrustedRealIP_def split_beta refused_def)
next
  case False
  then show thesis using passed by (simp add: serve_def NoStore_def TrustedRealIP_def split_beta gate_passes)
qed

lemma credential_UserID: "credential E now r = Some c \<Longrightarrow> 0 < UserID c"
  by (auto simp: credential_def ValidateToken_def Claims_Validate_def split: if_splits option.splits)

definition with_role :: "user_row \<Rightarrow> request \<Rightarrow> request" where
  "with_role u r = r\<lparr>x_role := Some (us_role u), x_email := Some (us_email u)\<rparr>"

definition touched :: "time \<Rightarrow> Claims \<Rightarrow> server \<Rightarrow> server" where
  "touched now c s =
     (if cl_session c = [] then s else s\<lparr>sdb := TouchSession now (cl_session c) sessionTouchInterval (sdb s)\<rparr>)"

lemma LoadDBRole_cases:
  assumes "x_claims r = Some c" and "0 < UserID c"
  obtains (refused) "refused (fst (LoadDBRole now h r s))" "snd (LoadDBRole now h r s) = s"
  | (passed) u where "find_user (UserID c) (sdb s) = Some u" "us_version u = cl_version c"
      "cl_session c = [] \<or> SessionActive now (UserID c) (cl_session c) (sdb s)"
      "LoadDBRole now h r s = h (with_role u r) (touched now c s)"
proof (cases "find_user (UserID c) (sdb s)")
  case None
  then have "refused (fst (LoadDBRole now h r s)) \<and> snd (LoadDBRole now h r s) = s"
    using assms by (simp add: LoadDBRole_def GetUserID_def GetUserAuthInfo_def refused_def)
  with refused show thesis by blast
next
  case (Some u)
  show thesis
  proof (cases "us_version u = cl_version c \<and> (cl_session c = [] \<or> SessionActive now (UserID c) (cl_session c) (sdb s))")
    case True
    then have "LoadDBRole now h r s = h (with_role u r) (touched now c s)"
      using assms Some by (auto simp: LoadDBRole_def GetUserID_def GetUserAuthInfo_def with_role_def touched_def Let_def)
    with True Some passed show thesis by blast
  next
    case False
    then have "refused (fst (LoadDBRole now h r s)) \<and> snd (LoadDBRole now h r s) = s"
      using assms Some by (auto simp: LoadDBRole_def GetUserID_def GetUserAuthInfo_def refused_def Let_def)
    with refused show thesis by blast
  qed
qed

text \<open>A refused request changes nothing but the time at which its session was last used.\<close>

definition only_touched :: "time \<Rightarrow> server \<Rightarrow> server \<Rightarrow> bool" where
  "only_touched now s s' = (s' = s \<or> (\<exists>c. s' = touched now c s))"

lemma find_user_touched [simp]: "find_user i (sdb (touched now c s)) = find_user i (sdb s)"
  by (simp add: touched_def TouchSession_def find_user_def)

text \<open>Every request to a protected route is refused or runs its handler for an authenticated account.\<close>

lemma serve_protected:
  assumes "ep_group ep \<in> {Authenticated, AdminOnly}"
  obtains (refused) "refused (fst (serve E now ep r s))" "only_touched now s (snd (serve E now ep r s))"
  | (passed) c u where "authenticated_as E now r (sdb s) c u" "csrf_ok E now r" "find_user (UserID c) (sdb s) = Some u"
      "ep_group ep = AdminOnly \<longrightarrow> us_role u = ''admin'' \<and> (RequireAdminMFA (cfg E) \<longrightarrow> us_totp_enabled u)"
      "status (fst (serve E now ep r s)) =
         status (fst (ep_handler E now ep (with_role u (with_claims E now r)) (touched now c s)))"
      "snd (serve E now ep r s) = snd (ep_handler E now ep (with_role u (with_claims E now r)) (touched now c s))"
proof (cases rule: serve_cases [of E now r ep s])
  case refused
  then show thesis using that(1) by (simp add: only_touched_def)
next
  case serve: passed
  let ?r = "with_claims E now r"
  let ?h = "if ep_group ep = AdminOnly then RequireAdminDB (RequireAdminMFA (cfg E)) (ep_handler E now ep) else ep_handler E now ep"
  have disp: "dispatch E now ep ?r s = (if r_method r \<noteq> ep_method ep then (method_not_allowed, s)
      else RequireAuth (LoadDBRole now ?h) ?r s)"
    using assms by (auto simp: dispatch_def)
  show thesis
  proof (cases "r_method r = ep_method ep \<and> credential E now r \<noteq> None")
    case False
    then have "refused (fst (dispatch E now ep ?r s)) \<and> snd (dispatch E now ep ?r s) = s"
      by (auto simp: disp refused_def method_not_allowed_def RequireAuth_def)
    with serve that(1) show thesis by (simp add: refused_def only_touched_def)
  next
    case True
    then obtain c where c: "credential E now r = Some c" by auto
    note pos = credential_UserID [OF c]
    have xc: "x_claims ?r = Some c" by (simp add: c)
    have d2: "dispatch E now ep ?r s = LoadDBRole now ?h ?r s" using True c by (simp add: disp RequireAuth_def)
    from xc pos show thesis
    proof (cases rule: LoadDBRole_cases [where now = now and h = ?h and s = s])
      case refused
      with serve d2 that(1) show thesis by (simp add: refused_def only_touched_def)
    next
      case (passed u)
      let ?ok = "ep_group ep = AdminOnly \<longrightarrow> us_role u = ''admin'' \<and> (RequireAdminMFA (cfg E) \<longrightarrow> us_totp_enabled u)"
      have auth: "authenticated_as E now r (sdb s) c u"
        using passed(1-3) c find_user_Some [OF passed(1)] by (simp add: authenticated_as_def)
      have admin: "?h (with_role u ?r) (touched now c s) = ep_handler E now ep (with_role u ?r) (touched now c s)" if ?ok
        using that c pos passed(1) by (auto simp: RequireAdminDB_def GetUserID_def IsAdmin_def with_role_def GetTOTPState_def)
      have no: "refused (fst (?h (with_role u ?r) (touched now c s))) \<and>
          snd (?h (with_role u ?r) (touched now c s)) = touched now c s" if "\<not> ?ok"
        using that c pos passed(1)
        by (auto simp: RequireAdminDB_def GetUserID_def IsAdmin_def with_role_def GetTOTPState_def refused_def)
      show thesis
      proof (cases ?ok)
        case True
        show thesis by (rule that(2) [OF auth serve(2) passed(1) True])
          (use serve d2 passed(4) admin [OF True] in simp_all)
      next
        case False
        then show thesis using that(1) serve d2 passed(4) no [OF False] by (auto simp: refused_def only_touched_def)
      qed
    qed
  qed
qed

text \<open>
  C2. Access control over the whole API: a request to a route outside the public ones either is refused,
  with nothing changed but the last-used time of its session, or it carries a token that validates, names
  an existing account at its current token version and a session that is neither revoked nor expired, and
  passed the CSRF check; on an administrative route that account has the administrator's role in the
  database at that moment and, where the configuration demands it, a second factor.
\<close>

theorem access_control:
  assumes "ep_group ep \<in> {Authenticated, AdminOnly}" and "serve E now ep r s = (resp, s')"
    and "\<not> (refused resp \<and> only_touched now s s')"
  shows "\<exists>c u. authenticated_as E now r (sdb s) c u \<and> csrf_ok E now r \<and>
    (ep_group ep = AdminOnly \<longrightarrow> us_role u = ''admin'' \<and> (RequireAdminMFA (cfg E) \<longrightarrow> us_totp_enabled u))"
  using assms(1)
proof (cases rule: serve_protected [where E = E and now = now and r = r and s = s])
  case refused
  then show ?thesis using assms(2,3) by simp
qed blast


text \<open>
  C36. Cross-site request forgery fails: a request that would change something and is authenticated by
  the ambient session cookie, but does not repeat the CSRF cookie in its header, is answered 403 on
  every route and changes nothing at all.
\<close>

theorem csrf_protects:
  assumes "credential E now r = Some c" and "snd (presented_token r) = authSourceCookie"
    and "\<not> safe_method (r_method r)" and "\<not> echoes_csrf r"
  shows "status (fst (serve E now ep r s)) = 403 \<and> snd (serve E now ep r s) = s"
proof -
  have "ValidateToken (jwt E) (jwt_secret E) now (fst (presented_token r)) = Some c" "fst (presented_token r) \<noteq> []"
    using assms(1) by (simp_all add: credential_def split: if_splits)
  with assms(2-) show ?thesis
    by (auto simp: serve_def NoStore_def TrustedRealIP_def JWTMiddleware_def CSRFProtect_def presented_realip split_beta
        safe_method_def echoes_csrf_def AuthSource_def authSourceCookie_def split: option.split)
qed

end
