(* ===== verification/Api_Login.thy ===== *)
theory Api_Login
  imports Api_Access Lifecycle
begin

section \<open>Logging in, and what the tokens of a login are worth\<close>

text \<open>
  What a login has to prove, what it hands out, how long that works and when it stops working, and what
  the public endpoints tell about an address.
\<close>

subsection \<open>What a login proves\<close>

lemma sdb_charge [simp]:
  "sdb (snd (charge_anon loginLim loginLim_update now r s)) = sdb s"
  "sdb (snd (charge_anon registerLim registerLim_update now r s)) = sdb s"
  "sdb (snd (charge_anon verifyLim verifyLim_update now r s)) = sdb s"
  "sdb (snd (charge_anon resetLim resetLim_update now r s)) = sdb s"
  "sdb (snd (charge crawlLim crawlLim_update now r n s)) = sdb s"
  "sdb (snd (charge searchLim searchLim_update now r n s)) = sdb s"
  "sdb (snd (charge sensitiveLim sensitiveLim_update now r n s)) = sdb s"
  by (simp_all add: charge_anon_def charge_def split_beta)

lemma sdb_log [simp]: "sdb (logAuthEvent E now ev em ip s) = LogAuthEvent now ev (auditEmailReference E em) (auditIPReference E ip) (sdb s)"
  by (simp add: logAuthEvent_def)

lemma LogAuthEvent_fields [simp]:
  "users (LogAuthEvent now ev e i d) = users d" "sessions (LogAuthEvent now ev e i d) = sessions d"
  "codes (LogAuthEvent now ev e i d) = codes d" "nodes (LogAuthEvent now ev e i d) = nodes d"
  by (simp_all add: LogAuthEvent_def)

text \<open>What a second factor is: a fresh one-time code, or an unused recovery code of the account.\<close>

definition factor_proved :: "platform \<Rightarrow> time \<Rightarrow> string \<Rightarrow> user_row \<Rightarrow> db \<Rightarrow> bool" where
  "factor_proved P now code u d =
     (let (step, ok) = ValidateTOTP P (or_else [] (us_totp_secret u)) code (now div Second) in
      if ok then us_totp_last u < sint step
      else \<exists>c \<in> set (codes d). c_user c = us_id u \<and> c_used c = None \<and>
             c_hash c = RecoveryCodeHash P (NormalizeRecoveryCode P code))"

definition same_login :: "user_row \<Rightarrow> user_row \<Rightarrow> bool" where
  "same_login u v = (us_id v = us_id u \<and> us_email v = us_email u \<and> us_version v = us_version u \<and> us_role v = us_role u)"

lemma verifySecondFactor_proves:
  assumes "users_ok (sdb s)" and "find_user i (sdb s) = Some u" and "GetTOTPState i (sdb s) = Inr st"
    and "fst (verifySecondFactor E now i st code s)"
  shows "code \<noteq> [] \<and> factor_proved (plat E) now code u (sdb s)"
proof -
  have st: "ts_secret st = or_else [] (us_totp_secret u)" "us_id u = i"
    using assms(2,3) find_user_Some [OF assms(2)] by (auto simp: GetTOTPState_def)
  obtain step ok where v: "ValidateTOTP (plat E) (ts_secret st) code (now div Second) = (step, ok)" by force
  have step: "us_totp_last u < sint step" if hit: "rows_affected (\<lambda>r. us_id r = i \<and> us_totp_last r < sint step) (users (sdb s)) \<noteq> 0"
  proof -
    obtain r where "r \<in> set (users (sdb s))" "us_id r = i" "us_totp_last r < sint step"
      using hit by (auto simp: rows_affected_0_iff)
    then show ?thesis using user_id_unique [OF assms(1), of r u] find_user_Some [OF assms(2)] by simp
  qed
  have code: "\<exists>c \<in> set (codes (sdb s)). c_user c = i \<and> c_hash c = h \<and> c_used c = None"
    if "rows_affected (\<lambda>c. c_user c = i \<and> c_hash c = h \<and> c_used c = None) (codes (sdb s)) = 1" for h
    using that rows_affected_0_iff [of "\<lambda>c. c_user c = i \<and> c_hash c = h \<and> c_used c = None" "codes (sdb s)"] by force
  show ?thesis
    using assms(4) v step code
    by (auto simp: verifySecondFactor_def factor_proved_def st ConsumeTOTPStep_def ConsumeRecoveryCode_def Let_def
        split: if_splits sum.splits)
qed

text \<open>Steps of a login leave the identity of every account as it was.\<close>

definition logins_follow :: "db \<Rightarrow> db \<Rightarrow> bool" where
  "logins_follow d d' = (users_ok d \<longrightarrow> users_ok d' \<and>
     (\<forall>i u. find_user i d = Some u \<longrightarrow> (\<exists>u'. find_user i d' = Some u' \<and> same_login u u')))"

lemma logins_follow_refl [intro!]: "users d' = users d \<Longrightarrow> next_id d' \<ge> next_id d \<Longrightarrow> logins_follow d d'"
  by (auto simp: logins_follow_def same_login_def find_user_def users_ok_def list_all_iff)

lemma logins_follow_trans [trans]:
  assumes "logins_follow a b" and "logins_follow b c"
  shows "logins_follow a c"
  using assms unfolding logins_follow_def same_login_def by metis

lemma logins_follow_update:
  assumes "\<And>r. same_login r (f r)"
  shows "logins_follow d (update_users Q f d)"
proof -
  have k: "keeps_user f" using assms by (simp add: keeps_user_def same_login_def)
  have "same_login u u" for u by (simp add: same_login_def)
  then show ?thesis
    unfolding logins_follow_def using users_ok_update [OF _ k] find_user_update [OF _ k] assms by auto
qed

lemma verifySecondFactor_follows: "logins_follow (sdb s) (sdb (snd (verifySecondFactor E now i st code s)))"
proof -
  have "logins_follow d (snd (ConsumeTOTPStep i step d))" for step d
    by (auto simp: ConsumeTOTPStep_def Let_def same_login_def intro!: logins_follow_update)
  moreover have "logins_follow d (snd (ConsumeRecoveryCode now i h d))" for h d
    by (auto simp: ConsumeRecoveryCode_def Let_def)
  ultimately show ?thesis
    by (auto simp: verifySecondFactor_def split_beta split: prod.split sum.split)
qed

lemma login_rehash_follows: "logins_follow (sdb s) (sdb (login_rehash E salt user pw s))"
  by (auto simp: login_rehash_def UpgradePasswordHash_def Let_def same_login_def intro!: logins_follow_update split: option.split)

text \<open>A response that hands the token to the client: in its body, or in a cookie scripts cannot read.\<close>

definition carries_token :: "response \<Rightarrow> string \<Rightarrow> bool" where
  "carries_token resp tok =
     ((\<exists>fs. body resp = Obj fs \<and> map_of fs ''token'' = Some (FStr tok)) \<or>
      (\<exists>ck \<in> set (set_cookies resp). ck_name ck = sessionCookie \<and> ck_value ck = tok \<and> ck_httpOnly ck \<and> ck_sameSite ck = ''Strict''))"

abbreviation login_token :: "env \<Rightarrow> time \<Rightarrow> bytes \<Rightarrow> int \<Rightarrow> int \<Rightarrow> string" where
  "login_token E now sid i v \<equiv> GenerateToken (jwt E) (jwt_secret E) now i v (NewSessionID sid)"

lemma login_issue_ok:
  assumes "login_issue E now sid csrf email mode user r s = (resp, s')" and "status resp = 200"
  shows "logins_follow (sdb s) (sdb s') \<and>
    (\<forall>now'. now' < now + TokenTTL \<longrightarrow> SessionActive now' (ID user) (NewSessionID sid) (sdb s')) \<and>
    carries_token resp (login_token E now sid (ID user) (TokenVersion user))"
proof -
  let ?label = "DeviceLabel (plat E) (r_header r ''User-Agent'')"
  obtain res d where c: "CreateSession now (ID user) (NewSessionID sid) ?label (now + TokenTTL) (sdb s) = (res, d)" by force
  have "\<exists>k. res = Inr k" using assms c by (auto simp: login_issue_def internal_error_def Let_def split: sum.splits)
  then obtain k where k: "res = Inr k" ..
  have d: "users d = users (sdb s)" "next_id d \<ge> next_id (sdb s)"
      "now' < now + TokenTTL \<Longrightarrow> SessionActive now' (ID user) (NewSessionID sid) d" for now'
    using c k by (auto simp: CreateSession_def SessionActive_def live_session_def split: if_splits)
  have s': "sdb s' = LogAuthEvent now ''login_ok'' (auditEmailReference E email) (auditIPReference E (ClientIP r)) d"
    using assms(1) c k by (auto simp: login_issue_def Let_def)
  have "next_id (LogAuthEvent now ev e i d) = next_id d" for ev e i by (simp add: LogAuthEvent_def)
  then have "logins_follow (sdb s) (sdb s')" using d s' by (auto intro!: logins_follow_refl)
  moreover have "carries_token resp (login_token E now sid (ID user) (TokenVersion user))"
    using assms(1) c k
    by (auto simp: login_issue_def Let_def carries_token_def json_reply_def setSessionCookies_def split: if_splits)
  ultimately show ?thesis using d(3) s' by (simp add: SessionActive_def)
qed

text \<open>The account a successful login is for, and everything it had to prove.\<close>

lemma login_ok_cases:
  assumes "users_ok (sdb s)" and "handleLogin E now salt sid csrf (Some req) r s = (resp, s')" and "status resp = 200"
  obtains u where "u \<in> set (users (sdb s))"
    "us_email u = NormalizeEmail (plat E) (NormalizeEmail (plat E) (lg_email req))"
    "us_verified u" "CheckPasswordHash (plat E) (lg_password req) (us_hash u)"
    "countRecentAuthEvents E now ''login_fail'' (NormalizeEmail (plat E) (lg_email req)) 15 s < 5"
    "us_totp_enabled u \<longrightarrow> lg_code req \<noteq> [] \<and> factor_proved (plat E) now (lg_code req) u (sdb s)"
    "carries_token resp (login_token E now sid (us_id u) (us_version u))"
    "logins_follow (sdb s) (sdb s')"
    "\<And>now'. now' < now + TokenTTL \<Longrightarrow> SessionActive now' (us_id u) (NewSessionID sid) (sdb s')"
proof -
  let ?P = "plat E"
  let ?email = "NormalizeEmail ?P (lg_email req)"
  let ?mode = "if lg_mode req = [] then ''cookie'' else lg_mode req"
  obtain ok s1 where c: "charge_anon loginLim loginLim_update now r s = (ok, s1)" by force
  have s1: "sdb s1 = sdb s" using sdb_charge(1) [of now r s] by (simp add: c)
  have n: "countRecentAuthEvents E now ''login_fail'' ?email 15 s1 = countRecentAuthEvents E now ''login_fail'' ?email 15 s"
    by (simp add: countRecentAuthEvents_def s1)
  note h = assms(2) [unfolded handleLogin_def c Let_def split_conv option.case]
  have "\<exists>user. GetUserByEmail ?P ?email (sdb s) = Inr (Some user) \<and> CheckPasswordHash ?P (lg_password req) (PasswordHash user) \<and>
      IsVerified user \<and> countRecentAuthEvents E now ''login_fail'' ?email 15 s < 5 \<and>
      login_factor E now salt sid csrf ?email ?mode req user r s1 = (resp, s')"
    using h assms(3) by (auto simp: internal_error_def s1 n not_le split: if_splits sum.splits option.splits)
  then obtain user where u0: "GetUserByEmail ?P ?email (sdb s) = Inr (Some user)"
    and pw: "CheckPasswordHash ?P (lg_password req) (PasswordHash user)" and ver: "IsVerified user"
    and cnt: "countRecentAuthEvents E now ''login_fail'' ?email 15 s < 5"
    and fac: "login_factor E now salt sid csrf ?email ?mode req user r s1 = (resp, s')" by blast
  obtain u where u: "u \<in> set (users (sdb s))" "us_email u = NormalizeEmail ?P ?email" "user = user_view u"
    using u0 by (auto simp: GetUserByEmail_def split: if_splits dest!: first_where_Some)
  have fu: "find_user (us_id u) (sdb s) = Some u" using find_user_eq [OF assms(1) u(1)] .
  obtain st where st: "GetTOTPState (us_id u) (sdb s) = Inr st" "ts_enabled st = us_totp_enabled u"
    by (simp add: GetTOTPState_def fu)
  let ?v = "if ts_enabled st then verifySecondFactor E now (us_id u) st (lg_code req) s1 else (True, s1)"
  have iss: "fst ?v \<and> login_issue E now sid csrf ?email ?mode user r (login_rehash E salt user (lg_password req) (snd ?v)) = (resp, s')"
    using fac assms(3) st(1) u(3) by (auto simp: login_factor_def s1 user_view_def split_beta Let_def split: if_splits)
  have f1: "us_totp_enabled u \<longrightarrow> lg_code req \<noteq> [] \<and> factor_proved ?P now (lg_code req) u (sdb s)"
    using iss st verifySecondFactor_proves [of s1, unfolded s1, OF assms(1) fu st(1)] by (auto split: if_splits)
  have f2: "logins_follow (sdb s) (sdb (snd ?v))"
    using verifySecondFactor_follows [of s1 E now "us_id u" st "lg_code req"] by (auto simp: s1)
  note ii = login_issue_ok [OF conjunct2 [OF iss] assms(3)]
  have "logins_follow (sdb s) (sdb s')"
    using logins_follow_trans [OF f2 logins_follow_trans [OF login_rehash_follows conjunct1 [OF ii]]] .
  with ii show thesis using that [OF u(1,2)] pw ver cnt f1 u(3) by (simp add: user_view_def)
qed



subsection \<open>Revoked tokens\<close>

definition version_floor :: "int \<Rightarrow> int \<Rightarrow> db \<Rightarrow> bool" where
  "version_floor i v d = (i < int (next_id d) \<and> (\<forall>u \<in> set (users d). us_id u = i \<longrightarrow> v \<le> us_version u))"

lemma version_floor_mono:
  "version_floor i v d \<Longrightarrow> set (users d') \<subseteq> set (users d) \<Longrightarrow> next_id d \<le> next_id d' \<Longrightarrow> version_floor i v d'"
  by (auto simp: version_floor_def)

lemma edge_users:
  "insert_edge now src tgt u d = Some d' \<Longrightarrow> users d' = users d \<and> next_id d \<le> next_id d'"
  "enqueue_target now tgt h dep u d = Some d' \<Longrightarrow> users d' = users d \<and> next_id d \<le> next_id d'"
  by (auto simp: insert_edge_def enqueue_target_def insert_node_def update_nodes_def split: if_splits option.splits)

lemma SaveEdge_users: "users (snd (SaveEdge P now src tgt dep u d)) = users d \<and> next_id d \<le> next_id (snd (SaveEdge P now src tgt dep u d))"
  using SaveEdge_cases [of P now src tgt dep u d]
proof
  assume "\<exists>s hs t h d1 d2. canonicalCrawlURL P src = Inr (s, hs) \<and> canonicalCrawlURL P tgt = Inr (t, h) \<and>
     (if blacklisted h d then d1 = d else enqueue_target now t h dep u d = Some d1) \<and>
     insert_edge now s t u d1 = Some d2 \<and> SaveEdge P now src tgt dep u d = (Inr (), d2)"
  then obtain h t s d1 d2 where e: "if blacklisted h d then d1 = d else enqueue_target now t h dep u d = Some d1"
    "insert_edge now s t u d1 = Some d2" "SaveEdge P now src tgt dep u d = (Inr (), d2)" by blast
  have "users d1 = users d \<and> next_id d \<le> next_id d1" using e(1) edge_users(2) by (auto split: if_splits)
  with edge_users(1) [OF e(2)] e(3) show ?thesis by auto
qed simp

lemma q_apply_users: "set (users (q_apply P x d)) \<subseteq> set (users d) \<and> next_id d \<le> next_id (q_apply P x d)"
proof (cases x)
  case (Enqueue now raw dep u mx)
  then show ?thesis by (auto simp: EnqueueURL_def insert_node_def split: sum.splits prod.splits)
next
  case (SaveRow now url r h u seen)
  then show ?thesis by (auto simp: SaveNode_write_def Let_def insert_node_def update_nodes_def split: option.splits)
next
  case (Claim rank locked now)
  then show ?thesis by (auto simp: GetNextPendingNode_def update_nodes_def split: list.splits)
next
  case (Requeue now url u)
  then show ?thesis by (auto simp: RequeueForCrawl_def Requeue_write_def update_nodes_def split: sum.splits option.splits)
next
  case (Link now src tgt dep u)
  then show ?thesis using SaveEdge_users [of P now src tgt dep u d] by simp
qed (auto simp: reset_crawling_def ResetStuckCrawling_def FailNodeWithRetry_def MarkRobotsBlocked_def ReviveFailedNodes_def
    AddBlacklist_def DeleteBlacklist_def Let_def update_nodes_def delete_nodes_fields delete_user_fields)

lemma n_apply_users: "users (n_apply P x d) = users d \<and> next_id d \<le> next_id (n_apply P x d)"
proof (cases x)
  case (Retain rank clock batch dry)
  show ?thesis
    unfolding Retain n_apply.simps
    by (rule ApplyRetention_keeps [where I = "\<lambda>e. users e = users d \<and> next_id d \<le> next_id e"]) (auto simp: delete_nodes_fields)
next
  case (Observe now url u reach code)
  then show ?thesis
    using RecordWatchObservation_cases [of P now url u reach code d] by (auto simp: Let_def fold_insert_event)
next
  case (WatchOn now url u days)
  then show ?thesis by (auto simp: StartWatch_def Let_def upsert_watch_def update_nodes_def split: sum.split)
qed (auto simp: AddTag_def RemoveTag_def SetNote_def StopWatch_def delete_watches_def MarkWatchEventsSeen_def
    PurgeStoredContent_def update_nodes_def Let_def split: sum.split)

lemma allowed_version: "allowed P x r r' \<Longrightarrow> us_id r' = us_id r \<and> us_version r \<le> us_version r'"
  by (cases "(P, x, r, r')" rule: allowed.cases) auto

lemma a_apply_next_id: "next_id d \<le> next_id (a_apply P x d)"
  using a_apply_users [of P x d] by (auto simp: users_step_def)

lemma sys_apply_floor:
  assumes "version_floor i v d"
  shows "version_floor i v (sys_apply P x d)"
proof (cases x)
  case (Account y)
  have "\<forall>u \<in> set (users (a_apply P y d)). us_id u = i \<longrightarrow> v \<le> us_version u"
  proof (rule a_apply_rows)
    show "\<forall>u \<in> set (users d). us_id u = i \<longrightarrow> v \<le> us_version u" using assms by (simp add: version_floor_def)
    show "us_id u' = i \<longrightarrow> v \<le> us_version u'" if "allowed P y u u'" "us_id u = i \<longrightarrow> v \<le> us_version u" for u u'
      using allowed_version [OF that(1)] that(2) by auto
    show "us_id u = i \<longrightarrow> v \<le> us_version u" if "adds_user y u d" for u
      using adds_user_fresh [OF that] assms by (auto simp: fresh_user_def version_floor_def)
  qed
  then show ?thesis using a_apply_next_id [of d P y] assms by (simp add: Account version_floor_def)
next
  case (Queue y)
  then show ?thesis using version_floor_mono [OF assms] q_apply_users [of P y d] by simp
next
  case (Annotate y)
  then show ?thesis using version_floor_mono [OF assms] n_apply_users [of P y d] by simp
qed

lemma sys_run_floor: "version_floor i v d \<Longrightarrow> version_floor i v (sys_run P ops d)"
  unfolding sys_run_def by (induction ops arbitrary: d) (auto dest: sys_apply_floor)


subsection \<open>Account enumeration\<close>

text \<open>
  C37. The public endpoints do not tell whether an address has an account. The answer to a password-reset
  request is a function of the request and the limiter alone, whatever the database holds. A login with a
  wrong password gets the answer that a login for an address without an account gets, and is recorded the
  same way.
\<close>

theorem no_account_enumeration:
  assumes "resetLim s = resetLim s2" and "loginLim s = loginLim s2" and "audit (sdb s) = audit (sdb s2)"
    and "GetUserByEmail (plat E) (NormalizeEmail (plat E) (lg_email req)) (sdb s) = Inr None"
    and "GetUserByEmail (plat E) (NormalizeEmail (plat E) (lg_email req)) (sdb s2) = Inr (Some user)"
    and "\<not> CheckPasswordHash (plat E) (lg_password req) (PasswordHash user)"
  shows "fst (serve E now (PostForgot tok addr) r s) = fst (serve E now (PostForgot tok addr) r s2) \<and>
    fst (serve E now (PostLogin salt sid csrf (Some req)) r s) = fst (serve E now (PostLogin salt sid csrf (Some req)) r s2) \<and>
    audit (sdb (snd (handleLogin E now salt sid csrf (Some req) r s))) =
      audit (sdb (snd (handleLogin E now salt sid csrf (Some req) r s2)))"
proof -
  have gate: "fst (serve E now ep r s) = fst (serve E now ep r s2)"
    if "ep_group ep = Public" and "\<And>r. fst (ep_handler E now ep r s) = fst (ep_handler E now ep r s2)" for ep
  proof (cases "bad_token E now r \<or> \<not> csrf_ok E now r")
    case True
    then show ?thesis
      by (auto simp: serve_def NoStore_def TrustedRealIP_def JWTMiddleware_def CSRFProtect_def presented_realip split_beta
          bad_token_def csrf_ok_def credential_def safe_method_def echoes_csrf_def AuthSource_def split: option.split if_splits)
  next
    case False
    then show ?thesis
      using that by (auto simp: serve_def NoStore_def TrustedRealIP_def split_beta gate_passes dispatch_def)
  qed
  have f: "fst (handleForgotPassword E now tok addr r s) = fst (handleForgotPassword E now tok addr r s2)" for r
    using assms(1) by (auto simp: handleForgotPassword_def charge_anon_def split_beta Let_def split: option.split)
  have ch: "charge_anon loginLim loginLim_update now r s = (ok, s\<lparr>loginLim := l\<rparr>) \<and>
      charge_anon loginLim loginLim_update now r s2 = (ok, s2\<lparr>loginLim := l\<rparr>)"
    if "Anon_Allow now (ClientNetwork r) (ClientIP r) (loginLim s) = (ok, l)" for r ok l
    using that assms(2) by (simp add: charge_anon_def)
  have l: "fst (handleLogin E now salt sid csrf (Some req) r s) = fst (handleLogin E now salt sid csrf (Some req) r s2) \<and>
      audit (sdb (snd (handleLogin E now salt sid csrf (Some req) r s))) =
      audit (sdb (snd (handleLogin E now salt sid csrf (Some req) r s2)))" for r
  proof -
    obtain ok l where al: "Anon_Allow now (ClientNetwork r) (ClientIP r) (loginLim s) = (ok, l)" by force
    show ?thesis
      using assms(3-6) ch [OF al]
      by (simp add: handleLogin_def Let_def countRecentAuthEvents_def CountRecentAuthEvents_def logAuthEvent_def LogAuthEvent_def)
  qed
  have "ep_group (PostForgot tok addr) = Public" "ep_group (PostLogin salt sid csrf (Some req)) = Public"
    by (simp_all add: ep_group_def)
  then show ?thesis using gate [of "PostForgot tok addr"] gate [of "PostLogin salt sid csrf (Some req)"] f l by simp
qed

end
