(* ===== verification/Lifecycle_Properties.thy ===== *)
theory Lifecycle_Properties
  imports Lifecycle
begin

section \<open>Grace period, purges, round trips\<close>

text \<open>
  The remaining promises of the data lifecycle and of the annotations, the witnesses of this and of the
  previous theory on one small database, and two deviations of the code from its comments.
\<close>

subsection \<open>Scheduled deletion is reversible until it is due\<close>

text \<open>
  C32. A deletion request takes effect after the grace period and not before: the account is not handed
  to the sweeper earlier; a second request is refused and does not move the deadline; cancelling takes
  the account off the list for good; once due, it is listed if the batch has room.
\<close>

theorem deletion_grace_period:
  assumes "users_ok d" and "RequestAccountDeletion now u grace d = (Inr due, d')"
  shows "due = now + whole_seconds (max 0 grace) * Second \<and>
    (\<forall>t rank lim. t < due \<longrightarrow> u \<notin> fst ` set (DueAccountDeletions rank t lim d')) \<and>
    (\<forall>t rank lim. due \<le> t \<and> int (count_where (deletion_due t) (users d')) \<le> lim \<longrightarrow>
       u \<in> fst ` set (DueAccountDeletions rank t lim d')) \<and>
    (\<forall>t g. RequestAccountDeletion t u g d' = (Inl ErrDeletionPending, d')) \<and>
    fst (CancelAccountDeletion u d') \<and>
    (\<forall>t rank lim. u \<notin> fst ` set (DueAccountDeletions rank t lim (snd (CancelAccountDeletion u d'))))"
proof -
  let ?hit = "\<lambda>r. us_id r = u \<and> us_del_for r = None"
  let ?f = "\<lambda>r. r\<lparr>us_del_req := Some now, us_del_for := Some due\<rparr>"
  have due: "due = now + whole_seconds (max 0 grace) * Second" and d': "d' = update_users ?hit ?f d"
    and n: "rows_affected ?hit (users d) \<noteq> 0"
    using assms(2) by (auto simp: RequestAccountDeletion_def Let_def max_def split: if_splits)
  obtain r where r: "r \<in> set (users d)" "us_id r = u" "us_del_for r = None"
    using n by (auto simp: rows_affected_0_iff)
  have ok: "users_ok d'" unfolding d' by (rule users_ok_update [OF assms(1)]) (simp add: keeps_user_def)
  have there: "?f r \<in> set (users d')" using r unfolding d' by (auto simp: in_update_where_cases)
  have only: "x = ?f r" if "x \<in> set (users d')" "us_id x = u" for x
    using user_id_unique [OF ok that(1) there] that(2) r(2) by simp
  have early: "u \<notin> fst ` set (DueAccountDeletions rank t lim d')" if "t < due" for t rank lim
  proof
    assume "u \<in> fst ` set (DueAccountDeletions rank t lim d')"
    with due_listed have "u \<in> us_id ` {x \<in> set (users d'). deletion_due t x}" by (rule subsetD)
    then obtain x where x: "x \<in> set (users d')" "us_id x = u" "deletion_due t x" by blast
    have "x = ?f r" using only x(1,2) by blast
    with x(3) that show False by (simp add: deletion_due_def)
  qed
  have late: "u \<in> fst ` set (DueAccountDeletions rank t lim d')"
    if "due \<le> t" "int (count_where (deletion_due t) (users d')) \<le> lim" for t rank lim
  proof -
    have dr: "deletion_due t (?f r)" using that(1) by (simp add: deletion_due_def)
    then have "0 < count_where (deletion_due t) (users d')" using there by (auto simp: count_where_pos_iff)
    then have "count_where (deletion_due t) (users d') \<le> (if lim \<le> 0 then 50 else nat lim)" using that(2) by simp
    from due_complete [OF this there dr, of rank] show ?thesis using r(2) by simp
  qed
  have "us_del_for x = Some due" if "x \<in> set (users d')" "us_id x = u" for x
    using only [OF that] by simp
  then have "rows_affected ?hit (users d') = 0" unfolding rows_affected_0_iff by fastforce
  then have again: "RequestAccountDeletion t u g d' = (Inl ErrDeletionPending, d')" for t g
    by (simp add: RequestAccountDeletion_def Let_def)
  have "0 < rows_affected (\<lambda>r. us_id r = u \<and> us_del_for r \<noteq> None) (users d')"
    unfolding rows_affected_def count_where_pos_iff by (rule bexI [OF _ there]) (simp add: r(2))
  then have cancel: "fst (CancelAccountDeletion u d')" by (simp add: CancelAccountDeletion_def Let_def)
  show ?thesis using due early late again cancel cancelled_not_due by blast
qed

subsection \<open>Purged text comes back with the next crawl\<close>

text \<open>
  After an account purged its stored page text, the next crawl of a page it had text for stores the
  text again, whatever the page says, provided the account keeps content and the row is not blocked.
\<close>

theorem purged_text_returns:
  assumes "db_ok d" and "canonicalCrawlURL P raw = Inr (url, host)" and "find_node url u d = Some n"
    and "has_content n" and "n_status n \<noteq> Blocked" and "find_user u d = Some r" and "us_store r"
    and "texts_ok [url, cr_title c, cr_server c, cr_meta c, cr_content c, cr_category c]"
    and "rune_count (cr_server c) \<le> 100" and "rune_count (cr_category c) \<le> 30" and "cr_meta c \<noteq> []"
  shows "let (res, d') = SaveNode P now raw c u (snd (PurgeStoredContent u d)) in
    res = (True, None) \<and> map_option n_content (find_node url u d') = Some (Some (cr_content c))"
proof -
  let ?d = "snd (PurgeStoredContent u d)"
  let ?n = "n\<lparr>n_content := None, n_hash := None\<rparr>"
  let ?s = "saved_row now c (cr_content c) (ContentHash P (cr_title c) (cr_content c))"
  have n: "n \<in> set (nodes d)" "n_url n = url" "n_user n = u" using find_node_Some [OF assms(3)] by auto
  have d: "?d = update_nodes (\<lambda>n. n_user n = u \<and> has_content n) (\<lambda>n. n\<lparr>n_content := None, n_hash := None\<rparr>) d"
    by (simp add: PurgeStoredContent_def Let_def)
  have ok: "db_ok ?d" unfolding d by (rule db_ok_update [OF assms(1)]) (simp add: keeps_def)
  have "?n \<in> set (nodes ?d)" unfolding d using n assms(4) by (auto simp: in_update_where_cases)
  then have f: "find_node url u ?d = Some ?n" using find_node_eq [OF db_ok_nodes [OF ok]] n by force
  have us: "find_user u ?d = Some r" using assms(6) unfolding d by (simp add: find_user_def)
  have ut: "texts_ok [url]" using assms(8) by (simp add: texts_ok_def)
  let ?hit = "\<lambda>n. node_at url u n \<and> n_status n \<noteq> Blocked"
  have read: "SaveNode_read url u ?d = (None, Some True)"
    using f us ut assms(7) by (simp add: SaveNode_read_def)
  have save: "SaveNode P now raw c u ?d = ((True, None), update_nodes ?hit ?s ?d)"
    using assms(2,8-11) f by (simp add: SaveNode_def read SaveNode_write_def Let_def)
  have "?s ?n \<in> set (nodes (update_nodes ?hit ?s ?d))"
    unfolding nodes_update
    by (rule in_update_whereI) (use \<open>?n \<in> set (nodes ?d)\<close> n assms(5) in \<open>simp_all add: node_at_def\<close>)
  moreover have "db_ok (update_nodes ?hit ?s ?d)" by (rule db_ok_update [OF ok]) simp
  ultimately have "find_node url u (update_nodes ?hit ?s ?d) = Some (?s ?n)"
    using find_node_eq [OF db_ok_nodes] n by force
  with save show ?thesis by (simp add: saved_row_def)
qed

subsection \<open>What is written is read back\<close>

lemma nodeIDFor_cong: "nodes d' = nodes d \<Longrightarrow> nodeIDFor P url u d' = nodeIDFor P url u d"
  by (simp add: nodeIDFor_def find_node_def split: sum.split)

definition tags_of :: "platform \<Rightarrow> (string \<Rightarrow> nat) \<Rightarrow> string \<Rightarrow> int \<Rightarrow> db \<Rightarrow> string set" where
  "tags_of P coll url u d = (case GetAnnotation P coll url u d of Inl e \<Rightarrow> {} | Inr a \<Rightarrow> set (an_tags a))"

definition note_of :: "platform \<Rightarrow> (string \<Rightarrow> nat) \<Rightarrow> string \<Rightarrow> int \<Rightarrow> db \<Rightarrow> string" where
  "note_of P coll url u d = (case GetAnnotation P coll url u d of Inl e \<Rightarrow> [] | Inr a \<Rightarrow> an_note a)"

lemma tags_of_eq:
  assumes "nodeIDFor P url u d = Inr i"
  shows "tags_of P coll url u d = t_tag ` {t \<in> set (tags d). tag_at u i t}"
  using assms by (auto simp: tags_of_def GetAnnotation_def tag_at_def)

lemma note_of_eq:
  assumes "nodeIDFor P url u d = Inr i"
  shows "note_of P coll url u d = (case first_where (note_at u i) (site_notes d) of None \<Rightarrow> [] | Some x \<Rightarrow> o_body x)"
  using assms by (simp add: note_of_def GetAnnotation_def note_at_def [abs_def])

lemma AddTag_reads:
  assumes "fst (AddTag P url u tag d) = Inr ()"
  shows "tags_of P coll url u (snd (AddTag P url u tag d)) = insert (NormalizeTag P tag) (tags_of P coll url u d)"
proof -
  let ?d = "snd (AddTag P url u tag d)"
  obtain i where i: "nodeIDFor P url u d = Inr i"
    using assms by (auto simp: AddTag_def Let_def split: if_splits sum.splits)
  have n: "nodes ?d = nodes d" by (simp add: AddTag_def Let_def split: sum.split)
  have ts: "tags ?d = (if exists_where (\<lambda>t. tag_at u i t \<and> t_tag t = NormalizeTag P tag) (tags d) then tags d
      else tags d @ [\<lparr>t_user = u, t_node = i, t_tag = NormalizeTag P tag\<rparr>])"
    using assms i by (auto simp: AddTag_def Let_def split: if_splits)
  have "t_tag ` {t \<in> set (tags ?d). tag_at u i t} = insert (NormalizeTag P tag) (t_tag ` {t \<in> set (tags d). tag_at u i t})"
  proof (cases "exists_where (\<lambda>t. tag_at u i t \<and> t_tag t = NormalizeTag P tag) (tags d)")
    case True
    then have "NormalizeTag P tag \<in> t_tag ` {t \<in> set (tags d). tag_at u i t}" by force
    with True ts show ?thesis by (simp add: insert_absorb)
  next
    case False
    have "{t \<in> set (tags d @ [x]). tag_at u i t} = insert x {t \<in> set (tags d). tag_at u i t}" if "tag_at u i x" for x
      using that by auto
    moreover have "tags ?d = tags d @ [\<lparr>t_user = u, t_node = i, t_tag = NormalizeTag P tag\<rparr>]"
      using ts False by (simp only: if_False)
    ultimately show ?thesis by (simp add: tag_at_def)
  qed
  then show ?thesis
    unfolding tags_of_eq [OF i] tags_of_eq [OF i [folded nodeIDFor_cong [OF n]]] .
qed

lemma RemoveTag_reads:
  assumes "fst (RemoveTag P url u tag d) = Inr ()"
  shows "tags_of P coll url u (snd (RemoveTag P url u tag d)) = tags_of P coll url u d - {NormalizeTag P tag}"
proof -
  let ?d = "snd (RemoveTag P url u tag d)"
  obtain i where i: "nodeIDFor P url u d = Inr i"
    using assms by (auto simp: RemoveTag_def split: if_splits sum.splits)
  have n: "nodes ?d = nodes d" by (simp add: RemoveTag_def split: sum.split)
  have "tags ?d = delete_where (\<lambda>t. tag_at u i t \<and> t_tag t = NormalizeTag P tag) (tags d)"
    using assms i by (auto simp: RemoveTag_def split: if_splits)
  then show ?thesis
    unfolding tags_of_eq [OF i] tags_of_eq [OF i [folded nodeIDFor_cong [OF n]]] by auto
qed

lemma SetNote_reads:
  assumes "notes_ok d" and "fst (SetNote P now url u body d) = Inr ()"
  shows "note_of P coll url u (snd (SetNote P now url u body d)) = TrimSpace body"
proof -
  let ?d = "snd (SetNote P now url u body d)"
  let ?f = "\<lambda>x. x\<lparr>o_body := TrimSpace body, o_at := now\<rparr>"
  obtain i where i: "nodeIDFor P url u d = Inr i"
    using assms(2) by (auto simp: SetNote_def Let_def split: if_splits sum.splits)
  have n: "nodes ?d = nodes d" by (simp add: SetNote_def Let_def split: sum.split)
  have eq: "site_notes ?d = (if TrimSpace body = [] then delete_where (note_at u i) (site_notes d)
      else if exists_where (note_at u i) (site_notes d) then update_where (note_at u i) ?f (site_notes d)
      else site_notes d @ [\<lparr>o_user = u, o_node = i, o_body = TrimSpace body, o_at = now\<rparr>])"
    using assms(2) i by (auto simp: SetNote_def Let_def split: if_splits)
  have "(case first_where (note_at u i) (site_notes ?d) of None \<Rightarrow> [] | Some x \<Rightarrow> o_body x) = TrimSpace body"
  proof (cases "TrimSpace body = []")
    case True
    then have "first_where (note_at u i) (site_notes ?d) = None" using eq by (auto simp: first_where_None_iff)
    with True show ?thesis by simp
  next
    case False
    have all: "o_body x = TrimSpace body" if "x \<in> set (site_notes ?d)" "note_at u i x" for x
    proof (cases "exists_where (note_at u i) (site_notes d)")
      case True
      have "note_at u i x \<longrightarrow> o_body x = TrimSpace body"
        using that(1) False True unfolding eq by (simp, elim update_where_sets) auto
      with that(2) show ?thesis by blast
    next
      case none: False
      with that False eq show ?thesis by auto
    qed
    have "\<exists>x \<in> set (site_notes ?d). note_at u i x"
      using False ex_update_where [of "note_at u i" ?f "note_at u i" "site_notes d" True] unfolding eq
      by (auto simp: note_at_def)
    then obtain x where "first_where (note_at u i) (site_notes ?d) = Some x" using first_where_exists by metis
    with all show ?thesis using first_where_Some by fastforce
  qed
  then show ?thesis using note_of_eq i nodeIDFor_cong [OF n] by metis
qed

text \<open>
  C34. What an account writes about a site is what it reads back: after a tag is added the site carries
  it beside the tags it had, after a tag is removed it carries the others, and a note set is the note
  read, trimmed.
\<close>

theorem annotation_round_trip:
  assumes "sys_ok d"
  shows "(fst (AddTag P url u tag d) = Inr () \<longrightarrow>
      tags_of P coll url u (snd (AddTag P url u tag d)) = insert (NormalizeTag P tag) (tags_of P coll url u d)) \<and>
    (fst (RemoveTag P url u tag d) = Inr () \<longrightarrow>
      tags_of P coll url u (snd (RemoveTag P url u tag d)) = tags_of P coll url u d - {NormalizeTag P tag}) \<and>
    (fst (SetNote P now url u body d) = Inr () \<longrightarrow>
      note_of P coll url u (snd (SetNote P now url u body d)) = TrimSpace body)"
  using assms AddTag_reads RemoveTag_reads SetNote_reads by (simp add: sys_ok_def annotations_ok_def)

subsection \<open>Witnesses\<close>

definition demo_watch :: watch_row where
  "demo_watch = \<lparr>w_id = 4, w_user = 1, w_node = 3, w_interval = 1, w_hash = None, w_code = None,
     w_reach = None, w_checked = None, w_created = 5\<rparr>"

definition demo_tag :: tag_row where
  "demo_tag = \<lparr>t_user = 1, t_node = 3, t_tag = ''market''\<rparr>"

text \<open>Account 1 tagged and watches a crawled page with stored text; a session is open.\<close>

definition demo_site :: db where
  "demo_site = demo_db\<lparr>nodes := [demo_row\<lparr>n_content := Some ''text'', n_hash := Some ''h'', n_status := Completed\<rparr>],
     tags := [demo_tag], watches := [demo_watch], sessions := [demo_session],
     audit := [\<lparr>a_event = ''login_fail'', a_email = ''ref'', a_ip = ''ip'', a_at = 5\<rparr>], next_id := 5\<rparr>"

lemma demo_site_ok: "sys_ok demo_site"
  by code_simp

definition demo_crawls :: "crawl_event list" where
  "demo_crawls = [\<lparr>ce_now = 6, ce_reach = True, ce_code = 200, ce_hash = Some ''a''\<rparr>,
     \<lparr>ce_now = 7, ce_reach = False, ce_code = 0, ce_hash = Some ''a''\<rparr>,
     \<lparr>ce_now = 8, ce_reach = True, ce_code = 503, ce_hash = Some ''a''\<rparr>,
     \<lparr>ce_now = 9, ce_reach = True, ce_code = 200, ce_hash = Some ''b''\<rparr>]"

theorem watch_feed_refines_witness:
  "feed 4 (fold (crawl_observe demo_platform demo_url 1) demo_crawls demo_site) =
     [''unreachable'', ''recovered'', ''content_changed'']"
proof -
  let ?n = "demo_row\<lparr>n_content := Some ''text'', n_hash := Some ''h'', n_status := Completed\<rparr>"
  have w: "demo_watch \<in> set (watches demo_site)" and n: "?n \<in> set (nodes demo_site)"
    by (simp_all add: demo_site_def)
  have i: "n_id ?n = w_node demo_watch" and u: "n_user ?n = 1" and url: "n_url ?n = demo_url"
    and wi: "w_id demo_watch = 4" and st: "w_reach demo_watch = None" "w_hash demo_watch = None"
    by (simp_all add: demo_row_def demo_watch_def)
  have c: "canonicalCrawlURL demo_platform demo_url = Inr (demo_url, demo_host)" by code_simp
  have tx: "texts_ok [demo_url]" by code_simp
  have f: "feed 4 demo_site = []" by code_simp
  have e: "expected_feed [] (map observation_of demo_crawls) = [''unreachable'', ''recovered'', ''content_changed'']"
    by code_simp
  from watch_feed_refines [OF demo_site_ok w n i, of demo_platform demo_host demo_crawls] c tx f e st
  show ?thesis by (simp only: u url wi append_Nil)
qed

definition demo_erased :: db where
  "demo_erased = empty_db\<lparr>users := [demo_user 2 ''d@e.f''], next_id := 5\<rparr>"

theorem account_erasure_witness:
  "DeleteAccount 1 ''ref'' demo_site = (Inr (), demo_erased) \<and> footprint ((=) 1) demo_erased = empty_db \<and>
   audit demo_erased = []"
proof -
  have a: "DeleteAccount 1 ''ref'' demo_site = (Inr (), demo_erased)" by code_simp
  have b: "audit demo_erased = []" by code_simp
  from account_erasure [OF demo_site_ok a] a b show ?thesis by blast
qed

theorem annotation_isolation_witness:
  "footprint (\<lambda>v. v \<noteq> 1) (n_apply demo_platform (WatchOff demo_url 1) demo_site) = footprint (\<lambda>v. v \<noteq> 1) demo_site \<and>
   watches (n_apply demo_platform (WatchOff demo_url 1) demo_site) = []"
proof -
  have a: "watches (n_apply demo_platform (WatchOff demo_url 1) demo_site) = []" by code_simp
  have b: "n_actor (WatchOff demo_url 1) = Some 1" by simp
  from annotation_isolation [OF demo_site_ok b, of demo_platform] a show ?thesis by blast
qed

definition demo_old :: db where
  "demo_old = demo_db\<lparr>users := [(demo_user 1 ''a@b.c'')\<lparr>us_retention := 30\<rparr>], nodes := [demo_row], next_id := 4\<rparr>"

theorem retention_only_expired_witness:
  "nodes (snd (ApplyRetention (\<lambda>_. 0) (\<lambda>_. 31 * Day) 10 False demo_old)) = [] \<and> \<not> annotated demo_old demo_row"
proof -
  let ?d = "snd (ApplyRetention (\<lambda>_. 0) (\<lambda>_. 31 * Day) 10 False demo_old)"
  have a: "db_ok demo_old" by code_simp
  have b: "demo_row \<in> set (nodes demo_old)" by (simp add: demo_old_def)
  have c: "nodes ?d = []" by code_simp
  have "demo_row \<notin> set (nodes ?d)" unfolding c by simp
  from retention_only_expired [OF a b this] c show ?thesis by blast
qed

theorem purge_keeps_throttles_witness:
  "fst (PurgeAuthAudit 9 ''ref'' demo_site) = Inr 0 \<and>
   CountRecentAuthEvents 9 ''login_fail'' ''ref'' 15 (snd (PurgeAuthAudit 9 ''ref'' demo_site)) =
     CountRecentAuthEvents 9 ''login_fail'' ''ref'' 15 demo_site"
proof -
  have f: "fst (PurgeAuthAudit 9 ''ref'' demo_site) = Inr 0" by code_simp
  then have a: "PurgeAuthAudit 9 ''ref'' demo_site = (Inr 0, snd (PurgeAuthAudit 9 ''ref'' demo_site))"
    by (metis prod.collapse)
  have e: "''login_fail'' \<in> set throttle_events \<and> (15 :: int) \<le> 120" by (simp add: throttle_events_def)
  have ne: "''ref'' \<noteq> []" by simp
  from purge_keeps_throttles [OF a ne, of "''ref''"] e f show ?thesis by blast
qed

theorem deletion_grace_period_witness:
  "fst (RequestAccountDeletion 5 1 (2 * Second) demo_db) = Inr 2000000005 \<and>
   1 \<notin> fst ` set (DueAccountDeletions (\<lambda>_. 0) 2000000004 0 (snd (RequestAccountDeletion 5 1 (2 * Second) demo_db)))"
proof -
  have a: "users_ok demo_db" by code_simp
  have f: "fst (RequestAccountDeletion 5 1 (2 * Second) demo_db) = Inr 2000000005" by code_simp
  then have r: "RequestAccountDeletion 5 1 (2 * Second) demo_db =
      (Inr 2000000005, snd (RequestAccountDeletion 5 1 (2 * Second) demo_db))"
    by (metis prod.collapse)
  have lt: "(2000000004 :: int) < 2000000005" by simp
  from deletion_grace_period [OF a r] lt f show ?thesis by blast
qed

theorem purged_text_returns_witness:
  "let (res, d') = SaveNode demo_platform 9 demo_url demo_result 1 (snd (PurgeStoredContent 1 demo_site)) in
   res = (True, None) \<and> map_option n_content (find_node demo_url 1 d') = Some (Some (cr_content demo_result))"
proof (rule purged_text_returns)
  let ?n = "demo_row\<lparr>n_content := Some ''text'', n_hash := Some ''h'', n_status := Completed\<rparr>"
  show "db_ok demo_site" using demo_site_ok by (simp add: sys_ok_def)
  show "canonicalCrawlURL demo_platform demo_url = Inr (demo_url, demo_host)" by code_simp
  show "find_node demo_url 1 demo_site = Some ?n" by code_simp
  show "has_content ?n" by (simp add: has_content_def)
  show "n_status ?n \<noteq> Blocked" by simp
  show "find_user 1 demo_site = Some (demo_user 1 ''a@b.c'')" by code_simp
  show "us_store (demo_user 1 ''a@b.c'')" by code_simp
  show "texts_ok [demo_url, cr_title demo_result, cr_server demo_result, cr_meta demo_result,
    cr_content demo_result, cr_category demo_result]" by code_simp
  show "rune_count (cr_server demo_result) \<le> 100" by code_simp
  show "rune_count (cr_category demo_result) \<le> 30" by code_simp
  show "cr_meta demo_result \<noteq> []" by code_simp
qed

theorem annotation_round_trip_witness:
  "tags_of demo_platform (\<lambda>_. 0) demo_url 1 (snd (AddTag demo_platform demo_url 1 '' Forum  A '' demo_site)) =
     insert ''forum a'' (tags_of demo_platform (\<lambda>_. 0) demo_url 1 demo_site)"
proof -
  have a: "fst (AddTag demo_platform demo_url 1 '' Forum  A '' demo_site) = Inr ()" by code_simp
  have b: "NormalizeTag demo_platform '' Forum  A '' = ''forum a''" by code_simp
  from annotation_round_trip [OF demo_site_ok, of demo_platform demo_url 1 "'' Forum  A ''" "\<lambda>_. 0" 0 "[]"] a
  show ?thesis by (simp only: b simp_thms)
qed

subsection \<open>Deviations\<close>

text \<open>
  A page first crawled while the account kept no text never gets its text, although the account turns
  storage on and purges: the digest was taken over the fetched text, the stored text is empty, the purge
  skips rows with empty text, and the next crawl of the unchanged page sees the same digest.
\<close>

definition demo_meta_only :: db where
  "demo_meta_only = demo_db\<lparr>users := [(demo_user 1 ''a@b.c'')\<lparr>us_store := False\<rparr>], nodes := [demo_row], next_id := 4\<rparr>"

theorem metadata_only_page_stays_empty:
  "let d1 = snd (SaveNode demo_platform 6 demo_url demo_result 1 demo_meta_only);
       d2 = snd (SetPrivacySettings 1 0 True d1);
       d3 = snd (PurgeStoredContent 1 d2);
       d4 = snd (SaveNode demo_platform 7 demo_url demo_result 1 d3)
   in map n_content (nodes d4) = [Some []] \<and> cr_content demo_result \<noteq> []"
  by code_simp

text \<open>
  With 25 tags on a site, applying one of them again is refused, although it would add nothing.
\<close>

theorem existing_tag_refused_when_full:
  assumes "nodeIDFor P url u d = Inr i" and "MaxTagsPerNode \<le> count_where (tag_at u i) (tags d)"
    and "NormalizeTag P tag \<noteq> []" and "length (NormalizeTag P tag) \<le> MaxTagLen"
  shows "AddTag P url u tag d = (Inl ErrTooManyTags, d)"
  using assms by (simp add: AddTag_def Let_def)

end
