(* ===== verification/Api_Witnesses.thy ===== *)
theory Api_Witnesses
  imports Api_Login Lifecycle_Properties
begin

section \<open>The API on a concrete installation\<close>

text \<open>
  A small installation for the witnesses: one secret, a token package that knows the claims of one
  session, and the accounts of the sample database.
\<close>

definition demo_session_claims :: Claims where "demo_session_claims = session_claims 0 1 0 ''01''"

definition demo_api_jwt :: jwt_lib where
  "demo_api_jwt = \<lparr>jwt_sign = (\<lambda>k c. ''token''),
     jwt_parse = (\<lambda>k now s. if s = ''token'' \<and> times_ok now demo_session_claims then Some demo_session_claims else None)\<rparr>"

definition demo_env :: env where
  "demo_env =
     \<lparr>plat = demo_platform, jwt = demo_api_jwt, jwt_secret = replicate 32 (CHR ''k''),
      cfg = \<lparr>AllowRegistration = True, AdminEmail = ''a@b.c'', RequireAdminMFA = False, Workers = 2,
             DeletionGrace = 7 * Day, MaxPendingPerUser = 100\<rparr>,
      coll = length, audit_rank = (\<lambda>_. 0), ts_match = (\<lambda>_ _. True), ts_rank = (\<lambda>_ _. 0), to_char = (\<lambda>_. ''t'')\<rparr>"

definition demo_request :: "string \<Rightarrow> string \<Rightarrow> request" where
  "demo_request meth auth =
     \<lparr>r_method = meth, r_header = (\<lambda>h. if h = ''Authorization'' then auth else []), r_cookie = (\<lambda>_. None),
      r_query = (\<lambda>_. []), r_param = (\<lambda>_. []), r_remote = ''198.51.100.7:4000'', x_claims = None, x_source = None,
      x_role = None, x_email = None, x_network = None\<rparr>"

definition demo_login_row :: session_row where
  "demo_login_row = \<lparr>s_id = 3, s_user = 1, s_token = ''01'', s_label = ''l'', s_created = 0, s_used = 0,
     s_expires = 4 * Hour, s_revoked = None\<rparr>"

definition demo_server :: server where
  "demo_server = New (demo_db\<lparr>sessions := [demo_login_row], next_id := 4\<rparr>)"

definition demo_login :: "string \<Rightarrow> string \<Rightarrow> loginRequest" where
  "demo_login email pw = \<lparr>lg_email = email, lg_password = pw, lg_mode = ''bearer'', lg_code = []\<rparr>"

theorem access_control_witness:
  "let res = serve demo_env Second (PostTag (Some \<lparr>tg_url = demo_url, tg_tag = ''x'', tg_remove = False\<rparr>))
      (demo_request ''POST'' ''Bearer token'') demo_server in
   status (fst res) = 404 \<and>
   (\<exists>c u. authenticated_as demo_env Second (demo_request ''POST'' ''Bearer token'') (sdb demo_server) c u)"
proof -
  let ?ep = "PostTag (Some \<lparr>tg_url = demo_url, tg_tag = ''x'', tg_remove = False\<rparr>)"
  let ?r = "demo_request ''POST'' ''Bearer token''"
  have g: "ep_group ?ep \<in> {Authenticated, AdminOnly}" by (simp add: ep_group_def)
  have st: "status (fst (serve demo_env Second ?ep ?r demo_server)) = 404" by code_simp
  then have n: "\<not> (refused (fst (serve demo_env Second ?ep ?r demo_server)) \<and>
      only_touched Second demo_server (snd (serve demo_env Second ?ep ?r demo_server)))" by (simp add: refused_def)
  from access_control [OF g prod.collapse [symmetric] n] st show ?thesis by (auto simp: Let_def)
qed

definition demo_cookie_request :: request where
  "demo_cookie_request = (demo_request ''POST'' [])\<lparr>r_cookie := (\<lambda>n. if n = sessionCookie then Some ''token'' else None)\<rparr>"

theorem csrf_protects_witness:
  "status (fst (serve demo_env Second PostLogoutAll demo_cookie_request demo_server)) = 403 \<and>
   snd (serve demo_env Second PostLogoutAll demo_cookie_request demo_server) = demo_server"
proof -
  have "credential demo_env Second demo_cookie_request = Some demo_session_claims" by code_simp
  moreover have "snd (presented_token demo_cookie_request) = authSourceCookie" by code_simp
  moreover have "\<not> safe_method (r_method demo_cookie_request)" by code_simp
  moreover have "\<not> echoes_csrf demo_cookie_request" by code_simp
  ultimately show ?thesis by (rule csrf_protects)
qed

definition demo_single :: server where
  "demo_single = New (empty_db\<lparr>users := [demo_user 1 ''a@b.c''], next_id := 2\<rparr>)"

abbreviation demo_login_run :: "response \<times> server" where
  "demo_login_run \<equiv> handleLogin demo_env 0 (replicate 16 (chr 7)) [chr 1] [chr 2] (Some (demo_login '' A@b.c'' ''h'')) (demo_request ''POST'' []) demo_single"

lemma demo_single_ok: "users_ok (sdb demo_single)" by code_simp

lemma demo_login_200: "status (fst demo_login_run) = 200" by code_simp




theorem no_account_enumeration_witness:
  "fst (serve demo_env Second (PostLogin [] [] [] (Some (demo_login ''d@e.f'' ''x''))) (demo_request ''POST'' []) demo_single) =
   fst (serve demo_env Second (PostLogin [] [] [] (Some (demo_login ''d@e.f'' ''x''))) (demo_request ''POST'' []) demo_server) \<and>
   fst (serve demo_env Second (PostForgot [] (Some ''d@e.f'')) (demo_request ''POST'' []) demo_single) =
   fst (serve demo_env Second (PostForgot [] (Some ''d@e.f'')) (demo_request ''POST'' []) demo_server)"
proof -
  let ?q = "demo_login ''d@e.f'' ''x''"
  have l: "resetLim demo_single = resetLim demo_server" "loginLim demo_single = loginLim demo_server"
      "audit (sdb demo_single) = audit (sdb demo_server)"
    by (simp_all add: demo_single_def demo_server_def New_def demo_db_def empty_db_def)
  have n: "GetUserByEmail (plat demo_env) (NormalizeEmail (plat demo_env) (lg_email ?q)) (sdb demo_single) = Inr None"
    by code_simp
  have s: "GetUserByEmail (plat demo_env) (NormalizeEmail (plat demo_env) (lg_email ?q)) (sdb demo_server) =
      Inr (Some (user_view (demo_user 2 ''d@e.f'')))" by code_simp
  have w: "\<not> CheckPasswordHash (plat demo_env) (lg_password ?q) (PasswordHash (user_view (demo_user 2 ''d@e.f'')))" by code_simp
  from no_account_enumeration [OF l n s w, of Second "[]" "Some ''d@e.f''" "demo_request ''POST'' []" "[]" "[]" "[]"]
  show ?thesis by blast
qed


end
