(* ===== verification/Program.thy ===== *)
theory Program
  imports Api_Effects Startup Lifecycle Api_Witnesses
begin

section \<open>The running program\<close>

text \<open>
  The erasure of the accounts that are due, the process as a transition system over requests, worker steps and
  background passes, its simulation by the model of the crawl, and a run of a small installation.
\<close>

subsection \<open>Erasing the accounts that are due\<close>

lemma hex_encode_text: "ascii (hex_encode b)" "list_all (\<lambda>c. byte c \<noteq> 0) (hex_encode b)"
proof -
  have d: "is_ascii (hex_digit n)" "0 < byte (hex_digit n)" if "n < 16" for n
    using that by (simp_all add: hex_digit_def is_ascii_def)
  have n: "byte c div 16 < 16" "byte c mod 16 < 16" for c
    using byte_less [of c] by (simp_all add: less_mult_imp_div_less)
  show "ascii (hex_encode b)" by (induction b) (simp_all add: hex_encode_def d n)
  show "list_all (\<lambda>c. byte c \<noteq> 0) (hex_encode b)" by (induction b) (simp_all add: hex_encode_def d n)
qed

lemma AuditReference_text: "AuditReference P secret kind v \<noteq> []" "texts_ok [AuditReference P secret kind v]"
proof -
  have "ascii ''hmac-sha256:v1:''" "list_all (\<lambda>c. byte c \<noteq> 0) ''hmac-sha256:v1:''" by code_simp+
  then have "pg_text_ok (AuditReference P secret kind v)"
    unfolding AuditReference_def pg_text_ok_def list_all_append ascii_def
    by (intro conjI ascii_valid_utf8) (use hex_encode_text in \<open>simp_all add: ascii_def\<close>)
  then show "texts_ok [AuditReference P secret kind v]" by (simp add: texts_ok_def)
qed (simp add: AuditReference_def)

lemma footprint_within: "footprint Q (footprint R d) = footprint (\<lambda>v. R v \<and> Q v) d"
  by (simp add: footprint_def)

lemma footprint_eq_within:
  "footprint R d' = footprint R d \<Longrightarrow> (\<And>v. Q v \<Longrightarrow> R v) \<Longrightarrow> footprint Q d' = footprint Q d"
proof -
  assume "footprint R d' = footprint R d" and q: "\<And>v. Q v \<Longrightarrow> R v"
  then have "footprint Q (footprint R d') = footprint Q (footprint R d)" by simp
  moreover have "(\<lambda>v. R v \<and> Q v) = Q" using q by blast
  ultimately show ?thesis by (simp add: footprint_within)
qed

lemma erase_due_ok:
  assumes "sys_ok d"
  shows "sys_ok (erase_due P secret x d)" and "footprint ((=) (fst x)) (erase_due P secret x d) = empty_db"
    and "footprint (\<lambda>v. v \<noteq> fst x) (erase_due P secret x d) = footprint (\<lambda>v. v \<noteq> fst x) d"
    and "audit (erase_due P secret x d) =
      filter (\<lambda>a. a_email a \<noteq> AuditReference P secret ''email'' (NormalizeEmail P (snd x))) (audit d)"
proof -
  let ?ref = "AuditReference P secret ''email'' (NormalizeEmail P (snd x))"
  have del: "DeleteAccount (fst x) ?ref d = (Inr (), erase_due P secret x d)"
    using AuditReference_text [of P secret "''email''" "NormalizeEmail P (snd x)"]
    by (simp add: erase_due_def DeleteAccount_def)
  show "sys_ok (erase_due P secret x d)"
    using sys_apply_ok [OF assms, of P "Account (0, Erase (fst x) ?ref)"] by (simp add: erase_due_def)
  note er = account_erasure [OF assms del]
  show "footprint ((=) (fst x)) (erase_due P secret x d) = empty_db"
    "footprint (\<lambda>v. v \<noteq> fst x) (erase_due P secret x d) = footprint (\<lambda>v. v \<noteq> fst x) d"
    "audit (erase_due P secret x d) = filter (\<lambda>a. a_email a \<noteq> ?ref) (audit d)"
    using er AuditReference_text(1) by simp_all
qed

lemma erase_all:
  assumes "sys_ok d"
  shows "let d' = fold (erase_due P secret) xs d in sys_ok d' \<and>
    (\<forall>u \<in> fst ` set xs. footprint ((=) u) d' = empty_db) \<and>
    footprint (\<lambda>v. v \<notin> fst ` set xs) d' = footprint (\<lambda>v. v \<notin> fst ` set xs) d \<and>
    audit d' = filter (\<lambda>a. a_email a \<notin> (\<lambda>x. AuditReference P secret ''email'' (NormalizeEmail P (snd x))) ` set xs) (audit d)"
  using assms
proof (induction xs arbitrary: d)
  case (Cons x xs)
  let ?d1 = "erase_due P secret x d" and ?d' = "fold (erase_due P secret) xs (erase_due P secret x d)"
  note one = erase_due_ok [OF Cons.prems, where P = P and secret = secret and x = x]
  note rest = Cons.IH [OF one(1), unfolded Let_def]
  have "footprint ((=) (fst x)) ?d' = empty_db"
  proof (cases "fst x \<in> fst ` set xs")
    case True
    then show ?thesis using rest by blast
  next
    case False
    then have "footprint ((=) (fst x)) ?d' = footprint ((=) (fst x)) ?d1"
      by (intro footprint_eq_within [OF conjunct1 [OF conjunct2 [OF conjunct2 [OF rest]]]]) blast
    then show ?thesis using one(2) by simp
  qed
  moreover have "footprint (\<lambda>v. v \<notin> fst ` set (x # xs)) ?d' = footprint (\<lambda>v. v \<notin> fst ` set (x # xs)) ?d1"
    by (rule footprint_eq_within [OF conjunct1 [OF conjunct2 [OF conjunct2 [OF rest]]]]) simp
  moreover have "footprint (\<lambda>v. v \<notin> fst ` set (x # xs)) ?d1 = footprint (\<lambda>v. v \<notin> fst ` set (x # xs)) d"
    by (rule footprint_eq_within [OF one(3)]) simp
  ultimately show ?case using rest one(4) by (auto simp: Let_def intro: filter_cong)
qed simp



subsection \<open>Everything at once\<close>

text \<open>
  The process: the state of the API, the crawl and its workers, and the list the deletion sweeper is working
  through. The API and the engine share one database. A request, a step of a worker, a background pass, the
  deletion sweeper's next account, the cleanup of the domain map, or a change of the limiters alone may come next.
\<close>

record process =
  p_server :: server
  p_engine :: engine
  p_workers :: "phase list"
  p_due :: "(int \<times> string) list"

abbreviation p_db :: "process \<Rightarrow> db" where "p_db p \<equiv> sdb (p_server p)"

definition share_db :: "db \<Rightarrow> process \<Rightarrow> process" where
  "share_db d p = p\<lparr>p_server := (p_server p)\<lparr>sdb := d\<rparr>, p_engine := (p_engine p)\<lparr>e_db := d\<rparr>\<rparr>"

definition booted :: "running \<Rightarrow> process" where
  "booted ru = \<lparr>p_server = ru_server ru, p_engine = ru_engine ru, p_workers = ru_workers ru, p_due = []\<rparr>"

inductive process_step :: "crawler \<Rightarrow> env \<Rightarrow> settings \<Rightarrow> process \<Rightarrow> process \<Rightarrow> bool"
  for C :: crawler and E :: env and st :: settings where
  request: "serve E now ep r (p_server p) = (resp, s) \<Longrightarrow>
     process_step C E st p (share_db (sdb s) (p\<lparr>p_server := s\<rparr>))"
| work: "k < length (p_workers p) \<Longrightarrow> worker_step C i (p_workers p ! k) (p_engine p) = (ph, e) \<Longrightarrow>
     process_step C E st p (share_db (e_db e) (p\<lparr>p_engine := e, p_workers := (p_workers p)[k := ph]\<rparr>))"
| pass: "process_step C E st p (share_db (background_pass st now bp (p_db p)) p)"
| due: "p_due p = [] \<Longrightarrow> process_step C E st p (p\<lparr>p_due := DueAccountDeletions rank now 50 (p_db p)\<rparr>)"
| erase: "p_due p = x # xs \<Longrightarrow>
     process_step C E st p (share_db (erase_due (plat E) (jwt_secret E) x (p_db p)) (p\<lparr>p_due := xs\<rparr>))"
| cleanup: "process_step C E st p (p\<lparr>p_engine := (p_engine p)\<lparr>e_access := domain_cleanup now (e_access (p_engine p))\<rparr>\<rparr>)"
| limits: "sdb s = p_db p \<Longrightarrow> process_step C E st p (p\<lparr>p_server := s\<rparr>)"

inductive process_reach :: "crawler \<Rightarrow> env \<Rightarrow> settings \<Rightarrow> process \<Rightarrow> process \<Rightarrow> bool"
  for C :: crawler and E :: env and st :: settings where
  init: "process_reach C E st p p"
| step: "process_reach C E st p p' \<Longrightarrow> process_step C E st p' p'' \<Longrightarrow> process_reach C E st p p''"

text \<open>The process is simulated by the interleaving of workers with operations from outside.\<close>

lemma crawl_reach_trans:
  assumes "crawl_reach C s' s''" and "crawl_reach C s s'"
  shows "crawl_reach C s s''"
  using assms by (induction rule: crawl_reach.induct) (auto intro: crawl_reach.step)

lemma evolves_reach: "evolves (c_plat C) (e_db e) d \<Longrightarrow> crawl_reach C (e, ws) (e\<lparr>e_db := d\<rparr>, ws)"
proof -
  assume "evolves (c_plat C) (e_db e) d"
  then obtain ops where "list_all from_outside ops" "d = sys_run (c_plat C) ops (e_db e)" by (auto simp: evolves_def)
  then show ?thesis
  proof (induction ops arbitrary: d rule: rev_induct)
    case (snoc x ops)
    let ?d = "sys_run (c_plat C) ops (e_db e)"
    have "crawl_reach C (e, ws) (e\<lparr>e_db := ?d\<rparr>, ws)" using snoc by simp
    moreover have "crawl_step C (e\<lparr>e_db := ?d\<rparr>, ws) (e\<lparr>e_db := d\<rparr>, ws)"
      using crawl_step.outside [of x C "e\<lparr>e_db := ?d\<rparr>" ws] snoc.prems by (simp add: sys_run_def)
    ultimately show ?case by (rule crawl_reach.step)
  qed (simp add: sys_run_def crawl_reach.init)
qed

lemma background_pass_effect: "evolves P d (background_pass st now bp d)"
  by (cases bp) (simp_all add: stuck_sweep_def revive_sweep_def audit_sweep_def session_sweep_def retention_sweep_def effects)

lemma erase_due_effect: "evolves P d (erase_due P secret x d)"
  by (simp add: erase_due_def effects)

lemma process_step_simulated:
  assumes "process_step C E st p p'" and "plat E = c_plat C" and "p_db p = e_db (p_engine p)"
  shows "crawl_reach C (p_engine p, p_workers p) (p_engine p', p_workers p') \<and> p_db p' = e_db (p_engine p')"
  using assms(1)
proof (cases rule: process_step.cases)
  case (request now ep r resp s)
  have "evolves (c_plat C) (e_db (p_engine p)) (sdb s)"
    using serve_effect [of E "p_server p" now ep r] assms(2,3) request(2) by simp
  then show ?thesis using request(1) by (simp add: share_db_def evolves_reach)
next
  case (work k i ph e)
  have "crawl_step C (p_engine p, p_workers p) (e, (p_workers p)[k := ph])"
    using work(2,3) by (rule crawl_step.work)
  then have "crawl_reach C (p_engine p, p_workers p) (e, (p_workers p)[k := ph])"
    by (rule crawl_reach.step [OF crawl_reach.init])
  then show ?thesis using work(1) by (simp add: share_db_def)
next
  case (pass now bp)
  then show ?thesis
    using evolves_reach [OF background_pass_effect [of "c_plat C" "e_db (p_engine p)" st now bp]] assms(3)
    by (simp add: share_db_def)
next
  case (erase x xs)
  then show ?thesis
    using evolves_reach [OF erase_due_effect [of "c_plat C" "e_db (p_engine p)" "jwt_secret E" x]] assms(2,3)
    by (simp add: share_db_def)
next
  case (cleanup now)
  have "crawl_reach C (p_engine p, p_workers p)
      ((p_engine p)\<lparr>e_access := domain_cleanup now (e_access (p_engine p))\<rparr>, p_workers p)"
    by (rule crawl_reach.step [OF crawl_reach.init crawl_step.cleanup])
  then show ?thesis using cleanup assms(3) by simp
qed (use assms(3) in \<open>simp_all add: crawl_reach.init\<close>)

lemma process_simulated:
  assumes "process_reach C E st p p'" and "plat E = c_plat C" and "p_db p = e_db (p_engine p)"
  shows "crawl_reach C (p_engine p, p_workers p) (p_engine p', p_workers p') \<and> p_db p' = e_db (p_engine p')"
  using assms
proof (induction rule: process_reach.induct)
  case (step p p' p'')
  then have ih: "crawl_reach C (p_engine p, p_workers p) (p_engine p', p_workers p')" "p_db p' = e_db (p_engine p')"
    by simp_all
  from process_step_simulated [OF step(2) assms(2) ih(2)] ih(1) show ?case by (blast intro: crawl_reach_trans)
qed (simp add: crawl_reach.init)


subsection \<open>From the start\<close>

lemma start_up_cases:
  assumes "start_up P connect talk cookie now now' env = Inr ru"
  obtains d tor where "connect (env ''DATABASE_URL'') = Some d" "ru_settings ru = read_settings env"
    "(ru_engine ru, ru_workers ru) = NewEngine (reset_crawling (migrateOpaqueTokens P d)) tor (nat (st_workers (read_settings env)))"
    "ru_server ru = New (reset_crawling (migrateOpaqueTokens P d))" "ru_config ru = api_config env"
    "env ''DATABASE_URL'' \<noteq> []" "getJWTSecret (env ''JWT_SECRET'') = Some (ru_secret ru)"
  using assms that
  by (auto simp: start_up_def InitDB_def Let_def split_beta split: if_splits option.splits)

lemma booted_shares:
  assumes "start_up P connect talk cookie now now' env = Inr ru"
  shows "p_db (booted ru) = e_db (p_engine (booted ru))"
proof -
  obtain d tor where "(ru_engine ru, ru_workers ru) =
      NewEngine (reset_crawling (migrateOpaqueTokens P d)) tor (nat (st_workers (read_settings env)))"
    "ru_server ru = New (reset_crawling (migrateOpaqueTokens P d))"
    using assms by (rule start_up_cases)
  then show ?thesis by (simp add: booted_def NewEngine_def New_def)
qed

lemma initial_db_ok:
  assumes "sys_ok d" and "depth_ok m d" and "0 < m"
  shows "sys_ok (reset_crawling (migrateOpaqueTokens P d)) \<and> depth_ok m (reset_crawling (migrateOpaqueTokens P d))"
proof -
  have run: "reset_crawling (migrateOpaqueTokens P d) = sys_run P [Account (0, MigrateTokens), Queue ResetAll] d"
    by (simp add: sys_run_def)
  show ?thesis
    unfolding run using schema.keeps_run [of "[Account (0, MigrateTokens), Queue ResetAll]" d P]
      depths.keeps_run [of m "[Account (0, MigrateTokens), Queue ResetAll]" d P] assms by simp
qed

subsection \<open>A run of a small installation\<close>

definition demo_environ :: environ where
  "demo_environ k = (if k = ''DATABASE_URL'' then ''postgres:'' else if k = ''JWT_SECRET'' then replicate 32 (CHR ''k'') else [])"

definition demo_account :: db where
  "demo_account = empty_db\<lparr>users := [demo_user 1 ''a@b.co''], next_id := 2\<rparr>"

abbreviation demo_start :: "exit_reason + running" where
  "demo_start \<equiv> start_up demo_platform (\<lambda>_. Some demo_account) (\<lambda>_. None) None 0 0 demo_environ"

definition demo_running :: running where "demo_running = projr demo_start"

lemma demo_started: "demo_start = Inr demo_running"
proof -
  have "\<not> isl demo_start" by code_simp
  then show ?thesis unfolding demo_running_def by simp
qed

lemma demo_running_server: "p_server (booted demo_running) = New (reset_crawling (migrateOpaqueTokens demo_platform demo_account))"
proof -
  obtain d where "(\<lambda>_. Some demo_account) (demo_environ ''DATABASE_URL'') = Some d"
    "ru_server demo_running = New (reset_crawling (migrateOpaqueTokens demo_platform d))"
    using demo_started by (rule start_up_cases)
  then show ?thesis by (simp add: booted_def)
qed

text \<open>A forgotten password, and then a pass over the sessions.\<close>

definition demo_forgot :: "response \<times> server" where
  "demo_forgot = serve demo_env 5 (PostForgot [chr 1] (Some ''a@b.co'')) (demo_request ''POST'' [])
     (New (reset_crawling (migrateOpaqueTokens demo_platform demo_account)))"

definition demo_process :: process where
  "demo_process =
     (let p = share_db (sdb (snd demo_forgot)) ((booted demo_running)\<lparr>p_server := snd demo_forgot\<rparr>)
      in share_db (background_pass (ru_settings demo_running) 6 SessionPass (p_db p)) p)"

lemma demo_process_reach: "process_reach C demo_env (ru_settings demo_running) (booted demo_running) demo_process"
proof -
  have f: "serve demo_env 5 (PostForgot [chr 1] (Some ''a@b.co'')) (demo_request ''POST'' []) (p_server (booted demo_running)) =
      (fst demo_forgot, snd demo_forgot)" by (simp add: demo_forgot_def demo_running_server)
  show ?thesis
    unfolding demo_process_def Let_def
    by (rule process_reach.step [OF process_reach.step [OF process_reach.init process_step.request [OF f]] process_step.pass])
qed

lemma demo_process_result: "map us_rtoken (users (p_db demo_process)) = [Some ''3031'']"
proof -
  have p: "p_db demo_process = session_sweep 6 (sdb (snd demo_forgot))"
    by (simp add: demo_process_def share_db_def Let_def)
  show ?thesis unfolding p by code_simp
qed

lemma demo_platforms: "plat demo_env = demo_platform" "c_plat demo_crawler = demo_platform"
  by (simp_all add: demo_env_def demo_crawler_def)

abbreviation demo_leaving :: db where
  "demo_leaving \<equiv> snd (RequestAccountDeletion 5 1 0 demo_db)"


subsection \<open>Two surprises\<close>

text \<open>
  The sweeper reads the list of due accounts first and erases them one by one; a cancellation in between is
  confirmed to the user, and the account is erased all the same.
\<close>

theorem cancelled_account_is_erased:
  "let due = DueAccountDeletions (\<lambda>_. 0) 10 50 demo_leaving; (cancelled, d) = CancelAccountDeletion 1 demo_leaving in
   cancelled \<and> list_all (\<lambda>r. us_del_for r = None) (users d) \<and>
   map us_id (users (fold (erase_due demo_platform []) due d)) = [2]"
  by code_simp

text \<open>A number of days is turned into nanoseconds in 64 bits: a grace period of 584 years is one of 25 minutes.\<close>

theorem grace_period_wraps:
  "DeletionGrace (api_config (\<lambda>k. if k = ''ACCOUNT_DELETION_GRACE_DAYS'' then ''213504'' else [])) < 26 * Minute"
  by code_simp

end
