(* ===== verification/Email.thy ===== *)
theory Email
  imports Platform
begin

section \<open>Outgoing mail: internal/email/email.go\<close>

text \<open>
  Addresses, the configuration read from the environment, the message and its delivery. The environment is the
  argument \<open>env\<close>. Three library calls are fields of \<open>mail_lib\<close>: \<open>mail.ParseAddress\<close> (the address it finds, None
  for an error), \<open>time.ParseDuration\<close> and the formatting of an instant. The SMTP server is the argument \<open>srv\<close>, which
  tells whether the last of the steps taken so far succeeded.
\<close>

record mail_lib =
  parse_address :: "string \<Rightarrow> string option"
  parse_duration :: "string \<Rightarrow> duration option"
  format_utc :: "time \<Rightarrow> string"

datatype mail_error = ErrInvalidRecipient | ErrInvalidSender | ErrSMTPConfig | ErrSMTPTLSRequired | ErrSMTP

definition defaultSMTPTimeout :: duration where "defaultSMTPTimeout = 10 * Second"

record smtpConfig =
  sc_host :: string
  sc_port :: string
  sc_user :: string
  sc_pass :: string
  sc_from :: string
  sc_tlsMode :: string
  sc_timeout :: duration
  sc_serverName :: string

abbreviation cr :: char where "cr \<equiv> CHR 0x0D"
abbreviation lf :: char where "lf \<equiv> CHR 0x0A"
abbreviation nul :: char where "nul \<equiv> CHR 0x00"
abbreviation crlf :: string where "crlf \<equiv> [cr, lf]"

definition contains_any :: "string \<Rightarrow> char list \<Rightarrow> bool" where
  "contains_any s cs = list_ex (\<lambda>c. c \<in> set cs) s"

subsection \<open>Addresses and configuration\<close>

definition verifyBaseURL :: "(string \<Rightarrow> string) \<Rightarrow> string" where
  "verifyBaseURL env =
     (if env ''VERIFY_URL_BASE'' \<noteq> [] then TrimRight CHR ''/'' (env ''VERIFY_URL_BASE'')
      else if env ''CORS_ORIGIN'' \<noteq> [] then TrimRight CHR ''/'' (takeWhile (\<lambda>c. c \<noteq> CHR '','') (env ''CORS_ORIGIN''))
      else ''http://localhost:8900'')"

definition canonicalMailbox :: "mail_lib \<Rightarrow> string \<Rightarrow> mail_error \<Rightarrow> mail_error + string" where
  "canonicalMailbox L raw sentinel =
     (if raw = [] \<or> length raw > 254 \<or> contains_any raw [cr, lf, nul] then Inl sentinel
      else case parse_address L raw of
        None \<Rightarrow> Inl sentinel
      | Some address \<Rightarrow>
          if address = [] \<or> length address > 254 \<or> contains_any address [cr, lf, nul] then Inl sentinel
          else Inr address)"

definition smtp_tlsMode :: "platform \<Rightarrow> (string \<Rightarrow> string) \<Rightarrow> int \<Rightarrow> string" where
  "smtp_tlsMode P env portNumber =
     (let mode = lower P (TrimSpace (env ''SMTP_TLS_MODE'')) in
      if mode = [] then (if portNumber = 465 then ''implicit'' else ''starttls'') else mode)"

text \<open>None is an error.\<close>

definition smtp_timeout :: "mail_lib \<Rightarrow> (string \<Rightarrow> string) \<Rightarrow> duration option" where
  "smtp_timeout L env =
     (let raw = TrimSpace (env ''SMTP_TIMEOUT'') in
      if raw = [] then Some defaultSMTPTimeout
      else case parse_duration L raw of
        None \<Rightarrow> None
      | Some t \<Rightarrow> if t < 100000000 \<or> t > 2 * Minute then None else Some t)"

text \<open>\<open>Inr None\<close>: delivery is switched off.\<close>

definition smtpConfigFromEnv :: "platform \<Rightarrow> mail_lib \<Rightarrow> (string \<Rightarrow> string) \<Rightarrow> mail_error + smtpConfig option" where
  "smtpConfigFromEnv P L env =
     (let host = TrimSpace (env ''SMTP_HOST''); port0 = TrimSpace (env ''SMTP_PORT''); user = TrimSpace (env ''SMTP_USER'');
          pass = env ''SMTP_PASS''; from = TrimSpace (env ''SMTP_FROM'');
          port = (if port0 = [] then ''587'' else port0)
      in if host = [] then (if user \<noteq> [] \<or> pass \<noteq> [] \<or> from \<noteq> [] then Inl ErrSMTPConfig else Inr None)
         else if user = [] \<or> pass = [] \<or> from = [] then Inl ErrSMTPConfig
         else if contains_any host [cr, lf, nul, CHR ''/'', CHR '' ''] \<or> contains_any user [cr, lf, nul] then Inl ErrSMTPConfig
         else case Atoi port of
           None \<Rightarrow> Inl ErrSMTPConfig
         | Some n \<Rightarrow>
             if n < 1 \<or> n > 65535 then Inl ErrSMTPConfig
             else (case canonicalMailbox L from ErrInvalidSender of
                 Inl e \<Rightarrow> Inl e
               | Inr cleanFrom \<Rightarrow>
                   let mode = smtp_tlsMode P env n in
                   if mode \<noteq> ''starttls'' \<and> mode \<noteq> ''implicit'' then Inl ErrSMTPConfig
                   else (case smtp_timeout L env of
                       None \<Rightarrow> Inl ErrSMTPConfig
                     | Some t \<Rightarrow>
                         Inr (Some \<lparr>sc_host = host, sc_port = port, sc_user = user, sc_pass = pass, sc_from = cleanFrom,
                           sc_tlsMode = mode, sc_timeout = t, sc_serverName = host\<rparr>))))"

subsection \<open>The message\<close>

definition stripCRLF :: "string \<Rightarrow> string" where
  "stripCRLF s = RemoveAll lf (RemoveAll cr s)"

text \<open>The three replacements: CR LF to LF, CR to LF, LF to CR LF.\<close>

fun crlf_to_lf :: "string \<Rightarrow> string" where
  "crlf_to_lf (a # b # s) = (if a = cr \<and> b = lf then lf # crlf_to_lf s else a # crlf_to_lf (b # s))"
| "crlf_to_lf s = s"

definition normalizeBody :: "string \<Rightarrow> string" where
  "normalizeBody s = concat (map (\<lambda>c. if c = lf then crlf else [c]) (map (\<lambda>c. if c = cr then lf else c) (crlf_to_lf s)))"

definition mail_message :: "string \<Rightarrow> string \<Rightarrow> string \<Rightarrow> string \<Rightarrow> string" where
  "mail_message from to subject bodyText =
     ''From: '' @ from @ crlf @ ''To: '' @ to @ crlf @ ''Subject: '' @ subject @ crlf @ ''MIME-Version: 1.0'' @ crlf @
     ''Content-Type: text/plain; charset=UTF-8'' @ crlf @ crlf @ normalizeBody bodyText @ crlf"

subsection \<open>Delivery\<close>

datatype smtp_act =
    DialTLS | Dial | SetDeadline | Greeting | OffersSTARTTLS | StartTLS | Auth string string
  | MailFrom string | RcptTo string | Data | Body string | CloseBody | Quit

text \<open>
  Steps in order until one fails; the result is the error, None for success, and the steps taken. Closing the
  body after a failed write belongs to that write.
\<close>

fun smtp_run :: "(smtp_act list \<Rightarrow> bool) \<Rightarrow> smtp_act list \<Rightarrow> smtp_act list \<Rightarrow> mail_error option \<times> smtp_act list" where
  "smtp_run srv taken [] = (None, taken)"
| "smtp_run srv taken (a # as) =
     (if srv (taken @ [a]) then smtp_run srv (taken @ [a]) as
      else (Some (if a = OffersSTARTTLS then ErrSMTPTLSRequired else ErrSMTP), taken @ [a]))"

definition smtp_plan :: "smtpConfig \<Rightarrow> string \<Rightarrow> string \<Rightarrow> smtp_act list" where
  "smtp_plan c recipient msg =
     [if sc_tlsMode c = ''implicit'' then DialTLS else Dial, SetDeadline, Greeting] @
     (if sc_tlsMode c = ''starttls'' then [OffersSTARTTLS, StartTLS] else []) @
     [Auth (sc_user c) (sc_pass c), MailFrom (sc_from c), RcptTo recipient, Data, Body msg, CloseBody, Quit]"

definition deliverSMTP :: "(smtp_act list \<Rightarrow> bool) \<Rightarrow> smtpConfig \<Rightarrow> string \<Rightarrow> string \<Rightarrow> mail_error option \<times> smtp_act list" where
  "deliverSMTP srv c recipient msg = smtp_run srv [] (smtp_plan c recipient msg)"

definition sendMail ::
    "platform \<Rightarrow> mail_lib \<Rightarrow> (string \<Rightarrow> string) \<Rightarrow> (smtp_act list \<Rightarrow> bool) \<Rightarrow> string \<Rightarrow> string \<Rightarrow> string \<Rightarrow> mail_error option \<times> smtp_act list" where
  "sendMail P L env srv to subject bodyText =
     (case canonicalMailbox L to ErrInvalidRecipient of
        Inl e \<Rightarrow> (Some e, [])
      | Inr cleanTo \<Rightarrow>
          (case smtpConfigFromEnv P L env of
             Inl e \<Rightarrow> (Some e, [])
           | Inr None \<Rightarrow> (None, [])
           | Inr (Some c) \<Rightarrow> deliverSMTP srv c cleanTo (mail_message (sc_from c) cleanTo (stripCRLF subject) bodyText)))"

definition verificationLink :: "(string \<Rightarrow> string) \<Rightarrow> string \<Rightarrow> string" where
  "verificationLink env token = verifyBaseURL env @ ''/verify-account#token='' @ token"

definition passwordResetLink :: "(string \<Rightarrow> string) \<Rightarrow> string \<Rightarrow> string" where
  "passwordResetLink env token = verifyBaseURL env @ ''/reset-password#token='' @ token"

definition SendVerificationEmail where
  "SendVerificationEmail P L env srv to token =
     sendMail P L env srv to ''Onion Spider account confirmation''
       (''Hello,'' @ crlf @ crlf @ ''Click the link below to confirm your account:'' @ crlf @
        stripCRLF (verificationLink env token) @ crlf @ crlf @ ''This link expires in 24 hours.'')"

definition SendPasswordResetEmail where
  "SendPasswordResetEmail P L env srv to token =
     sendMail P L env srv to ''Onion Spider password reset''
       (''Hello,'' @ crlf @ crlf @ ''We received a request to reset your Onion Spider password.'' @ crlf @
        ''Open the link below to choose a new password:'' @ crlf @ stripCRLF (passwordResetLink env token) @ crlf @ crlf @
        ''This link expires in 1 hour. If you did not request this, you can ignore this email.'')"

definition SendAccountDeletionScheduledEmail where
  "SendAccountDeletionScheduledEmail P L env srv to scheduledFor =
     sendMail P L env srv to ''Onion Spider account deletion scheduled''
       (''Hello,'' @ crlf @ crlf @ ''Your Onion Spider account is scheduled for deletion on '' @
        stripCRLF (format_utc L scheduledFor) @ ''.'' @ crlf @ crlf @
        ''When that time arrives your account, your crawl records and your links are permanently removed. '' @
        ''This cannot be undone afterwards.'' @ crlf @ crlf @
        ''If you did not ask for this, sign in before that date and cancel the deletion from the Privacy page '' @
        map chr [226, 128, 148] @ '' then change your password, because someone else knew it.'')"

definition SendAccountDeletionCancelledEmail where
  "SendAccountDeletionCancelledEmail P L env srv to =
     sendMail P L env srv to ''Onion Spider account deletion cancelled''
       (''Hello,'' @ crlf @ crlf @ ''The scheduled deletion of your Onion Spider account has been cancelled. '' @
        ''Nothing was removed.'' @ crlf @ crlf @ ''If you did not do this, sign in and change your password.'')"

subsection \<open>Properties\<close>

definition one_line :: "string \<Rightarrow> bool" where "one_line s = (cr \<notin> set s \<and> lf \<notin> set s)"

lemma one_line_simps [simp]: "one_line (s @ t) \<longleftrightarrow> one_line s \<and> one_line t" "one_line []"
  "one_line (c # s) \<longleftrightarrow> c \<noteq> cr \<and> c \<noteq> lf \<and> one_line s"
  by (auto simp: one_line_def)

lemma canonicalMailbox_one_line: "canonicalMailbox L raw e = Inr a \<Longrightarrow> one_line a \<and> a \<noteq> [] \<and> length a \<le> 254"
  by (auto simp: canonicalMailbox_def contains_any_def one_line_def list_ex_iff split: if_splits option.splits)

lemma stripCRLF_one_line: "one_line (stripCRLF s)"
  by (auto simp: stripCRLF_def one_line_def RemoveAll_def)

lemma smtpConfigFromEnv_ok:
  assumes "smtpConfigFromEnv P L env = Inr (Some c)"
  shows "sc_tlsMode c \<in> {''starttls'', ''implicit''} \<and> one_line (sc_from c)"
  using assms canonicalMailbox_one_line
  by (auto simp: smtpConfigFromEnv_def Let_def split: if_splits option.splits sum.splits)

text \<open>What is taken is a part of the plan, and every step before another succeeded.\<close>

lemma smtp_run_prefix:
  assumes "smtp_run srv taken as = (res, acts)"
  shows "\<exists>xs. acts = taken @ xs \<and> prefix xs as \<and> (\<forall>ys a zs. xs = ys @ a # zs \<and> zs \<noteq> [] \<longrightarrow> srv (taken @ ys @ [a]))"
  using assms
proof (induction srv taken as rule: smtp_run.induct)
  case (2 srv taken a as)
  show ?case
  proof (cases "srv (taken @ [a])")
    case True
    then obtain xs where xs: "acts = taken @ a # xs" "prefix xs as"
      "\<forall>ys b zs. xs = ys @ b # zs \<and> zs \<noteq> [] \<longrightarrow> srv (taken @ a # ys @ [b])" using 2 by auto
    have "srv (taken @ ys @ [b])" if "a # xs = ys @ b # zs" "zs \<noteq> []" for ys b zs
      using that True xs(3) by (cases ys) auto
    then show ?thesis using xs(1,2) by (intro exI [of _ "a # xs"]) auto
  next
    case False
    then show ?thesis using 2(2) by (intro exI [of _ "[a]"]) (auto simp: Cons_eq_append_conv)
  qed
qed simp

text \<open>Lines end in CR LF and nowhere else.\<close>

fun lines_ok :: "string \<Rightarrow> bool" where
  "lines_ok [] = True"
| "lines_ok (a # s) =
     (if a = cr then (case s of b # t \<Rightarrow> b = lf \<and> lines_ok t | [] \<Rightarrow> False) else a \<noteq> lf \<and> lines_ok s)"

lemma lines_ok_expand: "cr \<notin> set s \<Longrightarrow> lines_ok (concat (map (\<lambda>c. if c = lf then crlf else [c]) s))"
  by (induction s) auto

lemma normalizeBody_lines: "lines_ok (normalizeBody s)"
  unfolding normalizeBody_def by (rule lines_ok_expand) auto

definition mail_headers :: "string \<Rightarrow> string \<Rightarrow> string \<Rightarrow> string list" where
  "mail_headers from to subject =
     [''From: '' @ from, ''To: '' @ to, ''Subject: '' @ subject, ''MIME-Version: 1.0'', ''Content-Type: text/plain; charset=UTF-8'']"

lemma mail_message_headers:
  assumes "one_line from" "one_line to" "one_line subject"
  shows "mail_message from to subject txt = concat (map (\<lambda>h. h @ crlf) (mail_headers from to subject)) @ crlf @ normalizeBody txt @ crlf"
    "list_all one_line (mail_headers from to subject)"
    "map (takeWhile (\<lambda>c. c \<noteq> CHR '':'')) (mail_headers from to subject) =
       [''From'', ''To'', ''Subject'', ''MIME-Version'', ''Content-Type'']"
proof -
  show "mail_message from to subject txt = concat (map (\<lambda>h. h @ crlf) (mail_headers from to subject)) @ crlf @ normalizeBody txt @ crlf"
    unfolding mail_message_def mail_headers_def list.map concat.simps append_assoc append_Nil2 ..
  show "list_all one_line (mail_headers from to subject)" using assms by (simp add: mail_headers_def)
  show "map (takeWhile (\<lambda>c. c \<noteq> CHR '':'')) (mail_headers from to subject) =
       [''From'', ''To'', ''Subject'', ''MIME-Version'', ''Content-Type'']"
    by (simp add: mail_headers_def)
qed

text \<open>What the steps before anything confidential were.\<close>

definition confidential :: "smtp_act \<Rightarrow> bool" where
  "confidential a = (a \<in> {Data, CloseBody} \<or> (\<exists>u p. a = Auth u p) \<or> (\<exists>m. a = MailFrom m \<or> a = RcptTo m \<or> a = Body m))"

lemma smtp_plan_starttls:
  assumes "smtp_plan c recipient msg = before @ a # tail" and "confidential a" and "sc_tlsMode c = ''starttls''"
  obtains rest where "before = [Dial, SetDeadline, Greeting, OffersSTARTTLS, StartTLS] @ rest"
  using assms that
  by (cases before; cases "tl before"; cases "tl (tl before)"; cases "tl (tl (tl before))"; cases "tl (tl (tl (tl before)))")
    (auto simp: smtp_plan_def confidential_def)

lemma smtp_encrypted:
  assumes "smtp_plan c recipient msg = before @ a # tail" and "confidential a"
    and "sc_tlsMode c = ''implicit'' \<or> sc_tlsMode c = ''starttls''"
    and "\<And>ys b zs. before @ a # after = ys @ b # zs \<Longrightarrow> zs \<noteq> [] \<Longrightarrow> srv (ys @ [b])"
  shows "hd before = DialTLS \<or> StartTLS \<in> set before \<and> srv (takeWhile (\<lambda>x. x \<noteq> StartTLS) before @ [StartTLS])"
proof (cases "sc_tlsMode c = ''implicit''")
  case True
  then show ?thesis using assms(1,2) by (cases before) (auto simp: smtp_plan_def confidential_def)
next
  case False
  then obtain rest where b: "before = [Dial, SetDeadline, Greeting, OffersSTARTTLS, StartTLS] @ rest"
    using smtp_plan_starttls [OF assms(1,2)] assms(3) by blast
  have "srv ([Dial, SetDeadline, Greeting, OffersSTARTTLS] @ [StartTLS])"
    by (rule assms(4) [of _ _ "rest @ a # after"]) (simp_all add: b)
  then show ?thesis by (simp add: b)
qed


definition demo_mail_env :: "string \<Rightarrow> string" where
  "demo_mail_env k =
     (if k = ''SMTP_HOST'' then ''mail.example'' else if k = ''SMTP_USER'' then ''u'' else if k = ''SMTP_PASS'' then ''p''
      else if k = ''SMTP_FROM'' then ''spider@example.org'' else [])"

definition demo_mail_lib :: mail_lib where
  "demo_mail_lib = \<lparr>parse_address = Some, parse_duration = (\<lambda>_. None), format_utc = (\<lambda>_. ''now'')\<rparr>"

abbreviation demo_mail :: "mail_error option \<times> smtp_act list" where
  "demo_mail \<equiv> sendMail demo_platform demo_mail_lib demo_mail_env (\<lambda>_. True) ''a@b.c'' (''Hi'' @ crlf @ ''Bcc: x@y.z'') ''text''"


end
