(* ===== verification/Spec2Isabelle.thy ===== *)
theory Spec2Isabelle
  imports Program Email
begin

text \<open>
  A verification development of Onion Spider, the crawler, API server and database layer under
  \<open>src/backend\<close>.

  \<^bold>\<open>The program.\<close> One process (\<open>cmd/api/main.go\<close>) opens a PostgreSQL database, starts a pool of crawl
  workers (\<open>internal/crawler\<close>) that fetch onion sites through Tor (\<open>internal/proxy\<close>), serves an HTTP API
  (\<open>internal/api\<close>) and runs background passes: stuck crawls, failed nodes, the audit log, sessions, retention, account
  deletion. Workers, handlers and passes share nothing but the database (\<open>internal/database\<close>), the map of
  politeness slots, the cache of robots.txt files and the rate limiters. \<open>cmd/crawler/main.go\<close> is a
  one-shot crawler on the same parts.

  \<^bold>\<open>How it is modelled.\<close> The database is a record of tables, lists of rows (\<open>Store\<close>); each SQL statement is a function on
  it, and a method that issues two statements outside a transaction is two functions, so that others may run in
  between. Go strings are byte lists. Instants and durations are integers of nanoseconds, words where the width matters:
  the one-time codes (64 bits), the error counter (32 bits), the settings in days (64 bits). Errors are values of
  sum or option types; a panic and an exit are values too. A handler is a function of the request and the state of
  the server at one instant, returning response and state. A worker is a state machine: one
  step makes at most one access to shared state, and steps of any number of workers interleave with each other, with
  requests and with passes (\<open>crawl_step\<close>, \<open>process_step\<close>). Cryptography, the Unicode case tables beyond ASCII, parsing of
  bracketed hosts, the JWT package, the HTML and XML parsers, mail address parsing, text search and
  collation of the database, the network and the SMTP server are arguments (\<open>platform\<close>, \<open>jwt_lib\<close>, \<open>env\<close>, \<open>html_lib\<close>,
  \<open>sitemap_lib\<close>, \<open>mail_lib\<close>, \<open>wire\<close>), never assumed to be more than functions unless a theorem says so.

  \<^bold>\<open>The theories.\<close>
  \<^item> \<open>Prelude\<close>, \<open>Go_Strings\<close>, \<open>Go_Text\<close>, \<open>Go_Url\<close>, \<open>Go_Net\<close>, \<open>Platform\<close>: lemmas on tables and lists; what the sources use
    of \<open>strings\<close>, \<open>strconv\<close>, \<open>unicode/utf8\<close>, \<open>encoding\<close>, \<open>net/url\<close>, \<open>net\<close>; the parameters.
  \<^item> \<open>Onion\<close> (\<open>onion/url.go\<close>): acceptance is exactly the v3 address format; normalised URLs are canonical.
  \<^item> \<open>Store\<close>, \<open>Crawl_Queue\<close>, \<open>Queue_Invariants\<close> (\<open>database/db.go\<close>: nodes, edges, blacklist): schema constraints and
    the blacklist over every sequence of operations; which row is claimed; isolation of accounts; quota; back-off.
  \<^item> \<open>Accounts\<close>, \<open>Totp\<close>, \<open>Password\<close>, \<open>Account_Invariants\<close> (\<open>database/db.go\<close>: users and audit log, \<open>sessions.go\<close>,
    \<open>database/totp.go\<close>, \<open>auth/\<close>): single use of tokens, codes and time steps, finality of revocation,
    round trips of hashes, tokens and codes, bounds of a password check. The locale \<open>watermark\<close> is the contract of a
    counter that never goes back, interpreted on the one-time password step.
  \<^item> \<open>Privacy\<close>, \<open>Annotations\<close>, \<open>Annotation_Invariants\<close>, \<open>Lifecycle\<close>, \<open>Lifecycle_Properties\<close> (\<open>privacy.go\<close>,
    \<open>annotations.go\<close>): erasure, retention, the grace period, ownership, and the refinement of a watch's feed.
  \<^item> \<open>Rate_Limit\<close>, \<open>Politeness\<close>, \<open>Robots\<close> (\<open>ratelimit.go\<close>, \<open>waitForDomain\<close>, \<open>robots.go\<close>): bounds of a limiter, through the
    locale \<open>charging\<close> and its interpretation; spacing of requests to a host; robots.txt against a reference reading.
  \<^item> \<open>Http\<close>, \<open>Auth_Handlers\<close>, \<open>Site_Handlers\<close>, \<open>Export_Handlers\<close>, \<open>Router\<close>, then \<open>Api_Access\<close>, \<open>Api_Login\<close>,
    \<open>Api_Witnesses\<close> (\<open>internal/api\<close>): every route with its middleware; who gets through, what a login needs, CSRF, stale
    tokens, what a failed login tells, the CSV export read back.
  \<^item> \<open>Api_Effects\<close>: every request changes the database by operations of the store only. The locale \<open>store_invariant\<close> is
    the contract between store and clients, interpreted for the schema and for the depth bound.
  \<^item> \<open>Tor_Client\<close>, \<open>Scraper\<close>, \<open>Sitemap\<close>, \<open>Engine\<close>, \<open>Engine_Properties\<close> (\<open>proxy/\<close>, \<open>scraper.go\<close>, \<open>extract.go\<close>, \<open>categorizer.go\<close>,
    \<open>sitemap.go\<close>, \<open>engine.go\<close>): what is contacted, bounds of a scrape, categories, progress of a worker.
  \<^item> \<open>Email\<close> (\<open>email.go\<close>): well-formed mail over TLS only.
  \<^item> \<open>Startup\<close>, \<open>Program\<close> (\<open>cmd/\<close>): settings, start-up, passes; the process as a whole. This theory states what holds
    of it.

  \<^bold>\<open>Bounds.\<close> No function has fuel. The redirect loop ends because the policy refuses the third redirect, so a fetch makes
  at most three requests; a scrape yields at most 300 links and a sitemap at most 300 URLs, so a claim is worked off
  in at most 612 steps of its worker.

  \<^bold>\<open>Not modelled.\<close> Log lines (\<open>logging/\<close>, \<open>safelogger.go\<close>) and metrics (\<open>metrics/\<close>, \<open>metrics_middleware.go\<close>): output that nothing
  reads. A database error other than a violated constraint or refused text, a client that goes away while a response is
  written, and a failing random generator: every branch they lead to only logs or answers 500. The decoding of JSON bodies, an
  input of the handlers. The CORS package, panic recovery and request ids of the router. Durations of the work
  itself: \<open>CheckAgainstDummy\<close> has no other effect. The versioned SQL migrations: the tables have the
  columns, keys and constraints of the final schema. The tickers: a pass may run at any time. The front end,
  deployment and scripts.
\<close>

section \<open>Properties that span components\<close>






text \<open>
  C40. The server starts exactly when a database is named, the secret is long enough and the database opens;
  otherwise it exits with that reason. Once it runs, its secret has at least 32 bytes, it has a worker and
  crawls at least one level deep, a deletion waits for a positive time, administrators need a second factor unless that was
  switched off by name, and registration is open only when it was switched on.
\<close>

theorem start_up_errors:
  "(case start_up P connect talk cookie now now' env of
      Inl MissingDSN \<Rightarrow> env ''DATABASE_URL'' = []
    | Inl WeakSecret \<Rightarrow> env ''DATABASE_URL'' \<noteq> [] \<and> length (env ''JWT_SECRET'') < 32
    | Inl DBFailed \<Rightarrow> env ''DATABASE_URL'' \<noteq> [] \<and> 32 \<le> length (env ''JWT_SECRET'') \<and> connect (env ''DATABASE_URL'') = None
    | Inr ru \<Rightarrow> env ''DATABASE_URL'' \<noteq> [] \<and> connect (env ''DATABASE_URL'') \<noteq> None \<and>
        32 \<le> length (ru_secret ru) \<and> ru_workers ru \<noteq> [] \<and> 0 < st_maxDepth (ru_settings ru) \<and>
        0 < DeletionGrace (ru_config ru) \<and> (RequireAdminMFA (ru_config ru) \<longleftrightarrow> env ''REQUIRE_ADMIN_MFA'' \<noteq> ''false'') \<and>
        (AllowRegistration (ru_config ru) \<longleftrightarrow> env ''ALLOW_REGISTRATION'' = ''true''))"
proof -
  have "0 < env_pos env k n" if "0 < n" for k n using that by (simp add: env_pos_def split: option.split)
  then have pos: "0 < st_workers (read_settings env)" "0 < st_maxDepth (read_settings env)"
    by (simp_all add: read_settings_def)
  have grace: "0 < deletion_grace g" for g by (simp add: deletion_grace_def)
  show ?thesis
    using pos grace
    by (auto simp: start_up_def InitDB_def getJWTSecret_def MinSecretLen_def NewEngine_def api_config_def Let_def
        split_beta split: option.split)
qed

end
